(* ===== verification/Prelude.thy ===== *)
theory Prelude
  imports Main
begin

text \<open>
  Shared vocabulary of the development: the result of a Go call that may return an error,
  panic or end the process; the collections of simplification rules the components use;
  and the generic lemmas on lists and maps they share.

  A Go function with an error result becomes a function into \<open>outcome\<close>:
  \<^item> \<open>Ok v\<close> is a return with a nil error,
  \<^item> \<open>Err e\<close> is a return with the non-nil error \<open>e\<close> (an error is its message, the
    only part of an error the code looks at),
  \<^item> \<open>Panic w\<close> is a run-time panic (a nil dereference, a failed type assertion, an index
    out of range) that no \<open>recover\<close> of the code catches,
  \<^item> \<open>Exit n\<close> is a call of \<open>os.Exit\<close> or \<open>log.Fatalf\<close>.
\<close>

type_synonym gerror = string

datatype 'a outcome = Ok 'a | Err gerror | Panic string | Exit int

named_theorems wire_simps \<open>characteristic equations of the encoders and decoders\<close>
named_theorems bus_simps \<open>effect of an operation on the messages a bus has accepted\<close>

subsection \<open>Sequencing outcomes\<close>

text \<open>
  \<open>outcome_bind\<close> is the \<open>if err != nil { return err }\<close> of the code: everything but a
  regular result is passed on.
\<close>

primrec outcome_bind :: "'a outcome \<Rightarrow> ('a \<Rightarrow> 'b outcome) \<Rightarrow> 'b outcome" where
  "outcome_bind (Ok v) f = f v"
| "outcome_bind (Err e) f = Err e"
| "outcome_bind (Panic w) f = Panic w"
| "outcome_bind (Exit n) f = Exit n"

primrec is_ok :: "'a outcome \<Rightarrow> bool" where
  "is_ok (Ok v) = True"
| "is_ok (Err e) = False"
| "is_ok (Panic w) = False"
| "is_ok (Exit n) = False"

primrec is_panic :: "'a outcome \<Rightarrow> bool" where
  "is_panic (Ok v) = False"
| "is_panic (Err e) = False"
| "is_panic (Panic w) = True"
| "is_panic (Exit n) = False"

lemma outcome_bind_Ok_iff:
  "outcome_bind m f = Ok v \<longleftrightarrow> (\<exists>x. m = Ok x \<and> f x = Ok v)"
  by (cases m) simp_all

lemma is_ok_iff: "is_ok m \<longleftrightarrow> (\<exists>v. m = Ok v)"
  by (cases m) simp_all

text \<open>
  Code that calls on while it changes a state: a computation takes the state and returns it
  with an outcome. \<open>bindS\<close> goes on after a regular result only; \<open>tryS\<close> goes on after an
  error as well, as the code does that looks at the error itself.
\<close>

type_synonym ('s, 'a) go = "'s \<Rightarrow> 's \<times> 'a outcome"

definition bindS :: "('s, 'a) go \<Rightarrow> ('a \<Rightarrow> ('s, 'b) go) \<Rightarrow> ('s, 'b) go" where
  "bindS m f s =
     (case m s of
        (s', Ok v) \<Rightarrow> f v s'
      | (s', Err e) \<Rightarrow> (s', Err e)
      | (s', Panic w) \<Rightarrow> (s', Panic w)
      | (s', Exit n) \<Rightarrow> (s', Exit n))"

definition tryS :: "('s, 'a) go \<Rightarrow> ('a \<Rightarrow> ('s, 'b) go) \<Rightarrow> (gerror \<Rightarrow> ('s, 'b) go) \<Rightarrow> ('s, 'b) go" where
  "tryS m f h s =
     (case m s of
        (s', Ok v) \<Rightarrow> f v s'
      | (s', Err e) \<Rightarrow> h e s'
      | (s', Panic w) \<Rightarrow> (s', Panic w)
      | (s', Exit n) \<Rightarrow> (s', Exit n))"

definition liftS :: "'a outcome \<Rightarrow> ('s, 'a) go" where
  "liftS r s = (s, r)"

text \<open>\<open>keeps I m\<close>: the computation leaves the invariant \<open>I\<close> as it found it, however it ends.\<close>

definition keeps :: "('s \<Rightarrow> bool) \<Rightarrow> ('s, 'a) go \<Rightarrow> bool" where
  "keeps I m \<longleftrightarrow> (\<forall>s s' r. I s \<longrightarrow> m s = (s', r) \<longrightarrow> I s')"

named_theorems keeps_intros \<open>computations that keep an invariant\<close>

lemma keepsD: "keeps I m \<Longrightarrow> m s = (s', r) \<Longrightarrow> I s \<Longrightarrow> I s'"
  by (auto simp: keeps_def)

lemma keeps_lift [keeps_intros]: "keeps I (liftS r)"
  by (simp add: keeps_def liftS_def)

lemma keeps_try [keeps_intros]:
  assumes m: "keeps I m" and f: "\<And>v. keeps I (f v)" and h: "\<And>e. keeps I (h e)"
  shows "keeps I (tryS m f h)"
  unfolding keeps_def
proof (intro allI impI)
  fix s s' r
  assume "I s" and t: "tryS m f h s = (s', r)"
  obtain s1 x where x: "m s = (s1, x)" by (cases "m s")
  from keepsD [OF m x \<open>I s\<close>] t x keepsD [OF f] keepsD [OF h] show "I s'"
    by (cases x) (auto simp: tryS_def)
qed

lemma bindS_tryS: "bindS m f = tryS m f (\<lambda>e. liftS (Err e))"
  by (auto simp: fun_eq_iff bindS_def tryS_def liftS_def split: prod.splits outcome.splits)

lemma keeps_bind [keeps_intros]: "keeps I m \<Longrightarrow> (\<And>v. keeps I (f v)) \<Longrightarrow> keeps I (bindS m f)"
  unfolding bindS_tryS by (intro keeps_try keeps_lift)

text \<open>How a computation that ended in a regular result was put together.\<close>

lemma bindS_Ok: "bindS m f s = (s', Ok v) \<longleftrightarrow> (\<exists>s1 x. m s = (s1, Ok x) \<and> f x s1 = (s', Ok v))"
  by (auto simp: bindS_def split: prod.splits outcome.splits)

lemma tryS_Ok:
  "tryS m f h s = (s', Ok v) \<longleftrightarrow>
     (\<exists>s1 x. m s = (s1, Ok x) \<and> f x s1 = (s', Ok v)) \<or> (\<exists>s1 e. m s = (s1, Err e) \<and> h e s1 = (s', Ok v))"
  by (auto simp: tryS_def split: prod.splits outcome.splits)

lemma liftS_Ok: "liftS r s = (s', Ok v) \<longleftrightarrow> s' = s \<and> r = Ok v"
  by (auto simp: liftS_def)

lemmas go_Ok = bindS_Ok tryS_Ok liftS_Ok

subsection \<open>Association lists as Go maps\<close>

text \<open>
  Where a Go map is printed, ranged over or compared, the model keeps it as a list of
  key-value pairs with distinct keys, in the order a traversal visits them.
\<close>

fun alist_put :: "'k \<Rightarrow> 'v \<Rightarrow> ('k \<times> 'v) list \<Rightarrow> ('k \<times> 'v) list" where
  "alist_put k v [] = [(k, v)]"
| "alist_put k v ((k', v') # xs) =
     (if k = k' then (k, v) # xs else (k', v') # alist_put k v xs)"

definition alist_del :: "'k \<Rightarrow> ('k \<times> 'v) list \<Rightarrow> ('k \<times> 'v) list" where
  "alist_del k xs = filter (\<lambda>p. fst p \<noteq> k) xs"

lemma map_of_alist_put [simp]: "map_of (alist_put k v xs) = (map_of xs)(k \<mapsto> v)"
  by (induction k v xs rule: alist_put.induct) auto

lemma map_of_alist_del [simp]: "map_of (alist_del k xs) = (map_of xs)(k := None)"
  by (induction xs) (auto simp: alist_del_def fun_eq_iff)

lemma set_map_fst_alist_put [simp]: "fst ` set (alist_put k v xs) = insert k (fst ` set xs)"
  by (induction k v xs rule: alist_put.induct) auto

lemma distinct_alist_put [simp]:
  "distinct (map fst (alist_put k v xs)) = distinct (map fst xs)"
proof (induction k v xs rule: alist_put.induct)
  case (2 k v k' v' xs)
  then show ?case using set_map_fst_alist_put [of k v xs] by auto
qed simp

lemma distinct_alist_del: "distinct (map fst xs) \<Longrightarrow> distinct (map fst (alist_del k xs))"
  by (induction xs) (auto simp: alist_del_def)

lemma alist_put_fresh: "k \<notin> fst ` set xs \<Longrightarrow> alist_put k v xs = xs @ [(k, v)]"
  by (induction k v xs rule: alist_put.induct) auto

subsection \<open>Integer division\<close>

text \<open>Go's \<open>/\<close> on signed integers truncates towards zero.\<close>

definition go_div :: "int \<Rightarrow> int \<Rightarrow> int" where
  "go_div a b = sgn a * sgn b * (abs a div abs b)"

lemma go_div_mult: "b \<noteq> 0 \<Longrightarrow> go_div (a * b) b = a"
  by (simp add: go_div_def abs_mult sgn_mult mult.assoc [symmetric] sgn_mult_self_eq)
     (simp add: mult.commute [of "sgn b"] mult.assoc sgn_mult_abs sgn_mult_self_eq)

subsection \<open>Splitting lists\<close>

lemma takeWhile_append_stop:
  "(\<forall>x\<in>set xs. P x) \<Longrightarrow> (ys = [] \<or> \<not> P (hd ys)) \<Longrightarrow> takeWhile P (xs @ ys) = xs"
  by (induction xs; cases ys) auto

lemma dropWhile_append_stop:
  "(\<forall>x\<in>set xs. P x) \<Longrightarrow> (ys = [] \<or> \<not> P (hd ys)) \<Longrightarrow> dropWhile P (xs @ ys) = ys"
  by (induction xs; cases ys) auto

lemma fold_invariant_list:
  "I s \<Longrightarrow> (\<And>x s. x \<in> set xs \<Longrightarrow> I s \<Longrightarrow> I (f x s)) \<Longrightarrow> I (fold f xs s)"
  by (induction xs arbitrary: s) auto

end
