(* ===== verification/GoStrings.thy ===== *)
theory GoStrings
  imports Prelude
begin

text \<open>
  The parts of Go's \<open>strings\<close>, \<open>bytes\<close>, \<open>strconv\<close> and \<open>encoding/hex\<close> packages the
  program uses. A Go string is a sequence of bytes, and so is an Isabelle \<open>string\<close>
  (a list of 8-bit characters). Case mapping and trimming are those of the ASCII range,
  where Go's Unicode-aware functions agree with them.
\<close>

abbreviation byte :: "char \<Rightarrow> nat" where
  "byte c \<equiv> of_char c"

abbreviation mk_byte :: "nat \<Rightarrow> char" where
  "mk_byte n \<equiv> char_of n"

definition LF :: char where "LF = CHR 0x0A"
definition CR :: char where "CR = CHR 0x0D"
definition DQ :: char where "DQ = CHR 0x22"
definition BSL :: char where "BSL = CHR 0x5C"

lemmas special_chars = LF_def CR_def DQ_def BSL_def

subsection \<open>strings and bytes\<close>

fun has_prefix :: "string \<Rightarrow> string \<Rightarrow> bool" where
  "has_prefix s [] = True"
| "has_prefix [] (p # ps) = False"
| "has_prefix (c # cs) (p # ps) = (c = p \<and> has_prefix cs ps)"

fun contains :: "string \<Rightarrow> string \<Rightarrow> bool" where
  "contains [] p = (p = [])"
| "contains (c # cs) p = (has_prefix (c # cs) p \<or> contains cs p)"

text \<open>\<open>split_on c s\<close> is \<open>strings.Split\<close> (or \<open>bytes.Split\<close>) for a one-byte separator.\<close>

fun split_on :: "char \<Rightarrow> string \<Rightarrow> string list" where
  "split_on c [] = [[]]"
| "split_on c (x # xs) =
     (if x = c then [] # split_on c xs
      else (case split_on c xs of [] \<Rightarrow> [[x]] | y # ys \<Rightarrow> (x # y) # ys))"

text \<open>\<open>splitn2 c s\<close> is \<open>bytes.SplitN\<close> with limit 2: the part before the first separator
  and, if there is one, the part after it.\<close>

fun splitn2 :: "char \<Rightarrow> string \<Rightarrow> string \<times> string option" where
  "splitn2 c [] = ([], None)"
| "splitn2 c (x # xs) =
     (if x = c then ([], Some xs)
      else (case splitn2 c xs of (a, b) \<Rightarrow> (x # a, b)))"

text \<open>\<open>split_str sep s\<close> is \<open>strings.Split\<close> for a non-empty separator; \<open>cut_at\<close> finds its
  first occurrence.\<close>

fun cut_at :: "string \<Rightarrow> string \<Rightarrow> (string \<times> string) option" where
  "cut_at sep [] = (if sep = [] then Some ([], []) else None)"
| "cut_at sep (c # cs) =
     (if has_prefix (c # cs) sep then Some ([], drop (length sep) (c # cs))
      else map_option (\<lambda>(a, b). (c # a, b)) (cut_at sep cs))"

lemma cut_at_shorter: "cut_at sep s = Some (a, b) \<Longrightarrow> sep \<noteq> [] \<Longrightarrow> length b < length s"
  by (induction sep s arbitrary: a b rule: cut_at.induct) (auto split: if_splits)

function split_str :: "string \<Rightarrow> string \<Rightarrow> string list" where
  "split_str sep s =
     (if sep = [] then [s]
      else (case cut_at sep s of None \<Rightarrow> [s] | Some (a, b) \<Rightarrow> a # split_str sep b))"
  by pat_completeness auto
termination
  by (relation "measure (\<lambda>(sep, s). length s)") (auto dest: cut_at_shorter)

declare split_str.simps [simp del]

text \<open>\<open>replace_all old new s\<close> is \<open>strings.ReplaceAll\<close> for a non-empty \<open>old\<close>.\<close>

function replace_all :: "string \<Rightarrow> string \<Rightarrow> string \<Rightarrow> string" where
  "replace_all old new [] = []"
| "replace_all old new (c # cs) =
     (if old \<noteq> [] \<and> has_prefix (c # cs) old
      then new @ replace_all old new (drop (length old) (c # cs))
      else c # replace_all old new cs)"
  by pat_completeness auto
termination
  by (relation "measure (\<lambda>(old, new, s). length s)") auto

declare replace_all.simps(2) [simp del]

definition replace_char :: "char \<Rightarrow> string \<Rightarrow> string \<Rightarrow> string" where
  "replace_char c new s = concat (map (\<lambda>x. if x = c then new else [x]) s)"

text \<open>\<open>strings.LastIndex\<close> for a one-byte substring; \<open>None\<close> is the \<open>-1\<close> of the code.\<close>

fun last_index :: "char \<Rightarrow> string \<Rightarrow> nat option" where
  "last_index c [] = None"
| "last_index c (x # xs) =
     (case last_index c xs of
        Some i \<Rightarrow> Some (Suc i)
      | None \<Rightarrow> (if x = c then Some 0 else None))"

text \<open>An upper-case letter becomes a lower-case one by setting bit 5 (adding 32).\<close>

definition to_lower_char :: "char \<Rightarrow> char" where
  "to_lower_char c =
     (if 65 \<le> byte c \<and> byte c \<le> (90::nat)
      then Char (digit0 c) (digit1 c) (digit2 c) (digit3 c) (digit4 c) True (digit6 c) (digit7 c)
      else c)"

definition to_lower :: "string \<Rightarrow> string" where
  "to_lower s = map to_lower_char s"

definition equal_fold :: "string \<Rightarrow> string \<Rightarrow> bool" where
  "equal_fold a b = (to_lower a = to_lower b)"

definition is_space :: "char \<Rightarrow> bool" where
  "is_space c = (byte c = (32::nat) \<or> (9 \<le> byte c \<and> byte c \<le> (13::nat)))"

definition trim_space :: "string \<Rightarrow> string" where
  "trim_space s = rev (dropWhile is_space (rev (dropWhile is_space s)))"

definition trim_right_char :: "char \<Rightarrow> string \<Rightarrow> string" where
  "trim_right_char c s = rev (dropWhile (\<lambda>x. x = c) (rev s))"

text \<open>\<open>strings.Compare(a, b) < 0\<close>: the lexicographic order of the bytes.\<close>

fun str_less :: "string \<Rightarrow> string \<Rightarrow> bool" where
  "str_less [] [] = False"
| "str_less [] (y # ys) = True"
| "str_less (x # xs) [] = False"
| "str_less (x # xs) (y # ys) =
     (if byte x < (byte y :: nat) then True
      else if byte y < (byte x :: nat) then False
      else str_less xs ys)"

fun join_with :: "string \<Rightarrow> string list \<Rightarrow> string" where
  "join_with sep [] = []"
| "join_with sep [x] = x"
| "join_with sep (x # y # ys) = x @ sep @ join_with sep (y # ys)"

subsection \<open>strconv: decimal integers\<close>

definition digit_char :: "nat \<Rightarrow> char" where
  "digit_char d = mk_byte (48 + d)"

definition digit_val :: "char \<Rightarrow> nat option" where
  "digit_val c = (if 48 \<le> byte c \<and> byte c \<le> (57::nat) then Some (byte c - 48) else None)"

definition is_digit :: "char \<Rightarrow> bool" where
  "is_digit c = (48 \<le> byte c \<and> byte c \<le> (57::nat))"

fun nat_dec :: "nat \<Rightarrow> string" where
  "nat_dec n = (if n < 10 then [digit_char n] else nat_dec (n div 10) @ [digit_char (n mod 10)])"

declare nat_dec.simps [simp del]

fun dec_acc :: "nat \<Rightarrow> string \<Rightarrow> nat option" where
  "dec_acc n [] = Some n"
| "dec_acc n (c # cs) =
     (case digit_val c of None \<Rightarrow> None | Some d \<Rightarrow> dec_acc (10 * n + d) cs)"

definition parse_nat :: "string \<Rightarrow> nat option" where
  "parse_nat s = (if s = [] then None else dec_acc 0 s)"

text \<open>\<open>strconv.Itoa\<close> and \<open>%d\<close>.\<close>

definition int_dec :: "int \<Rightarrow> string" where
  "int_dec i = (if i < 0 then CHR ''-'' # nat_dec (nat (- i)) else nat_dec (nat i))"

text \<open>
  \<open>strconv.ParseInt(s, 10, 64)\<close> and \<open>strconv.Atoi\<close> (an \<open>int\<close> has 64 bits): the value and
  whether the error is nil. A syntax error gives 0, a number out of range the nearest
  representable one.
\<close>

definition int64_max :: int where "int64_max = 9223372036854775807"
definition int64_min :: int where "int64_min = -9223372036854775808"

definition clamp_int64 :: "int \<Rightarrow> int \<times> bool" where
  "clamp_int64 i =
     (if int64_max < i then (int64_max, False)
      else if i < int64_min then (int64_min, False) else (i, True))"

definition parse_int64 :: "string \<Rightarrow> int \<times> bool" where
  "parse_int64 s =
     (case s of
        [] \<Rightarrow> (0, False)
      | c # cs \<Rightarrow>
          (if c = CHR ''-'' then
             (case parse_nat cs of None \<Rightarrow> (0, False) | Some n \<Rightarrow> clamp_int64 (- int n))
           else if c = CHR ''+'' then
             (case parse_nat cs of None \<Rightarrow> (0, False) | Some n \<Rightarrow> clamp_int64 (int n))
           else
             (case parse_nat s of None \<Rightarrow> (0, False) | Some n \<Rightarrow> clamp_int64 (int n))))"

abbreviation Atoi :: "string \<Rightarrow> int \<times> bool" where
  "Atoi s \<equiv> parse_int64 s"

subsection \<open>encoding/hex\<close>

definition hex_char :: "nat \<Rightarrow> char" where
  "hex_char d = (if d < 10 then mk_byte (48 + d) else mk_byte (87 + d))"

fun hex_encode :: "nat list \<Rightarrow> string" where
  "hex_encode [] = []"
| "hex_encode (b # bs) = hex_char (b div 16) # hex_char (b mod 16) # hex_encode bs"

subsection \<open>Lemmas\<close>

lemma of_char_mk_byte [simp]: "n < 256 \<Longrightarrow> byte (mk_byte n) = n"
  by (simp add: of_char_of)

lemma byte_less_256 [simp]: "byte c < (256::nat)"
  by (metis mod_less_divisor of_char_mod_256 zero_less_numeral)

lemma mk_byte_inj: "m < 256 \<Longrightarrow> n < 256 \<Longrightarrow> mk_byte m = mk_byte n \<longleftrightarrow> m = n"
  by (metis of_char_mk_byte)

lemma digit_val_digit_char [simp]: "d < 10 \<Longrightarrow> digit_val (digit_char d) = Some d"
  by (simp add: digit_val_def digit_char_def)

lemma is_digit_digit_char [simp]: "d < 10 \<Longrightarrow> is_digit (digit_char d)"
  by (simp add: is_digit_def digit_char_def)

lemma digit_val_Some: "is_digit c \<longleftrightarrow> digit_val c \<noteq> None"
  by (simp add: is_digit_def digit_val_def)

lemma nat_dec_nonempty [simp]: "nat_dec n \<noteq> []"
  by (subst nat_dec.simps) simp

lemma dec_acc_append:
  "dec_acc n (xs @ ys) = (case dec_acc n xs of None \<Rightarrow> None | Some m \<Rightarrow> dec_acc m ys)"
  by (induction n xs rule: dec_acc.induct) (auto split: option.splits)

lemma dec_acc_nat_dec: "dec_acc 0 (nat_dec n) = Some n"
proof (induction n rule: nat_dec.induct)
  case (1 n)
  show ?case
  proof (cases "n < 10")
    case True
    then show ?thesis by (simp add: nat_dec.simps [of n])
  next
    case False
    with "1.IH" have "dec_acc 0 (nat_dec (n div 10)) = Some (n div 10)" by simp
    with False show ?thesis by (simp add: nat_dec.simps [of n] dec_acc_append)
  qed
qed

lemma parse_nat_nat_dec [simp]: "parse_nat (nat_dec n) = Some n"
  by (simp add: parse_nat_def dec_acc_nat_dec)

lemma nat_dec_digits: "\<forall>c\<in>set (nat_dec n). is_digit c"
proof (induction n rule: nat_dec.induct)
  case (1 n)
  show ?case
  proof (cases "n < 10")
    case True
    then show ?thesis by (simp add: nat_dec.simps [of n])
  next
    case False
    with "1.IH" show ?thesis by (auto simp: nat_dec.simps [of n])
  qed
qed

lemma nat_dec_hd_digit: "is_digit (hd (nat_dec n))"
  using nat_dec_digits [of n] nat_dec_nonempty [of n] by (metis list.set_sel(1))

lemma nat_dec_inj: "nat_dec m = nat_dec n \<longleftrightarrow> m = n"
  by (metis option.inject parse_nat_nat_dec)

lemma parse_nat_Cons_minus: "parse_nat (CHR ''-'' # cs) = None"
  by (simp add: parse_nat_def digit_val_def)

lemma parse_int64_int_dec [simp]:
  assumes "int64_min \<le> i" and "i \<le> int64_max"
  shows "parse_int64 (int_dec i) = (i, True)"
proof (cases "i < 0")
  case True
  with assms show ?thesis
    by (simp add: parse_int64_def int_dec_def clamp_int64_def)
next
  case False
  obtain c cs where cs: "nat_dec (nat i) = c # cs"
    using nat_dec_nonempty by (metis list.exhaust)
  have "is_digit c" using nat_dec_hd_digit [of "nat i"] cs by simp
  then have "c \<noteq> CHR ''-''" "c \<noteq> CHR ''+''" by (auto simp: is_digit_def)
  have "parse_nat (c # cs) = Some (nat i)" using parse_nat_nat_dec [of "nat i"] cs by simp
  with False assms cs \<open>c \<noteq> CHR ''-''\<close> \<open>c \<noteq> CHR ''+''\<close> show ?thesis
    by (simp add: parse_int64_def int_dec_def clamp_int64_def)
qed

lemma hex_char_inj: "m < 16 \<Longrightarrow> n < 16 \<Longrightarrow> hex_char m = hex_char n \<longleftrightarrow> m = n"
  by (auto simp: hex_char_def mk_byte_inj)

lemma hex_encode_inj:
  "\<forall>b\<in>set xs. b < 256 \<Longrightarrow> \<forall>b\<in>set ys. b < 256 \<Longrightarrow> hex_encode xs = hex_encode ys \<Longrightarrow> xs = ys"
proof (induction xs arbitrary: ys)
  case Nil
  then show ?case by (cases ys) auto
next
  case (Cons x xs)
  then obtain y ys' where ys: "ys = y # ys'" by (cases ys) auto
  have "x div 16 < 16" "y div 16 < 16" using Cons.prems ys by auto
  then have "x div 16 = y div 16" "x mod 16 = y mod 16"
    using Cons.prems ys by (simp_all add: hex_char_inj)
  then have "x = y" by (metis div_mult_mod_eq)
  moreover have "xs = ys'" using Cons.prems ys by (intro Cons.IH) auto
  ultimately show ?case using ys by simp
qed

lemma length_hex_encode: "length (hex_encode bs) = 2 * length bs"
  by (induction bs) auto

lemma has_prefix_append [simp]: "has_prefix (p @ s) p"
  by (induction p) auto

lemma has_prefix_iff: "has_prefix s p \<longleftrightarrow> (\<exists>r. s = p @ r)"
  by (induction s p rule: has_prefix.induct) auto

lemma contains_iff: "contains s p \<longleftrightarrow> (\<exists>a b. s = a @ p @ b)"
proof (induction s p rule: contains.induct)
  case (1 p)
  then show ?case by auto
next
  case (2 c cs p)
  show ?case
  proof
    assume "contains (c # cs) p"
    then consider "has_prefix (c # cs) p" | "contains cs p" by auto
    then show "\<exists>a b. c # cs = a @ p @ b"
    proof cases
      case 1
      then show ?thesis by (metis append_Nil has_prefix_iff)
    next
      case 2
      then show ?thesis using "2.IH" by (metis append_Cons)
    qed
  next
    assume "\<exists>a b. c # cs = a @ p @ b"
    then obtain a b where ab: "c # cs = a @ p @ b" by blast
    show "contains (c # cs) p"
    proof (cases a)
      case Nil
      with ab show ?thesis by (metis append_Nil contains.simps(2) has_prefix_append)
    next
      case (Cons x a')
      with ab have "cs = a' @ p @ b" by simp
      then have "contains cs p" using "2.IH" by blast
      then show ?thesis by simp
    qed
  qed
qed

lemma split_on_nonempty [simp]: "split_on c s \<noteq> []"
  by (induction s) (auto split: list.splits)

lemma split_on_no_sep: "c \<notin> set s \<Longrightarrow> split_on c s = [s]"
  by (induction s) auto

lemma split_on_append:
  "c \<notin> set a \<Longrightarrow> split_on c (a @ c # s) = a # split_on c s"
  by (induction a) auto

lemma join_split_on: "join_with [c] (split_on c s) = s"
proof (induction c s rule: split_on.induct)
  case (1 c)
  then show ?case by simp
next
  case (2 c x xs)
  then show ?case by (cases "split_on c xs"; cases "tl (split_on c xs)") auto
qed

lemma split_on_parts: "p \<in> set (split_on c s) \<Longrightarrow> c \<notin> set p"
  by (induction c s arbitrary: p rule: split_on.induct) (auto split: list.splits if_splits)

lemma split_on_parts_subset: "p \<in> set (split_on c s) \<Longrightarrow> set p \<subseteq> set s"
  by (induction c s arbitrary: p rule: split_on.induct) (fastforce split: list.splits if_splits)+

lemma splitn2_append: "c \<notin> set a \<Longrightarrow> splitn2 c (a @ c # s) = (a, Some s)"
  by (induction a) auto

lemma splitn2_no_sep: "c \<notin> set s \<Longrightarrow> splitn2 c s = (s, None)"
  by (induction s) auto

lemma replace_all_absent:
  "old \<noteq> [] \<Longrightarrow> \<not> contains s old \<Longrightarrow> replace_all old new s = s"
  by (induction s) (auto simp: replace_all.simps(2))

lemma to_lower_Nil [simp]: "to_lower [] = []"
  by (simp add: to_lower_def)

lemma to_lower_char_byte:
  "65 \<le> byte c \<Longrightarrow> byte c \<le> (90::nat) \<Longrightarrow> byte (to_lower_char c) = byte c + (32::nat)"
proof -
  assume lo: "65 \<le> byte c" and hi: "byte c \<le> (90::nat)"
  obtain b0 b1 b2 b3 b4 b5 b6 b7 where c: "c = Char b0 b1 b2 b3 b4 b5 b6 b7" by (cases c)
  have "\<not> b7" using hi c by (cases b7) simp_all
  moreover from this have b6: "b6" using lo c
    by (cases b6; cases b5; cases b4; cases b3; cases b2; cases b1; cases b0) simp_all
  moreover from this have "\<not> b5" using hi c by (cases b5) simp_all
  ultimately show ?thesis using lo hi c by (simp add: to_lower_char_def)
qed

lemma to_lower_char_idem [simp]: "to_lower_char (to_lower_char c) = to_lower_char c"
proof (cases "65 \<le> byte c \<and> byte c \<le> (90::nat)")
  case True
  then have "byte (to_lower_char c) = byte c + (32::nat)" by (simp add: to_lower_char_byte)
  with True show ?thesis by (simp add: to_lower_char_def [of "to_lower_char c"])
next
  case False
  then have "to_lower_char c = c" by (auto simp: to_lower_char_def)
  then show ?thesis by simp
qed

lemmas fold_eval = equal_fold_def to_lower_def to_lower_char_def

lemma to_lower_idem [simp]: "to_lower (to_lower s) = to_lower s"
  by (simp add: to_lower_def)

lemma equal_fold_refl [simp]: "equal_fold s s"
  by (simp add: equal_fold_def)

lemma str_less_irrefl [simp]: "\<not> str_less s s"
  by (induction s) auto

lemma str_less_trans: "str_less a b \<Longrightarrow> str_less b c \<Longrightarrow> str_less a c"
proof (induction a b arbitrary: c rule: str_less.induct)
  case (4 x xs y ys)
  then show ?case by (cases c) (auto split: if_splits)
qed (auto elim: str_less.elims)

end
