(* ===== verification/Json.thy ===== *)
theory Json
  imports GoStrings
begin

text \<open>
  What the program uses of Go's \<open>encoding/json\<close>: the text form of a value
  (\<open>json_print\<close>, the compact form \<open>json.Marshal\<close> writes), the reader of that text
  (\<open>json_parse\<close>, the validity check and the scanner of \<open>json.Unmarshal\<close>), and the
  decoding of a value into a typed Go variable, field by field, with the error that
  \<open>json.Unmarshal\<close> reports at its end. The main result is that printing and parsing
  round-trip.

  Numbers keep their literal text. Strings are byte sequences taken to be valid UTF-8:
  the replacement of invalid sequences by U+FFFD is not modelled, and neither is the
  nesting limit of 10000.
\<close>

datatype json =
    JNull
  | JBool bool
  | JNum string
  | JStr string
  | JArr "json list"
  | JObj "(string \<times> json) list"

subsection \<open>Printing\<close>

definition hex_val :: "char \<Rightarrow> nat option" where
  "hex_val c =
     (let b = byte c in
      if 48 \<le> b \<and> b \<le> (57::nat) then Some (b - 48)
      else if 97 \<le> b \<and> b \<le> (102::nat) then Some (b - 87)
      else if 65 \<le> b \<and> b \<le> (70::nat) then Some (b - 55)
      else None)"

definition esc_u :: "char \<Rightarrow> string" where
  "esc_u c = [BSL, CHR ''u'', CHR ''0'', CHR ''0'', hex_char (byte c div 16), hex_char (byte c mod 16)]"

definition esc_char :: "char \<Rightarrow> string" where
  "esc_char c =
     (if c = DQ then [BSL, DQ]
      else if c = BSL then [BSL, BSL]
      else if c = LF then [BSL, CHR ''n'']
      else if c = CR then [BSL, CHR ''r'']
      else if c = CHR 0x09 then [BSL, CHR ''t'']
      else if c = CHR 0x08 then [BSL, CHR ''b'']
      else if c = CHR 0x0C then [BSL, CHR ''f'']
      else if byte c < (32::nat) \<or> c = CHR ''<'' \<or> c = CHR ''>'' \<or> c = CHR ''&'' then esc_u c
      else [c])"

definition quote_str :: "string \<Rightarrow> string" where
  "quote_str s = DQ # concat (map esc_char s) @ [DQ]"

fun json_print :: "json \<Rightarrow> string"
  and print_elems :: "json list \<Rightarrow> string"
  and print_members :: "(string \<times> json) list \<Rightarrow> string" where
  "json_print JNull = ''null''"
| "json_print (JBool b) = (if b then ''true'' else ''false'')"
| "json_print (JNum n) = n"
| "json_print (JStr s) = quote_str s"
| "json_print (JArr vs) = CHR ''['' # print_elems vs @ '']''"
| "json_print (JObj ms) = CHR ''{'' # print_members ms @ ''}''"
| "print_elems [] = []"
| "print_elems (v # vs) = json_print v @ (if vs = [] then [] else CHR '','' # print_elems vs)"
| "print_members [] = []"
| "print_members ((k, v) # ms) =
     quote_str k @ CHR '':'' # json_print v @ (if ms = [] then [] else CHR '','' # print_members ms)"

subsection \<open>Parsing\<close>

definition is_ws :: "char \<Rightarrow> bool" where
  "is_ws c = (c = CHR '' '' \<or> c = CHR 0x09 \<or> c = LF \<or> c = CR)"

abbreviation skip_ws :: "string \<Rightarrow> string" where
  "skip_ws s \<equiv> dropWhile is_ws s"

definition utf8 :: "nat \<Rightarrow> string" where
  "utf8 n =
     (if n < 128 then [mk_byte n]
      else if n < 2048 then [mk_byte (192 + n div 64), mk_byte (128 + n mod 64)]
      else if n < 65536 then
        [mk_byte (224 + n div 4096), mk_byte (128 + (n div 64) mod 64), mk_byte (128 + n mod 64)]
      else
        [mk_byte (240 + n div 262144), mk_byte (128 + (n div 4096) mod 64),
         mk_byte (128 + (n div 64) mod 64), mk_byte (128 + n mod 64)])"

definition hex4 :: "char \<Rightarrow> char \<Rightarrow> char \<Rightarrow> char \<Rightarrow> nat option" where
  "hex4 a b c d =
     (case hex_val a of None \<Rightarrow> None | Some x \<Rightarrow>
      (case hex_val b of None \<Rightarrow> None | Some y \<Rightarrow>
       (case hex_val c of None \<Rightarrow> None | Some z \<Rightarrow>
        (case hex_val d of None \<Rightarrow> None | Some w \<Rightarrow> Some (4096 * x + 256 * y + 16 * z + w)))))"

text \<open>The low half of a surrogate pair, when the text goes on with one.\<close>

definition low_surrogate :: "string \<Rightarrow> (nat \<times> string) option" where
  "low_surrogate s =
     (case s of
        e # u # a # b # c # d # r \<Rightarrow>
          (if e = BSL \<and> u = CHR ''u'' then
             (case hex4 a b c d of
                None \<Rightarrow> None
              | Some n \<Rightarrow> if 56320 \<le> n \<and> n < 57344 then Some (n, r) else None)
           else None)
      | _ \<Rightarrow> None)"

definition simple_escape :: "char \<Rightarrow> char option" where
  "simple_escape e =
     (if e = DQ \<or> e = BSL \<or> e = CHR ''/'' then Some e
      else if e = CHR ''n'' then Some LF
      else if e = CHR ''r'' then Some CR
      else if e = CHR ''t'' then Some (CHR 0x09)
      else if e = CHR ''b'' then Some (CHR 0x08)
      else if e = CHR ''f'' then Some (CHR 0x0C)
      else None)"

text \<open>One step inside a string literal: the bytes it stands for and the text after it.\<close>

definition str_item :: "string \<Rightarrow> (string \<times> string) option" where
  "str_item s =
     (case s of
        [] \<Rightarrow> None
      | c # cs \<Rightarrow>
          (if c = BSL then
             (case cs of
                [] \<Rightarrow> None
              | e # r \<Rightarrow>
                  (if e = CHR ''u'' then
                     (case r of
                        a # b # c' # d # r' \<Rightarrow>
                          (case hex4 a b c' d of
                             None \<Rightarrow> None
                           | Some n \<Rightarrow>
                               (if 55296 \<le> n \<and> n < 57344 then
                                  (if n < 56320 then
                                     (case low_surrogate r' of
                                        Some (m, r'') \<Rightarrow>
                                          Some (utf8 (65536 + (n - 55296) * 1024 + (m - 56320)), r'')
                                      | None \<Rightarrow> Some (utf8 65533, r'))
                                   else Some (utf8 65533, r'))
                                else Some (utf8 n, r')))
                      | _ \<Rightarrow> None)
                   else map_option (\<lambda>x. ([x], r)) (simple_escape e)))
           else if byte c < (32::nat) then None
           else Some ([c], cs)))"

lemma low_surrogate_shorter: "low_surrogate s = Some (m, r) \<Longrightarrow> length r < length s"
  by (auto simp: low_surrogate_def split: list.splits if_splits option.splits)

lemma str_item_shorter: "str_item s = Some (x, r) \<Longrightarrow> length r < length s"
  by (auto simp: str_item_def split: list.splits if_splits option.splits
      dest!: low_surrogate_shorter)

function parse_str :: "string \<Rightarrow> (string \<times> string) option" where
  "parse_str s =
     (case s of
        [] \<Rightarrow> None
      | c # cs \<Rightarrow>
          (if c = DQ then Some ([], cs)
           else (case str_item s of
                   None \<Rightarrow> None
                 | Some (x, r) \<Rightarrow>
                     (case parse_str r of
                        None \<Rightarrow> None
                      | Some (xs, r') \<Rightarrow> Some (x @ xs, r')))))"
  by pat_completeness auto
termination
  by (relation "measure length") (auto dest: str_item_shorter)

declare parse_str.simps [simp del]

text \<open>A number literal: \<open>-?(0|[1-9][0-9]*)(.[0-9]+)?([eE][+-]?[0-9]+)?\<close>, as long as possible.\<close>

definition num_digits :: "string \<Rightarrow> (string \<times> string) option" where
  "num_digits s =
     (let d = takeWhile is_digit s in if d = [] then None else Some (d, dropWhile is_digit s))"

definition num_int :: "string \<Rightarrow> (string \<times> string) option" where
  "num_int s = (case s of c # cs \<Rightarrow> if c = CHR ''0'' then Some ([c], cs) else num_digits s | [] \<Rightarrow> None)"

definition num_frac :: "string \<Rightarrow> (string \<times> string) option" where
  "num_frac s =
     (case s of
        c # cs \<Rightarrow> (if c = CHR ''.'' then map_option (\<lambda>(d, r). (c # d, r)) (num_digits cs) else Some ([], s))
      | [] \<Rightarrow> Some ([], s))"

definition num_exp :: "string \<Rightarrow> (string \<times> string) option" where
  "num_exp s =
     (case s of
        c # cs \<Rightarrow>
          (if c = CHR ''e'' \<or> c = CHR ''E'' then
             (case cs of
                g # r \<Rightarrow>
                  (if g = CHR ''+'' \<or> g = CHR ''-'' then map_option (\<lambda>(d, r'). (c # g # d, r')) (num_digits r)
                   else map_option (\<lambda>(d, r'). (c # d, r')) (num_digits cs))
              | [] \<Rightarrow> None)
           else Some ([], s))
      | [] \<Rightarrow> Some ([], s))"

definition parse_unsigned :: "string \<Rightarrow> (string \<times> string) option" where
  "parse_unsigned s =
     (case num_int s of None \<Rightarrow> None | Some (a, r) \<Rightarrow>
      (case num_frac r of None \<Rightarrow> None | Some (b, r') \<Rightarrow>
       (case num_exp r' of None \<Rightarrow> None | Some (c, r'') \<Rightarrow> Some (a @ b @ c, r''))))"

definition parse_num :: "string \<Rightarrow> (string \<times> string) option" where
  "parse_num s =
     (case s of
        c # cs \<Rightarrow> (if c = CHR ''-'' then map_option (\<lambda>(n, r). (c # n, r)) (parse_unsigned cs)
                   else parse_unsigned s)
      | [] \<Rightarrow> None)"

text \<open>
  The values. The first argument bounds the nesting of calls; \<open>json_parse\<close> gives twice
  the length of the text, which the round-trip theorem shows to be enough.
\<close>

fun parse_val :: "nat \<Rightarrow> string \<Rightarrow> (json \<times> string) option"
  and parse_elems :: "nat \<Rightarrow> string \<Rightarrow> (json list \<times> string) option"
  and parse_members :: "nat \<Rightarrow> string \<Rightarrow> ((string \<times> json) list \<times> string) option" where
  "parse_val 0 s = None"
| "parse_val (Suc f) s =
     (case skip_ws s of
        [] \<Rightarrow> None
      | c # cs \<Rightarrow>
          (if c = DQ then map_option (\<lambda>(x, r). (JStr x, r)) (parse_str cs)
           else if c = CHR ''['' then
             (case skip_ws cs of
                [] \<Rightarrow> None
              | d # ds \<Rightarrow> (if d = CHR '']'' then Some (JArr [], ds)
                           else map_option (\<lambda>(x, r). (JArr x, r)) (parse_elems f (d # ds))))
           else if c = CHR ''{'' then
             (case skip_ws cs of
                [] \<Rightarrow> None
              | d # ds \<Rightarrow> (if d = CHR ''}'' then Some (JObj [], ds)
                           else map_option (\<lambda>(x, r). (JObj x, r)) (parse_members f (d # ds))))
           else if has_prefix (c # cs) ''null'' then Some (JNull, drop 4 (c # cs))
           else if has_prefix (c # cs) ''true'' then Some (JBool True, drop 4 (c # cs))
           else if has_prefix (c # cs) ''false'' then Some (JBool False, drop 5 (c # cs))
           else map_option (\<lambda>(x, r). (JNum x, r)) (parse_num (c # cs))))"
| "parse_elems 0 s = None"
| "parse_elems (Suc f) s =
     (case parse_val f s of
        None \<Rightarrow> None
      | Some (v, r) \<Rightarrow>
          (case skip_ws r of
             [] \<Rightarrow> None
           | c # cs \<Rightarrow>
               (if c = CHR '','' then map_option (\<lambda>(vs, r'). (v # vs, r')) (parse_elems f cs)
                else if c = CHR '']'' then Some ([v], cs)
                else None)))"
| "parse_members 0 s = None"
| "parse_members (Suc f) s =
     (case skip_ws s of
        [] \<Rightarrow> None
      | q # qs \<Rightarrow>
          (if q \<noteq> DQ then None
           else (case parse_str qs of
                   None \<Rightarrow> None
                 | Some (k, r) \<Rightarrow>
                     (case skip_ws r of
                        [] \<Rightarrow> None
                      | c # cs \<Rightarrow>
                          (if c \<noteq> CHR '':'' then None
                           else (case parse_val f cs of
                                   None \<Rightarrow> None
                                 | Some (v, r') \<Rightarrow>
                                     (case skip_ws r' of
                                        [] \<Rightarrow> None
                                      | e # es \<Rightarrow>
                                          (if e = CHR '','' then
                                             map_option (\<lambda>(ms, r''). ((k, v) # ms, r'')) (parse_members f es)
                                           else if e = CHR ''}'' then Some ([(k, v)], es)
                                           else None))))))))"

definition json_parse :: "string \<Rightarrow> json option" where
  "json_parse s =
     (case parse_val (Suc (2 * length s)) s of
        None \<Rightarrow> None
      | Some (v, r) \<Rightarrow> (if skip_ws r = [] then Some v else None))"

subsection \<open>Round trip\<close>

text \<open>A number literal is one that is read to its end.\<close>

definition canon_digits :: "string \<Rightarrow> bool" where
  "canon_digits d = (d \<noteq> [] \<and> list_all is_digit d \<and> (hd d = CHR ''0'' \<longrightarrow> d = ''0''))"

definition num_lit :: "string \<Rightarrow> bool" where
  "num_lit n = (parse_num n = Some (n, []))"

fun json_ok :: "json \<Rightarrow> bool" where
  "json_ok (JNum n) = num_lit n"
| "json_ok (JArr vs) = list_all json_ok vs"
| "json_ok (JObj ms) = list_all (\<lambda>m. json_ok (snd m)) ms"
| "json_ok _ = True"

lemma hex_val_hex_char [simp]: "d < 16 \<Longrightarrow> hex_val (hex_char d) = Some d"
  by (auto simp: hex_val_def hex_char_def Let_def)

lemma hex_val_0 [simp]: "hex_val (CHR ''0'') = Some 0"
  by (simp add: hex_val_def)

lemma hex4_small:
  "n < 256 \<Longrightarrow> hex4 (CHR ''0'') (CHR ''0'') (hex_char (n div 16)) (hex_char (n mod 16)) = Some n"
proof -
  assume "n < 256"
  then have "n div 16 < 16" by auto
  then show ?thesis by (simp add: hex4_def)
qed

lemma byte_mono_chars: "byte c < (32::nat) \<or> c = CHR ''<'' \<or> c = CHR ''>'' \<or> c = CHR ''&'' \<Longrightarrow> byte c < (128::nat)"
  by auto

lemma str_item_esc_u:
  assumes "byte c < (128::nat)"
  shows "str_item (esc_u c @ r) = Some ([c], r)"
  using assms by (simp add: str_item_def esc_u_def hex4_small utf8_def special_chars)

lemma parse_str_item:
  "s \<noteq> [] \<Longrightarrow> hd s \<noteq> DQ \<Longrightarrow> str_item s = Some (x, r) \<Longrightarrow>
   parse_str s = (case parse_str r of None \<Rightarrow> None | Some (xs, r') \<Rightarrow> Some (x @ xs, r'))"
  by (cases s) (simp, subst parse_str.simps, simp)

lemma str_item_esc_char: "str_item (esc_char c @ r) = Some ([c], r)"
proof (cases "byte c < (32::nat) \<or> c = CHR ''<'' \<or> c = CHR ''>'' \<or> c = CHR ''&''")
  case True
  then have "str_item (esc_u c @ r) = Some ([c], r)"
    by (intro str_item_esc_u byte_mono_chars)
  then show ?thesis
    by (auto simp: esc_char_def str_item_def simple_escape_def special_chars)
next
  case False
  then show ?thesis
    by (auto simp: esc_char_def str_item_def simple_escape_def special_chars)
qed

lemma esc_char_hd: "esc_char c \<noteq> [] \<and> hd (esc_char c) \<noteq> DQ"
  by (auto simp: esc_char_def esc_u_def special_chars)

lemma parse_str_esc_char:
  "parse_str (esc_char c @ s) =
     (case parse_str s of None \<Rightarrow> None | Some (xs, r) \<Rightarrow> Some (c # xs, r))"
  using parse_str_item [of "esc_char c @ s" "[c]" s] esc_char_hd [of c]
  by (simp add: str_item_esc_char split: option.splits prod.splits)

lemma parse_str_quote: "parse_str (concat (map esc_char s) @ DQ # r) = Some (s, r)"
proof (induction s)
  case Nil
  show ?case by (simp add: parse_str.simps [of "DQ # r"])
next
  case (Cons c s)
  then show ?case by (simp add: parse_str_esc_char)
qed

text \<open>The text that may follow a value: nothing that goes on with a number.\<close>

definition val_end :: "string \<Rightarrow> bool" where
  "val_end r = (r = [] \<or> \<not> is_digit (hd r) \<and> hd r \<noteq> CHR ''.'' \<and> hd r \<noteq> CHR ''e'' \<and> hd r \<noteq> CHR ''E'')"

lemma val_end_not_digit: "val_end r \<Longrightarrow> r = [] \<or> \<not> is_digit (hd r)"
  by (auto simp: val_end_def)

lemma num_digits_append:
  "d \<noteq> [] \<Longrightarrow> list_all is_digit d \<Longrightarrow> r = [] \<or> \<not> is_digit (hd r) \<Longrightarrow> num_digits (d @ r) = Some (d, r)"
  using takeWhile_append_stop [of d is_digit r] dropWhile_append_stop [of d is_digit r]
  by (simp add: num_digits_def list_all_iff del: takeWhile_append dropWhile_append)

text \<open>The number parsers leave what follows the number alone.\<close>

lemma num_digits_more:
  assumes "num_digits s = Some (d, t)" and "val_end r"
  shows "num_digits (s @ r) = Some (d, t @ r)"
proof -
  have d: "d = takeWhile is_digit s" "t = dropWhile is_digit s" "d \<noteq> []"
    using assms(1) by (simp_all add: num_digits_def Let_def split: if_splits)
  have s: "s = d @ t" unfolding d(1,2) by simp
  have all: "list_all is_digit d" unfolding d(1) list_all_iff by (blast dest: set_takeWhileD)
  have "t @ r = [] \<or> \<not> is_digit (hd (t @ r))"
  proof (cases t)
    case Nil
    with val_end_not_digit [OF assms(2)] show ?thesis by simp
  next
    case (Cons c cs)
    then have "dropWhile is_digit s \<noteq> []" unfolding d(2) by simp
    then have "\<not> is_digit (hd t)" unfolding d(2) by (rule hd_dropWhile)
    with Cons show ?thesis by simp
  qed
  from num_digits_append [OF d(3) all this] show ?thesis unfolding s append_assoc .
qed

lemma num_int_more:
  assumes "num_int s = Some (d, t)" and r: "val_end r"
  shows "num_int (s @ r) = Some (d, t @ r)"
proof (cases s)
  case (Cons c cs)
  with assms num_digits_more [OF _ r, of "c # cs"] show ?thesis by (auto simp: num_int_def split: if_splits)
qed (use assms in \<open>simp add: num_int_def\<close>)

lemma num_frac_more:
  assumes "num_frac s = Some (d, t)" and r: "val_end r"
  shows "num_frac (s @ r) = Some (d, t @ r)"
proof (cases s)
  case Nil
  with assms show ?thesis by (auto simp: num_frac_def val_end_def split: list.splits)
next
  case (Cons c cs)
  with assms num_digits_more [OF _ r, of cs] show ?thesis by (auto simp: num_frac_def split: if_splits)
qed

lemma num_exp_more:
  assumes "num_exp s = Some (d, t)" and r: "val_end r"
  shows "num_exp (s @ r) = Some (d, t @ r)"
proof (cases s)
  case Nil
  with assms show ?thesis by (auto simp: num_exp_def val_end_def split: list.splits)
next
  case (Cons c cs)
  show ?thesis
  proof (cases cs)
    case Nil
    with assms Cons show ?thesis by (auto simp: num_exp_def split: if_splits)
  next
    case (Cons g gs)
    with assms \<open>s = c # cs\<close> num_digits_more [OF _ r, of gs] num_digits_more [OF _ r, of "g # gs"] show ?thesis
      by (auto simp: num_exp_def split: if_splits)
  qed
qed

lemma parse_unsigned_more:
  "parse_unsigned s = Some (n, t) \<Longrightarrow> val_end r \<Longrightarrow> parse_unsigned (s @ r) = Some (n, t @ r)"
  by (auto simp: parse_unsigned_def num_int_more num_frac_more num_exp_more split: option.splits prod.splits)

lemma parse_num_append:
  assumes "num_lit n" and "val_end r"
  shows "parse_num (n @ r) = Some (n, r)"
proof (cases n)
  case Nil
  with assms(1) show ?thesis by (simp add: num_lit_def parse_num_def)
next
  case (Cons c cs)
  with assms(1) parse_unsigned_more [OF _ assms(2), of cs cs "[]"]
    parse_unsigned_more [OF _ assms(2), of "c # cs" "c # cs" "[]"] show ?thesis
    by (auto simp: num_lit_def parse_num_def split: if_splits)
qed

lemma parse_unsigned_hd: "parse_unsigned s = Some (n, t) \<Longrightarrow> s \<noteq> [] \<and> is_digit (hd s)"
  by (cases s)
     (auto simp: parse_unsigned_def num_int_def num_digits_def is_digit_def Let_def split: option.splits prod.splits if_splits)

lemma num_lit_hd:
  "num_lit n \<Longrightarrow> n \<noteq> [] \<and> (hd n = CHR ''-'' \<or> is_digit (hd n))"
  by (auto simp: num_lit_def parse_num_def split: list.splits if_splits dest: parse_unsigned_hd)

lemma canon_digits_hd: "canon_digits d \<Longrightarrow> d \<noteq> [] \<and> is_digit (hd d)"
  by (cases d) (auto simp: canon_digits_def)

text \<open>The literals the programs write: digits, with a fraction and an exponent.\<close>

lemma num_int_canon: "canon_digits a \<Longrightarrow> r = [] \<or> \<not> is_digit (hd r) \<Longrightarrow> num_int (a @ r) = Some (a, r)"
  using num_digits_append [of a r] by (cases a) (auto simp: num_int_def canon_digits_def)

definition frac_part :: "string \<Rightarrow> bool" where
  "frac_part b \<longleftrightarrow> b = [] \<or> (\<exists>d. b = CHR ''.'' # d \<and> d \<noteq> [] \<and> list_all is_digit d)"

definition exp_part :: "string \<Rightarrow> bool" where
  "exp_part c \<longleftrightarrow> c = [] \<or> (\<exists>g d. c = CHR ''e'' # g # d \<and> (g = CHR ''+'' \<or> g = CHR ''-'') \<and> d \<noteq> [] \<and> list_all is_digit d)"

lemma parse_unsigned_parts:
  assumes "canon_digits a" and "frac_part b" and "exp_part c"
  shows "parse_unsigned (a @ b @ c) = Some (a @ b @ c, [])"
proof -
  have c: "c = [] \<or> \<not> is_digit (hd c)" using assms(3) by (auto simp: exp_part_def is_digit_def digit_val_def)
  have bc: "b @ c = [] \<or> \<not> is_digit (hd (b @ c))"
    using assms(2) c by (auto simp: frac_part_def is_digit_def digit_val_def)
  have "num_frac (b @ c) = Some (b, c)"
  proof (cases "b = []")
    case True
    with assms(3) show ?thesis by (auto simp: num_frac_def exp_part_def)
  next
    case False
    with assms(2) obtain d where d: "b = CHR ''.'' # d" "d \<noteq> []" "list_all is_digit d" by (auto simp: frac_part_def)
    with num_digits_append [OF d(2,3) c] show ?thesis by (simp add: num_frac_def)
  qed
  moreover have "num_exp c = Some (c, [])"
  proof (cases "c = []")
    case False
    with assms(3) obtain g d where d: "c = CHR ''e'' # g # d" "g = CHR ''+'' \<or> g = CHR ''-''" "d \<noteq> []" "list_all is_digit d"
      by (auto simp: exp_part_def)
    with num_digits_append [OF d(3,4), of "[]"] show ?thesis by (auto simp: num_exp_def)
  qed (simp add: num_exp_def)
  ultimately show ?thesis using num_int_canon [OF assms(1) bc] by (simp add: parse_unsigned_def)
qed

lemma num_lit_parts:
  assumes "canon_digits a" and "frac_part b" and "exp_part c"
  shows "num_lit (a @ b @ c)" "num_lit (CHR ''-'' # a @ b @ c)"
proof -
  obtain x xs where a: "a = x # xs" using assms(1) by (cases a) (auto simp: canon_digits_def)
  have "x \<noteq> CHR ''-''" using canon_digits_hd [OF assms(1)] a by (auto simp: is_digit_def digit_val_def)
  with parse_unsigned_parts [OF assms] a show "num_lit (a @ b @ c)" "num_lit (CHR ''-'' # a @ b @ c)"
    by (simp_all add: num_lit_def parse_num_def)
qed

text \<open>The first byte of a number: no byte that starts another kind of value or ends one.\<close>

definition num_start :: "char \<Rightarrow> bool" where
  "num_start c \<longleftrightarrow> \<not> is_ws c \<and> c \<noteq> DQ \<and> c \<noteq> CHR ''['' \<and> c \<noteq> CHR ''{''
     \<and> c \<noteq> CHR ''n'' \<and> c \<noteq> CHR ''t'' \<and> c \<noteq> CHR ''f'' \<and> c \<noteq> CHR '']'' \<and> c \<noteq> CHR ''}''"

lemma num_start_digit: "is_digit c \<Longrightarrow> num_start c"
  unfolding num_start_def is_digit_def is_ws_def special_chars
  by (intro conjI notI; (elim disjE)?; simp)

lemma num_start_minus: "num_start (CHR ''-'')"
  by (simp add: num_start_def is_ws_def special_chars)

lemma num_lit_first: "num_lit n \<Longrightarrow> \<exists>c cs. n = c # cs \<and> num_start c"
  using num_lit_hd [of n] by (cases n) (auto intro: num_start_digit num_start_minus)

lemma json_print_first:
  "json_ok v \<Longrightarrow> \<exists>c cs. json_print v = c # cs \<and> \<not> is_ws c \<and> c \<noteq> CHR '']'' \<and> c \<noteq> CHR ''}''"
proof (cases v)
  case (JNum n)
  moreover assume "json_ok v"
  ultimately show ?thesis using num_lit_first [of n] by (auto simp: num_start_def)
qed (auto simp: quote_str_def is_ws_def special_chars)

fun need :: "json \<Rightarrow> nat" and needs :: "json list \<Rightarrow> nat" and needm :: "(string \<times> json) list \<Rightarrow> nat" where
  "need (JArr vs) = Suc (needs vs)"
| "need (JObj ms) = Suc (needm ms)"
| "need _ = 1"
| "needs [] = 0"
| "needs (v # vs) = Suc (max (need v) (needs vs))"
| "needm [] = 0"
| "needm ((k, v) # ms) = Suc (max (need v) (needm ms))"

lemma val_end_simps [simp]:
  "val_end []" "val_end (CHR '','' # r)" "val_end (CHR '']'' # r)" "val_end (CHR ''}'' # r)"
  by (simp_all add: val_end_def is_digit_def)

lemma skip_ws_id: "s \<noteq> [] \<Longrightarrow> \<not> is_ws (hd s) \<Longrightarrow> skip_ws s = s"
  by (cases s) auto

lemma is_ws_simps [simp]:
  "\<not> is_ws DQ" "\<not> is_ws (CHR ''['')" "\<not> is_ws (CHR '']'')" "\<not> is_ws (CHR ''{'')"
  "\<not> is_ws (CHR ''}'')" "\<not> is_ws (CHR '','')" "\<not> is_ws (CHR '':'')"
  "\<not> is_ws (CHR ''n'')" "\<not> is_ws (CHR ''t'')" "\<not> is_ws (CHR ''f'')"
  by (simp_all add: is_ws_def special_chars)

lemma DQ_simps [simp]:
  "CHR ''['' \<noteq> DQ" "CHR ''{'' \<noteq> DQ" "CHR ''n'' \<noteq> DQ" "CHR ''t'' \<noteq> DQ" "CHR ''f'' \<noteq> DQ"
  "DQ \<noteq> CHR ''[''" "DQ \<noteq> CHR ''{''" "DQ \<noteq> CHR ''}''" "DQ \<noteq> CHR '']''"
  by (simp_all add: special_chars)

lemma parse_val_num:
  assumes "num_lit n" and "val_end r"
  shows "parse_val (Suc f) (n @ r) = Some (JNum n, r)"
proof -
  obtain c cs where n: "n = c # cs" and c: "num_start c" using num_lit_first [OF assms(1)] by blast
  then have "skip_ws (n @ r) = n @ r" by (simp add: num_start_def)
  with n c parse_num_append [OF assms] show ?thesis by (simp add: num_start_def)
qed

lemma parse_val_str: "parse_val (Suc f) (quote_str s @ r) = Some (JStr s, r)"
  by (simp add: quote_str_def parse_str_quote)

lemma print_elems_first:
  assumes "list_all json_ok vs" and "vs \<noteq> []"
  shows "\<exists>c cs. print_elems vs = c # cs \<and> \<not> is_ws c \<and> c \<noteq> CHR '']''"
  using assms json_print_first by (cases vs) fastforce+

lemma print_members_first: "ms \<noteq> [] \<Longrightarrow> \<exists>cs. print_members ms = DQ # cs"
  by (cases ms) (auto simp: quote_str_def)

lemma parse_print:
  "json_ok v \<Longrightarrow> need v \<le> f \<Longrightarrow> val_end r \<Longrightarrow> parse_val f (json_print v @ r) = Some (v, r)"
  "list_all json_ok vs \<Longrightarrow> vs \<noteq> [] \<Longrightarrow> needs vs \<le> f \<Longrightarrow>
     parse_elems f (print_elems vs @ CHR '']'' # r) = Some (vs, r)"
  "list_all (\<lambda>m. json_ok (snd m)) ms \<Longrightarrow> ms \<noteq> [] \<Longrightarrow> needm ms \<le> f \<Longrightarrow>
     parse_members f (print_members ms @ CHR ''}'' # r) = Some (ms, r)"
proof (induction v and vs and ms arbitrary: f r and f r and f r
    rule: json_print_print_elems_print_members.induct)
  case 1
  then obtain g where "f = Suc g" by (cases f) auto
  then show ?case by simp
next
  case (2 b)
  then obtain g where "f = Suc g" by (cases f) auto
  then show ?case by simp
next
  case (3 n)
  then obtain g where "f = Suc g" by (cases f) auto
  with 3 show ?case by (simp add: parse_val_num del: parse_val.simps)
next
  case (4 s)
  then obtain g where "f = Suc g" by (cases f) auto
  then show ?case by (simp add: parse_val_str del: parse_val.simps)
next
  case (5 vs)
  then obtain g where f: "f = Suc g" by (cases f) auto
  show ?case
  proof (cases "vs = []")
    case True
    with f show ?thesis by simp
  next
    case False
    with 5 f have "parse_elems g (print_elems vs @ CHR '']'' # r) = Some (vs, r)" by simp
    with f False print_elems_first [of vs] "5.prems"(1) show ?thesis by auto
  qed
next
  case (6 ms)
  then obtain g where f: "f = Suc g" by (cases f) auto
  show ?case
  proof (cases "ms = []")
    case True
    with f show ?thesis by simp
  next
    case False
    with 6 f have "parse_members g (print_members ms @ CHR ''}'' # r) = Some (ms, r)" by simp
    with f False print_members_first [of ms] show ?thesis by auto
  qed
next
  case 7
  then show ?case by simp
next
  case (8 v vs)
  then obtain g where f: "f = Suc g" by (cases f) auto
  show ?case
  proof (cases "vs = []")
    case True
    with 8 f have "parse_val g (json_print v @ CHR '']'' # r) = Some (v, CHR '']'' # r)" by simp
    with f True show ?thesis by simp
  next
    case False
    with 8 f have
      "parse_val g (json_print v @ CHR '','' # print_elems vs @ CHR '']'' # r) =
         Some (v, CHR '','' # print_elems vs @ CHR '']'' # r)"
      "parse_elems g (print_elems vs @ CHR '']'' # r) = Some (vs, r)" by simp_all
    with f False show ?thesis by simp
  qed
next
  case 9
  then show ?case by simp
next
  case (10 k v ms)
  then obtain g where f: "f = Suc g" by (cases f) auto
  have k: "parse_str (concat (map esc_char k) @ DQ # x) = Some (k, x)" for x
    by (rule parse_str_quote)
  show ?case
  proof (cases "ms = []")
    case True
    with 10 f have "parse_val g (json_print v @ CHR ''}'' # r) = Some (v, CHR ''}'' # r)" by simp
    with f True k show ?thesis by (simp add: quote_str_def)
  next
    case False
    with 10 f have
      "parse_val g (json_print v @ CHR '','' # print_members ms @ CHR ''}'' # r) =
         Some (v, CHR '','' # print_members ms @ CHR ''}'' # r)"
      "parse_members g (print_members ms @ CHR ''}'' # r) = Some (ms, r)" by simp_all
    with f False k show ?thesis by (simp add: quote_str_def)
  qed
qed

lemma need_bound:
  "json_ok v \<Longrightarrow> need v \<le> 2 * length (json_print v)"
  "list_all json_ok vs \<Longrightarrow> needs vs \<le> Suc (2 * length (print_elems vs))"
  "list_all (\<lambda>m. json_ok (snd m)) ms \<Longrightarrow> needm ms \<le> Suc (2 * length (print_members ms))"
proof (induction v and vs and ms rule: json_print_print_elems_print_members.induct)
  case (3 n)
  then show ?case using num_lit_first [of n] by auto
qed (auto simp: quote_str_def)

text \<open>What \<open>json.Marshal\<close> writes, \<open>json.Unmarshal\<close> reads back.\<close>

lemma json_parse_print: "json_ok v \<Longrightarrow> json_parse (json_print v) = Some v"
proof -
  assume ok: "json_ok v"
  then have "need v \<le> Suc (2 * length (json_print v))"
    using need_bound(1) [OF ok] by linarith
  then have "parse_val (Suc (2 * length (json_print v))) (json_print v @ []) = Some (v, [])"
    using ok by (intro parse_print(1)) simp_all
  then show ?thesis by (simp add: json_parse_def)
qed

lemma json_print_nonempty: "json_ok v \<Longrightarrow> json_print v \<noteq> []"
  using json_print_first [of v] by auto

lemma digit_char_0: "digit_char 0 = CHR ''0''"
  unfolding digit_char_def by (rule of_char_eqI [where 'a = nat]) simp

lemma canon_nat_dec [simp]: "canon_digits (nat_dec n)"
proof -
  have "hd (nat_dec n) = CHR ''0'' \<Longrightarrow> nat_dec n = ''0''"
  proof (induction n rule: nat_dec.induct)
    case (1 n)
    show ?case
    proof (cases "n < 10")
      case True
      then have eq: "nat_dec n = [digit_char n]" by (simp add: nat_dec.simps [of n])
      with "1.prems" show ?thesis by simp
    next
      case False
      then have eq: "nat_dec n = nat_dec (n div 10) @ [digit_char (n mod 10)]"
        by (simp add: nat_dec.simps [of n])
      with "1.prems" have "hd (nat_dec (n div 10)) = CHR ''0''" by simp
      with "1.IH" False have "nat_dec (n div 10) = ''0''" by simp
      then have "nat_dec (n div 10) = nat_dec 0" by (simp add: nat_dec.simps [of 0] digit_char_0)
      then have "n div 10 = 0" using nat_dec_inj by blast
      with False show ?thesis by simp
    qed
  qed
  then show ?thesis using nat_dec_digits [of n] by (auto simp: canon_digits_def list_all_iff)
qed

lemma num_lit_int_dec [simp]: "num_lit (int_dec i)"
  using num_lit_parts [OF canon_nat_dec, of "[]" "[]"]
  by (auto simp: int_dec_def frac_part_def exp_part_def)

subsection \<open>Decoding into typed variables\<close>

text \<open>
  A decoder takes a value and the variable's current contents, and gives the new contents
  and whether \<open>json.Unmarshal\<close> found no type mismatch: it goes on after the first one and
  reports it at the end. JSON \<open>null\<close> leaves a scalar and a struct as they are.
\<close>

type_synonym 'a dec = "json \<Rightarrow> 'a \<Rightarrow> 'a \<times> bool"

definition dec_string :: "string dec" where
  "dec_string j old = (case j of JStr s \<Rightarrow> (s, True) | JNull \<Rightarrow> (old, True) | _ \<Rightarrow> (old, False))"

definition dec_bool :: "bool dec" where
  "dec_bool j old = (case j of JBool b \<Rightarrow> (b, True) | JNull \<Rightarrow> (old, True) | _ \<Rightarrow> (old, False))"

definition dec_int :: "int dec" where
  "dec_int j old =
     (case j of
        JNum n \<Rightarrow> (case parse_int64 n of (i, ok) \<Rightarrow> if ok then (i, True) else (old, False))
      | JNull \<Rightarrow> (old, True)
      | _ \<Rightarrow> (old, False))"

text \<open>An \<open>interface{}\<close> takes any value.\<close>

definition dec_any :: "json dec" where
  "dec_any j old = (j, True)"

text \<open>A \<open>json.RawMessage\<close> takes the text of any value.\<close>

definition dec_raw :: "string dec" where
  "dec_raw j old = (json_print j, True)"

text \<open>A slice of structs: every element is decoded into a zero value.\<close>

fun dec_elems :: "'a dec \<Rightarrow> 'a \<Rightarrow> json list \<Rightarrow> 'a list \<times> bool" where
  "dec_elems d z [] = ([], True)"
| "dec_elems d z (j # js) =
     (case d j z of (x, ok) \<Rightarrow> case dec_elems d z js of (xs, ok') \<Rightarrow> (x # xs, ok \<and> ok'))"

definition dec_list :: "'a dec \<Rightarrow> 'a \<Rightarrow> 'a list dec" where
  "dec_list d z j old =
     (case j of JArr js \<Rightarrow> dec_elems d z js | JNull \<Rightarrow> ([], True) | _ \<Rightarrow> (old, False))"

text \<open>A \<open>map[string]string\<close>; \<open>None\<close> is the nil map.\<close>

fun dec_entries :: "(string \<times> json) list \<Rightarrow> (string \<times> string) list \<Rightarrow> (string \<times> string) list \<times> bool" where
  "dec_entries [] m = (m, True)"
| "dec_entries ((k, j) # ms) m =
     (case dec_string j [] of (v, ok) \<Rightarrow>
      case dec_entries ms (alist_put k v m) of (m', ok') \<Rightarrow> (m', ok \<and> ok'))"

definition dec_strmap :: "(string \<times> string) list option dec" where
  "dec_strmap j old =
     (case j of
        JObj ms \<Rightarrow> (case dec_entries ms (case old of None \<Rightarrow> [] | Some m \<Rightarrow> m) of (m, ok) \<Rightarrow> (Some m, ok))
      | JNull \<Rightarrow> (None, True)
      | _ \<Rightarrow> (old, False))"

text \<open>
  A struct: each key of the object in turn goes to the field it names, whatever its case;
  keys that name no field are skipped. \<open>dec_field\<close> is one arm of the field table.
\<close>

fun dec_fields :: "(string \<Rightarrow> 'a dec) \<Rightarrow> (string \<times> json) list \<Rightarrow> 'a \<Rightarrow> 'a \<times> bool" where
  "dec_fields fld [] x = (x, True)"
| "dec_fields fld ((k, j) # ms) x =
     (case fld k j x of (x', ok) \<Rightarrow>
      case dec_fields fld ms x' of (x'', ok') \<Rightarrow> (x'', ok \<and> ok'))"

definition dec_struct :: "(string \<Rightarrow> 'a dec) \<Rightarrow> 'a dec" where
  "dec_struct fld j old =
     (case j of JObj ms \<Rightarrow> dec_fields fld ms old | JNull \<Rightarrow> (old, True) | _ \<Rightarrow> (old, False))"

definition dec_field :: "'b dec \<Rightarrow> ('a \<Rightarrow> 'b) \<Rightarrow> ('b \<Rightarrow> 'a \<Rightarrow> 'a) \<Rightarrow> 'a dec" where
  "dec_field d get put j x = (case d j (get x) of (v, ok) \<Rightarrow> (put v x, ok))"

text \<open>
  \<open>json.Unmarshal(text, &x)\<close>: text that is not JSON leaves the variable alone and gives an
  error; a type mismatch gives an error after everything else has been decoded.
\<close>

definition syntax_error :: gerror where "syntax_error = ''json: syntax error''"
definition type_error :: gerror where "type_error = ''json: cannot unmarshal''"

definition unmarshal :: "'a dec \<Rightarrow> string \<Rightarrow> 'a \<Rightarrow> 'a \<times> gerror option" where
  "unmarshal d text x =
     (case json_parse text of
        None \<Rightarrow> (x, Some syntax_error)
      | Some j \<Rightarrow> (case d j x of (x', ok) \<Rightarrow> (x', if ok then None else Some type_error)))"

text \<open>Encoding: \<open>omitempty\<close> fields and maps, whose keys \<open>json.Marshal\<close> sorts.\<close>

definition opt_str :: "string \<Rightarrow> string \<Rightarrow> (string \<times> json) list" where
  "opt_str k s = (if s = [] then [] else [(k, JStr s)])"

fun insert_kv :: "(string \<times> string) \<Rightarrow> (string \<times> string) list \<Rightarrow> (string \<times> string) list" where
  "insert_kv p [] = [p]"
| "insert_kv p (q # qs) = (if str_less (fst q) (fst p) then q # insert_kv p qs else p # q # qs)"

definition enc_strmap :: "(string \<times> string) list option \<Rightarrow> json" where
  "enc_strmap m =
     (case m of
        None \<Rightarrow> JNull
      | Some kvs \<Rightarrow> JObj (map (\<lambda>p. (fst p, JStr (snd p))) (foldr insert_kv kvs [])))"

definition enc_int :: "int \<Rightarrow> json" where
  "enc_int i = JNum (int_dec i)"

text \<open>A \<open>map[string]interface{}\<close> holds the last value given for a key.\<close>

definition obj_get :: "string \<Rightarrow> (string \<times> json) list \<Rightarrow> json option" where
  "obj_get k ms = map_of (rev ms) k"

subsection \<open>Decoding what was encoded\<close>

lemma dec_scalars [wire_simps]:
  "dec_string (JStr s) old = (s, True)"
  "dec_bool (JBool b) bold = (b, True)"
  "dec_any j any = (j, True)"
  "dec_raw j raw = (json_print j, True)"
  by (simp_all add: dec_string_def dec_bool_def dec_any_def dec_raw_def)

lemma dec_int_enc_int [wire_simps]:
  "int64_min \<le> i \<Longrightarrow> i \<le> int64_max \<Longrightarrow> dec_int (enc_int i) old = (i, True)"
  by (simp add: dec_int_def enc_int_def)

lemma json_ok_enc_int [wire_simps]: "json_ok (enc_int i)"
  by (simp add: enc_int_def)

lemma dec_fields_append:
  "dec_fields fld (xs @ ys) x =
     (case dec_fields fld xs x of (x', ok) \<Rightarrow>
      case dec_fields fld ys x' of (x'', ok') \<Rightarrow> (x'', ok \<and> ok'))"
  by (induction fld xs x rule: dec_fields.induct) (auto split: prod.splits)

lemma json_ok_opt_str [wire_simps]: "list_all (\<lambda>m. json_ok (snd m)) (opt_str k s)"
  by (simp add: opt_str_def)

lemma dec_elems_map:
  "(\<And>x. x \<in> set xs \<Longrightarrow> d (e x) z = (x, True)) \<Longrightarrow> dec_elems d z (map e xs) = (xs, True)"
  by (induction xs) auto

lemma dec_list_map:
  "(\<And>x. x \<in> set xs \<Longrightarrow> d (e x) z = (x, True)) \<Longrightarrow> dec_list d z (JArr (map e xs)) old = (xs, True)"
  by (simp add: dec_list_def dec_elems_map)

fun kv_sorted :: "(string \<times> string) list \<Rightarrow> bool" where
  "kv_sorted [] = True"
| "kv_sorted [p] = True"
| "kv_sorted (p # q # r) = (str_less (fst p) (fst q) \<and> kv_sorted (q # r))"

lemma str_less_asym: "str_less a b \<Longrightarrow> \<not> str_less b a"
  using str_less_trans str_less_irrefl by blast

lemma kv_sorted_less: "kv_sorted (p # r) \<Longrightarrow> q \<in> set r \<Longrightarrow> str_less (fst p) (fst q)"
proof (induction r arbitrary: p)
  case (Cons a r)
  then show ?case by (metis kv_sorted.simps(3) set_ConsD str_less_trans)
qed simp

lemma kv_sorted_tl: "kv_sorted (p # r) \<Longrightarrow> kv_sorted r"
  by (cases r) auto

lemma foldr_insert_kv_sorted: "kv_sorted kvs \<Longrightarrow> foldr insert_kv kvs [] = kvs"
proof (induction kvs)
  case (Cons p r)
  then have "foldr insert_kv r [] = r" using kv_sorted_tl by blast
  moreover from Cons.prems have "r = [] \<or> \<not> str_less (fst (hd r)) (fst p)"
    by (cases r) (auto dest: str_less_asym)
  ultimately show ?case by (cases r) auto
qed simp

lemma kv_sorted_distinct: "kv_sorted kvs \<Longrightarrow> distinct (map fst kvs)"
proof (induction kvs)
  case (Cons p r)
  then have "\<forall>q\<in>set r. fst q \<noteq> fst p" using kv_sorted_less [of p r] by (metis str_less_irrefl)
  with Cons kv_sorted_tl [of p r] show ?case by force
qed simp

lemma dec_entries_map:
  "distinct (map fst (m @ kvs)) \<Longrightarrow>
   dec_entries (map (\<lambda>p. (fst p, JStr (snd p))) kvs) m = (m @ kvs, True)"
proof (induction kvs arbitrary: m)
  case (Cons p r)
  then have "alist_put (fst p) (snd p) m = m @ [p]"
    by (subst alist_put_fresh) auto
  with Cons show ?case by (simp add: dec_string_def)
qed simp

lemma dec_strmap_enc [wire_simps]:
  assumes "\<And>kvs. m = Some kvs \<Longrightarrow> kv_sorted kvs"
  shows "dec_strmap (enc_strmap m) None = (m, True)"
proof (cases m)
  case None
  then show ?thesis by (simp add: dec_strmap_def enc_strmap_def)
next
  case (Some kvs)
  with assms have "kv_sorted kvs" by simp
  with Some show ?thesis
    using dec_entries_map [of "[]" kvs] kv_sorted_distinct [of kvs]
    by (simp add: dec_strmap_def enc_strmap_def foldr_insert_kv_sorted)
qed

lemma json_ok_enc_strmap [wire_simps]: "json_ok (enc_strmap m)"
  by (cases m) (simp_all add: enc_strmap_def list_all_iff)

lemma unmarshal_print:
  "json_ok j \<Longrightarrow> d j x = (x', True) \<Longrightarrow> unmarshal d (json_print j) x = (x', None)"
  by (simp add: unmarshal_def json_parse_print)

lemma unmarshal_error_iff:
  "snd (unmarshal d text x) = None \<longleftrightarrow>
     (\<exists>j. json_parse text = Some j \<and> snd (d j x))"
  by (auto simp: unmarshal_def split: option.splits prod.splits)

end
