(* ===== verification/Wire.thy ===== *)
theory Wire
  imports Json
begin

text \<open>
  \<^verbatim>\<open>internal/wire/envelope.go\<close> and \<^verbatim>\<open>pkg/wire/wire.go\<close>: the message envelope of every
  request, reply and broadcast on the internal message bus, its text form, and the
  constructors of requests and replies.

  A payload argument (\<open>any\<close>) is a \<open>payload\<close>: nil, a value with its JSON form, or a
  value \<open>json.Marshal\<close> rejects. A raw payload inside an envelope is its text, empty when
  there is none.
\<close>

definition StatusOK :: string where "StatusOK = ''ok''"
definition StatusError :: string where "StatusError = ''error''"
definition DefaultReplyQueuePrefix :: string where "DefaultReplyQueuePrefix = ''/queue/reply.''"

record Envelope =
  env_type :: string
  env_correlation_id :: string
  env_reply_to :: string
  env_status :: string
  env_error :: string
  env_payload :: string

definition empty_envelope :: Envelope where
  "empty_envelope =
     \<lparr>env_type = [], env_correlation_id = [], env_reply_to = [], env_status = [],
      env_error = [], env_payload = []\<rparr>"

datatype payload = PNil | PVal json | PBad gerror

subsection \<open>Text form\<close>

text \<open>A raw payload is compacted into the text around it; one that is not JSON is an error.\<close>

definition envelope_json :: "Envelope \<Rightarrow> (string \<times> json) list \<Rightarrow> json" where
  "envelope_json env payload_member =
     JObj ([(''type'', JStr (env_type env))]
           @ opt_str ''correlationId'' (env_correlation_id env)
           @ opt_str ''replyTo'' (env_reply_to env)
           @ opt_str ''status'' (env_status env)
           @ opt_str ''error'' (env_error env)
           @ payload_member)"

definition EncodeEnvelope :: "Envelope \<Rightarrow> string outcome" where
  "EncodeEnvelope env =
     (if env_payload env = [] then Ok (json_print (envelope_json env []))
      else (case json_parse (env_payload env) of
              None \<Rightarrow> Err syntax_error
            | Some j \<Rightarrow> Ok (json_print (envelope_json env [(''payload'', j)]))))"

definition envelope_field :: "string \<Rightarrow> Envelope dec" where
  "envelope_field k =
     (if equal_fold k ''type'' then dec_field dec_string env_type (\<lambda>v. env_type_update (\<lambda>_. v))
      else if equal_fold k ''correlationId'' then
        dec_field dec_string env_correlation_id (\<lambda>v. env_correlation_id_update (\<lambda>_. v))
      else if equal_fold k ''replyTo'' then dec_field dec_string env_reply_to (\<lambda>v. env_reply_to_update (\<lambda>_. v))
      else if equal_fold k ''status'' then dec_field dec_string env_status (\<lambda>v. env_status_update (\<lambda>_. v))
      else if equal_fold k ''error'' then dec_field dec_string env_error (\<lambda>v. env_error_update (\<lambda>_. v))
      else if equal_fold k ''payload'' then dec_field dec_raw env_payload (\<lambda>v. env_payload_update (\<lambda>_. v))
      else (\<lambda>j x. (x, True)))"

definition dec_envelope :: "Envelope dec" where
  "dec_envelope = dec_struct envelope_field"

definition DecodeEnvelope :: "string \<Rightarrow> Envelope \<times> gerror option" where
  "DecodeEnvelope data = unmarshal dec_envelope data empty_envelope"

subsection \<open>Payloads\<close>

definition EncodePayload :: "payload \<Rightarrow> string outcome" where
  "EncodePayload p =
     (case p of PNil \<Rightarrow> Ok [] | PBad e \<Rightarrow> Err e | PVal j \<Rightarrow> Ok (json_print j))"

text \<open>A nil target has no decoder.\<close>

definition DecodePayload :: "string \<Rightarrow> 'a dec option \<Rightarrow> 'a \<Rightarrow> 'a \<times> gerror option" where
  "DecodePayload raw d x =
     (case d of
        None \<Rightarrow> (x, None)
      | Some d' \<Rightarrow> if raw = [] then (x, None) else unmarshal d' raw x)"

subsection \<open>Constructors\<close>

definition NewEnvelope :: "string \<Rightarrow> payload \<Rightarrow> Envelope outcome" where
  "NewEnvelope msgType p =
     outcome_bind (EncodePayload p)
       (\<lambda>raw. Ok (empty_envelope\<lparr>env_type := msgType, env_payload := raw\<rparr>))"

text \<open>
  \<open>crypto/rand\<close> and the clock are inputs: \<open>Some bytes\<close> are the 16 random bytes read,
  \<open>None\<close> a failed read, where the time in nanoseconds takes their place.
\<close>

type_synonym entropy = "nat list option \<times> int"

definition NewCorrelationID :: "entropy \<Rightarrow> string \<Rightarrow> string" where
  "NewCorrelationID rnd prefix =
     (case fst rnd of
        None \<Rightarrow> (if prefix = [] then ''id-'' @ int_dec (snd rnd)
                 else prefix @ ''-'' @ int_dec (snd rnd))
      | Some b \<Rightarrow> (let id = hex_encode b in
                  if prefix = [] then id else prefix @ ''-'' @ id))"

definition NewRequest :: "entropy \<Rightarrow> string \<Rightarrow> payload \<Rightarrow> string \<Rightarrow> Envelope outcome" where
  "NewRequest rnd msgType p replyTo =
     outcome_bind (NewEnvelope msgType p)
       (\<lambda>env. Ok (env\<lparr>env_reply_to := replyTo, env_correlation_id := NewCorrelationID rnd ''req''\<rparr>))"

definition ReplyOK :: "Envelope \<Rightarrow> payload \<Rightarrow> Envelope outcome" where
  "ReplyOK req p =
     outcome_bind (NewEnvelope (env_type req) p)
       (\<lambda>env. Ok (env\<lparr>env_correlation_id := env_correlation_id req, env_status := StatusOK\<rparr>))"

definition NewReply :: "string \<Rightarrow> string \<Rightarrow> payload \<Rightarrow> Envelope outcome" where
  "NewReply correlationID msgType p =
     outcome_bind (EncodePayload p)
       (\<lambda>raw. Ok \<lparr>env_type = msgType, env_correlation_id = correlationID, env_reply_to = [],
                  env_status = StatusOK, env_error = [], env_payload = raw\<rparr>)"

definition NewErrorReply :: "string \<Rightarrow> string \<Rightarrow> Envelope" where
  "NewErrorReply correlationID errorMsg =
     \<lparr>env_type = [], env_correlation_id = correlationID, env_reply_to = [],
      env_status = StatusError, env_error = errorMsg, env_payload = []\<rparr>"

definition ReplyErr :: "Envelope \<Rightarrow> gerror option \<Rightarrow> Envelope" where
  "ReplyErr req e =
     (let msg = (case e of None \<Rightarrow> [] | Some m \<Rightarrow> m) in
      \<lparr>env_type = env_type req, env_correlation_id = env_correlation_id req, env_reply_to = [],
       env_status = StatusError, env_error = msg, env_payload = []\<rparr>)"

definition NewReplyQueue :: "entropy \<Rightarrow> string \<Rightarrow> string \<Rightarrow> string" where
  "NewReplyQueue rnd queuePrefix clientPrefix =
     (let id = NewCorrelationID rnd [];
          qp = (if queuePrefix = [] then DefaultReplyQueuePrefix else queuePrefix) in
      if clientPrefix = [] then qp @ id else qp @ clientPrefix @ ''-'' @ id)"

subsection \<open>Lemmas\<close>

text \<open>A payload an envelope can carry: none, or the printed form of a well-formed value.\<close>

definition raw_ok :: "string \<Rightarrow> bool" where
  "raw_ok raw \<longleftrightarrow> raw = [] \<or> (\<exists>j. json_ok j \<and> raw = json_print j)"

fun payload_ok :: "payload \<Rightarrow> bool" where
  "payload_ok PNil = True"
| "payload_ok (PVal j) = json_ok j"
| "payload_ok (PBad e) = False"

lemma raw_ok_simps [simp]: "raw_ok []" "json_ok j \<Longrightarrow> raw_ok (json_print j)"
  by (auto simp: raw_ok_def)

lemma EncodePayload_Ok:
  "payload_ok p \<Longrightarrow> \<exists>raw. EncodePayload p = Ok raw \<and> raw_ok raw"
  by (cases p) (auto simp: EncodePayload_def)

lemma field_names [wire_simps]:
  "equal_fold ''type'' ''type''" 
  "\<not> equal_fold ''correlationId'' ''type''"
  "\<not> equal_fold ''replyTo'' ''type''" "\<not> equal_fold ''replyTo'' ''correlationId''"
  "\<not> equal_fold ''status'' ''type''" "\<not> equal_fold ''status'' ''correlationId''"
  "\<not> equal_fold ''status'' ''replyTo''"
  "\<not> equal_fold ''error'' ''type''" "\<not> equal_fold ''error'' ''correlationId''"
  "\<not> equal_fold ''error'' ''replyTo''" "\<not> equal_fold ''error'' ''status''"
  "\<not> equal_fold ''payload'' ''type''" "\<not> equal_fold ''payload'' ''correlationId''"
  "\<not> equal_fold ''payload'' ''replyTo''" "\<not> equal_fold ''payload'' ''status''"
  "\<not> equal_fold ''payload'' ''error''"
  by (simp_all add: fold_eval)

lemma dec_opt_str:
  assumes "fld k = dec_field dec_string get put" and "put [] x = x"
  shows "dec_fields fld (opt_str k s) x = (put s x, True)"
  using assms by (simp add: opt_str_def dec_field_def dec_string_def)

lemma dec_envelope_json:
  assumes "raw = [] \<and> pm = [] \<or> raw = json_print j \<and> pm = [(''payload'', j)]"
  shows "dec_envelope (envelope_json env pm) empty_envelope = (env\<lparr>env_payload := raw\<rparr>, True)"
proof -
  have 1: "dec_fields envelope_field (opt_str ''correlationId'' s) (x\<lparr>env_correlation_id := []\<rparr>)
      = (x\<lparr>env_correlation_id := s\<rparr>, True)" for s x
    by (subst dec_opt_str [where put = "\<lambda>v. env_correlation_id_update (\<lambda>_. v)"])
       (simp_all add: envelope_field_def wire_simps)
  have 2: "dec_fields envelope_field (opt_str ''replyTo'' s) (x\<lparr>env_reply_to := []\<rparr>)
      = (x\<lparr>env_reply_to := s\<rparr>, True)" for s x
    by (subst dec_opt_str [where put = "\<lambda>v. env_reply_to_update (\<lambda>_. v)"])
       (simp_all add: envelope_field_def wire_simps)
  have 3: "dec_fields envelope_field (opt_str ''status'' s) (x\<lparr>env_status := []\<rparr>)
      = (x\<lparr>env_status := s\<rparr>, True)" for s x
    by (subst dec_opt_str [where put = "\<lambda>v. env_status_update (\<lambda>_. v)"])
       (simp_all add: envelope_field_def wire_simps)
  have 4: "dec_fields envelope_field (opt_str ''error'' s) (x\<lparr>env_error := []\<rparr>)
      = (x\<lparr>env_error := s\<rparr>, True)" for s x
    by (subst dec_opt_str [where put = "\<lambda>v. env_error_update (\<lambda>_. v)"])
       (simp_all add: envelope_field_def wire_simps)
  obtain t c r s e p where env: "env = \<lparr>env_type = t, env_correlation_id = c, env_reply_to = r,
      env_status = s, env_error = e, env_payload = p\<rparr>" by (cases env)
  define x0 where "x0 = \<lparr>env_type = t, env_correlation_id = [], env_reply_to = [],
      env_status = [], env_error = [], env_payload = []\<rparr>"
  have t: "dec_fields envelope_field ((''type'', JStr t) # ms) empty_envelope =
      dec_fields envelope_field ms x0" for ms
    by (simp add: envelope_field_def wire_simps dec_field_def empty_envelope_def x0_def)
  have p: "dec_fields envelope_field pm (x\<lparr>env_payload := []\<rparr>) = (x\<lparr>env_payload := raw\<rparr>, True)" for x
    using assms by (auto simp: envelope_field_def wire_simps dec_field_def)
  show ?thesis
    using t 1 [of c x0] 2 [of r "x0\<lparr>env_correlation_id := c\<rparr>"]
      3 [of s "x0\<lparr>env_correlation_id := c, env_reply_to := r\<rparr>"]
      4 [of e "x0\<lparr>env_correlation_id := c, env_reply_to := r, env_status := s\<rparr>"]
      p [of "x0\<lparr>env_correlation_id := c, env_reply_to := r, env_status := s, env_error := e\<rparr>"]
    by (simp add: dec_envelope_def dec_struct_def envelope_json_def dec_fields_append env x0_def
        del: dec_fields.simps)
qed

lemma json_ok_envelope:
  "list_all (\<lambda>m. json_ok (snd m)) pm \<Longrightarrow> json_ok (envelope_json env pm)"
  by (simp add: envelope_json_def wire_simps)

lemma EncodeEnvelope_Ok:
  assumes "raw_ok (env_payload env)"
  shows "\<exists>text. EncodeEnvelope env = Ok text \<and> DecodeEnvelope text = (env, None)"
proof (cases "env_payload env = []")
  case True
  with dec_envelope_json [of "[]" "[]" JNull env] json_ok_envelope [of "[]" env] show ?thesis
    by (simp add: EncodeEnvelope_def DecodeEnvelope_def unmarshal_print)
next
  case False
  with assms obtain j where j: "json_ok j" "env_payload env = json_print j"
    by (auto simp: raw_ok_def)
  with False dec_envelope_json [of "json_print j" "[(''payload'', j)]" j env]
    json_ok_envelope [of "[(''payload'', j)]" env] show ?thesis
    by (simp add: EncodeEnvelope_def DecodeEnvelope_def unmarshal_print json_parse_print)
qed

lemma NewEnvelope_Ok:
  "payload_ok p \<Longrightarrow> \<exists>raw. EncodePayload p = Ok raw \<and> raw_ok raw \<and>
     NewEnvelope t p = Ok (empty_envelope\<lparr>env_type := t, env_payload := raw\<rparr>)"
  using EncodePayload_Ok [of p] by (auto simp: NewEnvelope_def)

lemma EncodePayload_PVal [wire_simps]: "EncodePayload (PVal j) = Ok (json_print j)"
  by (simp add: EncodePayload_def)

lemma DecodePayload_print:
  "json_ok j \<Longrightarrow> d j x = (x', True) \<Longrightarrow> DecodePayload (json_print j) (Some d) x = (x', None)"
  by (simp add: DecodePayload_def unmarshal_print json_print_nonempty)

subsection \<open>Properties\<close>

text \<open>C31: the envelope format: an envelope whose payload is absent or was made by
  \<open>EncodePayload\<close> is written to text that decodes, without error, to the same envelope; and
  encoding fails exactly for a payload that is not JSON.\<close>

theorem envelope_roundtrip:
  "(raw_ok (env_payload env) \<longrightarrow> (\<exists>m. EncodeEnvelope env = Ok m \<and> DecodeEnvelope m = (env, None)))
   \<and> (is_ok (EncodeEnvelope env) \<longleftrightarrow> env_payload env = [] \<or> json_parse (env_payload env) \<noteq> None)"
proof
  show "raw_ok (env_payload env) \<longrightarrow> (\<exists>m. EncodeEnvelope env = Ok m \<and> DecodeEnvelope m = (env, None))"
    using EncodeEnvelope_Ok [of env] by blast
  show "is_ok (EncodeEnvelope env) \<longleftrightarrow> env_payload env = [] \<or> json_parse (env_payload env) \<noteq> None"
    by (simp add: EncodeEnvelope_def split: option.split)
qed

theorem envelope_roundtrip_witness:
  "\<exists>m. EncodeEnvelope \<lparr>env_type = ''getservice'', env_correlation_id = ''req-1'', env_reply_to = ''/r'',
       env_status = [], env_error = [], env_payload = json_print (JObj [(''ip'', JStr ''1.2.3.4'')])\<rparr> = Ok m
     \<and> DecodeEnvelope m = (\<lparr>env_type = ''getservice'', env_correlation_id = ''req-1'', env_reply_to = ''/r'',
       env_status = [], env_error = [], env_payload = json_print (JObj [(''ip'', JStr ''1.2.3.4'')])\<rparr>, None)"
proof -
  let ?e = "\<lparr>env_type = ''getservice'', env_correlation_id = ''req-1'', env_reply_to = ''/r'',
       env_status = [], env_error = [], env_payload = json_print (JObj [(''ip'', JStr ''1.2.3.4'')])\<rparr>"
  have "raw_ok (env_payload ?e)" by (auto simp: raw_ok_def intro!: exI [of _ "JObj [(''ip'', JStr ''1.2.3.4'')]"])
  with envelope_roundtrip [of ?e] show ?thesis by blast
qed

text \<open>Two requests whose 16 random bytes differ never share a correlation id, and two
  private reply queues made from different random bytes never share a name.\<close>

theorem correlation_ids_differ:
  assumes "length a = 16" and "length b = 16" and "\<forall>x\<in>set (a @ b). x < 256" and "a \<noteq> b"
  shows "NewCorrelationID (Some a, t) p \<noteq> NewCorrelationID (Some b, u) p
    \<and> NewReplyQueue (Some a, t) qp cp \<noteq> NewReplyQueue (Some b, u) qp cp"
proof -
  have "hex_encode a \<noteq> hex_encode b" using assms hex_encode_inj [of a b] by auto
  then show ?thesis by (simp add: NewCorrelationID_def NewReplyQueue_def Let_def)
qed

theorem correlation_ids_differ_witness:
  "NewCorrelationID (Some (replicate 16 7), 0) ''req'' \<noteq> NewCorrelationID (Some (255 # replicate 15 7), 0) ''req''"
  using correlation_ids_differ [of "replicate 16 7" "255 # replicate 15 7" 0 "''req''" 0] by (simp add: numeral_eq_Suc)

end
