(* ===== verification/Bus.thy ===== *)
theory Bus
  imports Wire
begin

text \<open>
  \<^verbatim>\<open>internal/messagebus/messagebus.go\<close>: the \<open>Messagebus\<close> interface, as a record of the
  operations of a bus with state \<open>'b\<close>, and the contract its clients rely on, as a locale.
  \<^verbatim>\<open>internal/mock/mock_mb.go\<close>: the in-memory bus, which fulfils the contract.

  A channel handed to \<open>ReceiveMessage\<close> is a number.
\<close>

record 'b bus_ops =
  send_msg :: "'b \<Rightarrow> string \<Rightarrow> string \<Rightarrow> 'b \<times> unit outcome"
  recv_msg :: "'b \<Rightarrow> nat \<Rightarrow> string \<Rightarrow> 'b \<times> unit outcome"

text \<open>
  The contract: \<open>sent b a\<close> are the messages the bus has accepted for the address \<open>a\<close>, in
  order; \<open>addr\<close> is the address of a queue name. A send without error adds the message to
  its queue and to no other; every other send leaves the queues alone, and so does a
  subscription.
\<close>

locale message_bus =
  fixes ops :: "'b bus_ops"
    and sent :: "'b \<Rightarrow> 'a \<Rightarrow> string list"
    and addr :: "string \<Rightarrow> 'a"
  assumes send_ok: "send_msg ops b m q = (b', Ok ()) \<Longrightarrow> sent b' = (sent b)(addr q := sent b (addr q) @ [m])"
    and send_other: "send_msg ops b m q = (b', r) \<Longrightarrow> r \<noteq> Ok () \<Longrightarrow> sent b' = sent b"
    and recv_sent: "sent (fst (recv_msg ops b c q)) = sent b"

text \<open>
  A bus some of whose queues may be unreachable: \<open>up b q\<close> says whether a send to \<open>q\<close> goes
  through; sending changes nothing about that, and a send that does not go through is an
  error, never a panic or an exit.
\<close>

locale partial_bus = message_bus ops sent addr
  for ops :: "'b bus_ops" and sent :: "'b \<Rightarrow> 'a \<Rightarrow> string list" and addr :: "string \<Rightarrow> 'a" +
  fixes up :: "'b \<Rightarrow> string \<Rightarrow> bool"
  assumes send_up: "up b q \<Longrightarrow> \<exists>b'. send_msg ops b m q = (b', Ok ()) \<and> up b' = up b"
    and send_down: "\<not> up b q \<Longrightarrow> \<exists>b' e. send_msg ops b m q = (b', Err e) \<and> up b' = up b"

subsection \<open>The mock bus\<close>

text \<open>
  \<open>mb_inflight\<close> are the messages its goroutines are handing to a channel: the reply a
  request triggers and the messages preloaded in a queue when it is subscribed to.
\<close>

record MockMessageBus =
  mb_Messages :: "string list"
  mb_queueMsgs :: "string \<Rightarrow> string list"
  mb_replyPayload :: "json option"
  mb_sendError :: "gerror option"
  mb_replyChannels :: "string \<Rightarrow> nat option"
  mb_inflight :: "(nat \<times> string) list"

definition NewMockMessageBus :: MockMessageBus where
  "NewMockMessageBus =
     \<lparr>mb_Messages = [], mb_queueMsgs = (\<lambda>_. []), mb_replyPayload = None, mb_sendError = None,
      mb_replyChannels = (\<lambda>_. None), mb_inflight = []\<rparr>"

definition SetReplyPayload :: "json \<Rightarrow> MockMessageBus \<Rightarrow> MockMessageBus" where
  "SetReplyPayload p mb = mb\<lparr>mb_replyPayload := Some p\<rparr>"

text \<open>Its deprecated form: the reply is the text itself, as a JSON string.\<close>

definition SetReplyMessage :: "string \<Rightarrow> MockMessageBus \<Rightarrow> MockMessageBus" where
  "SetReplyMessage msg mb = mb\<lparr>mb_replyPayload := Some (JStr msg)\<rparr>"

definition SetSendError :: "gerror option \<Rightarrow> MockMessageBus \<Rightarrow> MockMessageBus" where
  "SetSendError e mb = mb\<lparr>mb_sendError := e\<rparr>"

definition GetMessages :: "MockMessageBus \<Rightarrow> string \<Rightarrow> string list" where
  "GetMessages mb queue = mb_queueMsgs mb queue"

definition AddQueueMessage :: "string \<Rightarrow> string \<Rightarrow> MockMessageBus \<Rightarrow> MockMessageBus" where
  "AddQueueMessage queue msg mb =
     mb\<lparr>mb_queueMsgs := (mb_queueMsgs mb)(queue := mb_queueMsgs mb queue @ [msg])\<rparr>"

text \<open>The mock reads the fields of its own envelope type, which has no error field.\<close>

definition mock_envelope_field :: "string \<Rightarrow> Envelope dec" where
  "mock_envelope_field k =
     (if equal_fold k ''error'' then (\<lambda>j x. (x, True)) else envelope_field k)"

definition mock_reply :: "Envelope \<Rightarrow> json \<Rightarrow> string" where
  "mock_reply env p =
     json_print (envelope_json
       (empty_envelope\<lparr>env_type := env_type env, env_correlation_id := env_correlation_id env,
          env_status := ''ok''\<rparr>) [(''payload'', p)])"

definition mock_SendMessage ::
  "MockMessageBus \<Rightarrow> string \<Rightarrow> string \<Rightarrow> MockMessageBus \<times> unit outcome" where
  "mock_SendMessage mb message queue =
     (case mb_sendError mb of
        Some e \<Rightarrow> (mb, Err e)
      | None \<Rightarrow>
          (let mb1 = mb\<lparr>mb_Messages := mb_Messages mb @ [message],
                        mb_queueMsgs := (mb_queueMsgs mb)(queue := mb_queueMsgs mb queue @ [message])\<rparr>
           in (case unmarshal (dec_struct mock_envelope_field) message empty_envelope of
                 (env, err) \<Rightarrow>
                   (if err = None \<and> env_reply_to env \<noteq> [] \<and> env_correlation_id env \<noteq> [] then
                      (case mb_replyPayload mb1 of
                         None \<Rightarrow> (mb1, Ok ())
                       | Some p \<Rightarrow>
                           (case mb_replyChannels mb1 (env_reply_to env) of
                              None \<Rightarrow> (mb1, Ok ())
                            | Some ch \<Rightarrow>
                                (mb1\<lparr>mb_inflight := mb_inflight mb1 @ [(ch, mock_reply env p)]\<rparr>, Ok ())))
                    else (mb1, Ok ())))))"

definition mock_ReceiveMessage ::
  "MockMessageBus \<Rightarrow> nat \<Rightarrow> string \<Rightarrow> MockMessageBus \<times> unit outcome" where
  "mock_ReceiveMessage mb ch queue =
     (mb\<lparr>mb_replyChannels := (mb_replyChannels mb)(queue := Some ch),
         mb_inflight := mb_inflight mb @ map (\<lambda>m. (ch, m)) (mb_queueMsgs mb queue)\<rparr>, Ok ())"

definition mock_SendMessageWithHeaders ::
  "MockMessageBus \<Rightarrow> string \<Rightarrow> string \<Rightarrow> (string \<times> string) list \<Rightarrow> MockMessageBus \<times> unit outcome" where
  "mock_SendMessageWithHeaders mb message queue headers = (mb, Ok ())"

definition mock_Close :: "MockMessageBus \<Rightarrow> MockMessageBus \<times> gerror option" where
  "mock_Close mb = (mb, None)"

definition mock_ops :: "MockMessageBus bus_ops" where
  "mock_ops = \<lparr>send_msg = mock_SendMessage, recv_msg = mock_ReceiveMessage\<rparr>"

lemma mock_send_cases:
  "mock_SendMessage mb m q = (mb', r) \<Longrightarrow>
     (case mb_sendError mb of
        Some e \<Rightarrow> mb' = mb \<and> r = Err e
      | None \<Rightarrow> r = Ok () \<and> mb_queueMsgs mb' = (mb_queueMsgs mb)(q := mb_queueMsgs mb q @ [m])
          \<and> mb_sendError mb' = None)"
  by (auto simp: mock_SendMessage_def Let_def split: option.splits prod.splits if_splits)

interpretation mock: message_bus mock_ops mb_queueMsgs "\<lambda>q. q"
proof unfold_locales
  fix b m q b'
  assume "send_msg mock_ops b m q = (b', Ok ())"
  then show "mb_queueMsgs b' = (mb_queueMsgs b)(q := mb_queueMsgs b q @ [m])"
    using mock_send_cases [of b m q b' "Ok ()"] by (auto simp: mock_ops_def split: option.splits)
next
  fix b m q b' and r :: "unit outcome"
  assume "send_msg mock_ops b m q = (b', r)" and "r \<noteq> Ok ()"
  then show "mb_queueMsgs b' = mb_queueMsgs b"
    using mock_send_cases [of b m q b' r] by (auto simp: mock_ops_def split: option.splits)
next
  fix b c q
  show "mb_queueMsgs (fst (recv_msg mock_ops b c q)) = mb_queueMsgs b"
    by (simp add: mock_ops_def mock_ReceiveMessage_def)
qed

interpretation mock: partial_bus mock_ops mb_queueMsgs "\<lambda>q. q" "\<lambda>b q. mb_sendError b = None"
proof unfold_locales
  fix b :: MockMessageBus and m q :: string
  obtain b' r where s: "mock_SendMessage b m q = (b', r)" by (cases "mock_SendMessage b m q")
  { assume "mb_sendError b = None"
    with mock_send_cases [OF s] s
    show "\<exists>b'. send_msg mock_ops b m q = (b', Ok ()) \<and> (\<lambda>_. mb_sendError b' = None) = (\<lambda>_ :: string. mb_sendError b = None)"
      by (simp add: mock_ops_def) }
  { assume "mb_sendError b \<noteq> None"
    with mock_send_cases [OF s] s
    show "\<exists>b' e. send_msg mock_ops b m q = (b', Err e) \<and> (\<lambda>_. mb_sendError b' = None) = (\<lambda>_ :: string. mb_sendError b = None)"
      by (auto simp: mock_ops_def split: option.splits) }
qed

end
