(* ===== verification/Service.thy ===== *)
theory Service
  imports Bus
begin

text \<open>
  \<^verbatim>\<open>internal/service/service.go\<close>: the client and service halves of the request/reply
  protocol every component of the pipeline speaks. \<open>BaseClient\<close> sends commands and
  waits for replies matched by correlation id; \<open>BaseService\<close> decodes commands, hands them
  on and replies. Every operation takes the bus operations (the \<open>Messagebus\<close> interface
  value) as its first argument.

  A blocking \<open>Call\<close> is split where it blocks: \<open>call_begin\<close> runs up to the \<open>select\<close>,
  \<open>reply_message\<close> is one turn of the listener goroutine, \<open>call_reply\<close> and
  \<open>call_timeout\<close> are the two arms of the \<open>select\<close> with the deferred clean-up.
\<close>

subsection \<open>State\<close>

text \<open>
  \<open>bc_Pending\<close> maps a correlation id to the contents of its reply channel, which holds at
  most one envelope. \<open>bc_ReplyOnce\<close> says whether \<open>ReplyOnce.Do\<close> has run.
\<close>

record 'b BaseClient =
  bc_Bus :: 'b
  bc_CommandQueue :: string
  bc_ReplyPrefix :: string
  bc_ClientName :: string
  bc_Timeout :: int
  bc_ReplyQueue :: string
  bc_Pending :: "string \<Rightarrow> Envelope option option"
  bc_ReplyOnce :: bool
  bc_ReplyErr :: "gerror option"

record 'b BaseService =
  bs_Bus :: 'b
  bs_CommandQueue :: string

definition NewBaseClient :: "'b \<Rightarrow> string \<Rightarrow> string \<Rightarrow> string \<Rightarrow> int \<Rightarrow> 'b BaseClient" where
  "NewBaseClient bus commandQueue replyPrefix clientName timeout =
     \<lparr>bc_Bus = bus, bc_CommandQueue = commandQueue, bc_ReplyPrefix = replyPrefix,
      bc_ClientName = clientName, bc_Timeout = timeout, bc_ReplyQueue = [],
      bc_Pending = (\<lambda>_. None), bc_ReplyOnce = False, bc_ReplyErr = None\<rparr>"

definition NewBaseService :: "'b \<Rightarrow> string \<Rightarrow> 'b BaseService" where
  "NewBaseService bus commandQueue = \<lparr>bs_Bus = bus, bs_CommandQueue = commandQueue\<rparr>"

subsection \<open>Sending\<close>

text \<open>\<open>SendEnvelope\<close> is the same code for the client and for the service.\<close>

definition send_envelope :: "'b bus_ops \<Rightarrow> 'b \<Rightarrow> string \<Rightarrow> Envelope \<Rightarrow> 'b \<times> unit outcome" where
  "send_envelope ops b queue env =
     (case EncodeEnvelope env of
        Ok text \<Rightarrow> send_msg ops b text queue
      | Err e \<Rightarrow> (b, Err e)
      | Panic w \<Rightarrow> (b, Panic w)
      | Exit n \<Rightarrow> (b, Exit n))"

definition send_new :: "'b bus_ops \<Rightarrow> 'b \<Rightarrow> string \<Rightarrow> Envelope outcome \<Rightarrow> 'b \<times> unit outcome" where
  "send_new ops b queue r =
     (case r of
        Ok env \<Rightarrow> send_envelope ops b queue env
      | Err e \<Rightarrow> (b, Err e)
      | Panic w \<Rightarrow> (b, Panic w)
      | Exit n \<Rightarrow> (b, Exit n))"

definition client_SendEnvelope ::
  "'b bus_ops \<Rightarrow> 'b BaseClient \<Rightarrow> string \<Rightarrow> Envelope \<Rightarrow> 'b BaseClient \<times> unit outcome" where
  "client_SendEnvelope ops bc queue env =
     (case send_envelope ops (bc_Bus bc) queue env of (b, r) \<Rightarrow> (bc\<lparr>bc_Bus := b\<rparr>, r))"

definition client_SendTo ::
  "'b bus_ops \<Rightarrow> 'b BaseClient \<Rightarrow> string \<Rightarrow> string \<Rightarrow> payload \<Rightarrow> 'b BaseClient \<times> unit outcome" where
  "client_SendTo ops bc queue msgType p =
     (case send_new ops (bc_Bus bc) queue (NewEnvelope msgType p) of (b, r) \<Rightarrow> (bc\<lparr>bc_Bus := b\<rparr>, r))"

definition client_Send ::
  "'b bus_ops \<Rightarrow> 'b BaseClient \<Rightarrow> string \<Rightarrow> payload \<Rightarrow> 'b BaseClient \<times> unit outcome" where
  "client_Send ops bc msgType p = client_SendTo ops bc (bc_CommandQueue bc) msgType p"

definition client_SendToWithReplyTo ::
  "'b bus_ops \<Rightarrow> 'b BaseClient \<Rightarrow> string \<Rightarrow> string \<Rightarrow> payload \<Rightarrow> string \<Rightarrow> 'b BaseClient \<times> unit outcome" where
  "client_SendToWithReplyTo ops bc queue msgType p replyTo =
     (case send_new ops (bc_Bus bc) queue
             (outcome_bind (NewEnvelope msgType p) (\<lambda>env. Ok (env\<lparr>env_reply_to := replyTo\<rparr>))) of
        (b, r) \<Rightarrow> (bc\<lparr>bc_Bus := b\<rparr>, r))"

definition client_SendWithReplyTo ::
  "'b bus_ops \<Rightarrow> 'b BaseClient \<Rightarrow> string \<Rightarrow> payload \<Rightarrow> string \<Rightarrow> 'b BaseClient \<times> unit outcome" where
  "client_SendWithReplyTo ops bc msgType p replyTo =
     client_SendToWithReplyTo ops bc (bc_CommandQueue bc) msgType p replyTo"

definition service_SendTo ::
  "'b bus_ops \<Rightarrow> 'b \<Rightarrow> string \<Rightarrow> string \<Rightarrow> payload \<Rightarrow> 'b \<times> unit outcome" where
  "service_SendTo ops b queue msgType p = send_new ops b queue (NewEnvelope msgType p)"

definition service_Send ::
  "'b bus_ops \<Rightarrow> 'b BaseService \<Rightarrow> string \<Rightarrow> payload \<Rightarrow> 'b \<times> unit outcome" where
  "service_Send ops bs msgType p = service_SendTo ops (bs_Bus bs) (bs_CommandQueue bs) msgType p"

definition service_Reply :: "'b bus_ops \<Rightarrow> 'b \<Rightarrow> Envelope \<Rightarrow> payload \<Rightarrow> 'b \<times> unit outcome" where
  "service_Reply ops b req p =
     (if env_reply_to req = [] then (b, Err ''reply queue missing'')
      else send_new ops b (env_reply_to req) (ReplyOK req p))"

definition service_ReplyError ::
  "'b bus_ops \<Rightarrow> 'b \<Rightarrow> Envelope \<Rightarrow> gerror option \<Rightarrow> 'b \<times> unit outcome" where
  "service_ReplyError ops b req e =
     (if env_reply_to req = [] then (b, Err ''reply queue missing'')
      else send_envelope ops b (env_reply_to req) (ReplyErr req e))"

subsection \<open>Calls\<close>

definition initReplyListener :: "'b bus_ops \<Rightarrow> nat \<Rightarrow> 'b BaseClient \<Rightarrow> 'b BaseClient \<times> gerror option" where
  "initReplyListener ops ch bc =
     (if bc_ReplyOnce bc then (bc, bc_ReplyErr bc)
      else (let queue = bc_ReplyPrefix bc @ bc_ClientName bc in
            case recv_msg ops (bc_Bus bc) ch queue of
              (b, r) \<Rightarrow>
                (let err = (case r of Err e \<Rightarrow> Some e | _ \<Rightarrow> None) in
                 (bc\<lparr>bc_Bus := b, bc_ReplyQueue := queue, bc_ReplyOnce := True, bc_ReplyErr := err\<rparr>, err))))"

text \<open>The body of the listener goroutine, for one message.\<close>

definition reply_message :: "string \<Rightarrow> 'b BaseClient \<Rightarrow> 'b BaseClient" where
  "reply_message message bc =
     (case DecodeEnvelope message of
        (env, Some e) \<Rightarrow> bc
      | (env, None) \<Rightarrow>
          (case bc_Pending bc (env_correlation_id env) of
             None \<Rightarrow> bc
           | Some (Some full) \<Rightarrow> bc
           | Some None \<Rightarrow>
               bc\<lparr>bc_Pending := (bc_Pending bc)(env_correlation_id env := Some (Some env))\<rparr>))"

definition drop_pending :: "string \<Rightarrow> 'b BaseClient \<Rightarrow> 'b BaseClient" where
  "drop_pending cid bc = bc\<lparr>bc_Pending := (bc_Pending bc)(cid := None)\<rparr>"

text \<open>\<open>Call\<close> up to its \<open>select\<close>: the correlation id it waits for, or the error it returns.\<close>

definition call_begin ::
  "'b bus_ops \<Rightarrow> nat \<Rightarrow> entropy \<Rightarrow> string \<Rightarrow> payload \<Rightarrow> 'b BaseClient \<Rightarrow> 'b BaseClient \<times> string outcome" where
  "call_begin ops ch rnd msgType p bc =
     (case initReplyListener ops ch bc of
        (bc1, Some e) \<Rightarrow> (bc1, Err e)
      | (bc1, None) \<Rightarrow>
          (case NewRequest rnd msgType p (bc_ReplyQueue bc1) of
             Ok req \<Rightarrow>
               (let cid = env_correlation_id req;
                    bc2 = bc1\<lparr>bc_Pending := (bc_Pending bc1)(cid := Some None)\<rparr> in
                case client_SendEnvelope ops bc2 (bc_CommandQueue bc2) req of
                  (bc3, Ok u) \<Rightarrow> (bc3, Ok cid)
                | (bc3, Err e) \<Rightarrow> (drop_pending cid bc3, Err e)
                | (bc3, Panic w) \<Rightarrow> (drop_pending cid bc3, Panic w)
                | (bc3, Exit n) \<Rightarrow> (bc3, Exit n))
           | Err e \<Rightarrow> (bc1, Err e)
           | Panic w \<Rightarrow> (bc1, Panic w)
           | Exit n \<Rightarrow> (bc1, Exit n)))"

text \<open>What \<open>Call\<close> returns for the envelope it has received.\<close>

definition call_result :: "'a dec option \<Rightarrow> 'a \<Rightarrow> Envelope \<Rightarrow> 'a \<times> gerror option" where
  "call_result d resp env =
     (if env_status env = StatusError then
        (resp, Some (if env_error env \<noteq> [] then env_error env else ''request failed''))
      else DecodePayload (env_payload env) d resp)"

definition call_reply :: "string \<Rightarrow> 'b BaseClient \<Rightarrow> ('b BaseClient \<times> Envelope) option" where
  "call_reply cid bc =
     (case bc_Pending bc cid of
        Some (Some env) \<Rightarrow> Some (drop_pending cid bc, env)
      | _ \<Rightarrow> None)"

definition call_timeout :: "string \<Rightarrow> 'b BaseClient \<Rightarrow> 'b BaseClient \<times> gerror" where
  "call_timeout cid bc =
     (drop_pending cid bc, ''timeout waiting for message from queue '' @ bc_ReplyQueue bc)"

text \<open>
  A whole \<open>Call\<close> of a client no other goroutine uses meanwhile: \<open>arrivals\<close> are the
  messages the listener takes from the reply queue before the timer fires.
\<close>

definition Call ::
  "'b bus_ops \<Rightarrow> nat \<Rightarrow> entropy \<Rightarrow> string list \<Rightarrow> string \<Rightarrow> payload \<Rightarrow> 'a dec option \<Rightarrow> 'a \<Rightarrow>
   'b BaseClient \<Rightarrow> 'b BaseClient \<times> ('a \<times> gerror option) outcome" where
  "Call ops ch rnd arrivals msgType p d resp bc =
     (case call_begin ops ch rnd msgType p bc of
        (bc1, Err e) \<Rightarrow> (bc1, Ok (resp, Some e))
      | (bc1, Panic w) \<Rightarrow> (bc1, Panic w)
      | (bc1, Exit n) \<Rightarrow> (bc1, Exit n)
      | (bc1, Ok cid) \<Rightarrow>
          (let bc2 = fold reply_message arrivals bc1 in
           case call_reply cid bc2 of
             Some (bc3, env) \<Rightarrow> (bc3, Ok (call_result d resp env))
           | None \<Rightarrow> (case call_timeout cid bc2 of (bc3, e) \<Rightarrow> (bc3, Ok (resp, Some e)))))"

subsection \<open>Listening\<close>

text \<open>
  One turn of \<open>ListenToQueue\<close>: text that is no envelope is skipped; any other message goes
  through the hook, which may change the service's state, and then to the channel.
\<close>

definition listen_message :: "(Envelope \<Rightarrow> 's \<Rightarrow> 's) option \<Rightarrow> string \<Rightarrow> 's \<times> Envelope list \<Rightarrow> 's \<times> Envelope list" where
  "listen_message hook message st =
     (case DecodeEnvelope message of
        (env, Some e) \<Rightarrow> st
      | (env, None) \<Rightarrow>
          ((case hook of None \<Rightarrow> fst st | Some h \<Rightarrow> h env (fst st)), snd st @ [env]))"

definition ListenToQueue ::
  "(Envelope \<Rightarrow> 's \<Rightarrow> 's) option \<Rightarrow> string list \<Rightarrow> 's \<Rightarrow> 's \<times> Envelope list" where
  "ListenToQueue hook messages s = fold (listen_message hook) messages (s, [])"

text \<open>
  \<open>ListenToQueueFiltered\<close> forwards the envelopes of one type until its context is done;
  then, and when the subscription fails, it closes the channel. The result is the list of
  envelopes forwarded and whether the channel has been closed.
\<close>

datatype listen_event = Message string | CtxDone

fun listen_filtered :: "string \<Rightarrow> listen_event list \<Rightarrow> Envelope list \<times> bool" where
  "listen_filtered t [] = ([], False)"
| "listen_filtered t (CtxDone # es) = ([], True)"
| "listen_filtered t (Message m # es) =
     (case DecodeEnvelope m of
        (env, Some e) \<Rightarrow> listen_filtered t es
      | (env, None) \<Rightarrow>
          (case listen_filtered t es of
             (out, closed) \<Rightarrow> (if env_type env = t then env # out else out, closed)))"

definition ListenToQueueFiltered ::
  "'b bus_ops \<Rightarrow> nat \<Rightarrow> 'b \<Rightarrow> string \<Rightarrow> string \<Rightarrow> listen_event list \<Rightarrow> 'b \<times> Envelope list \<times> bool" where
  "ListenToQueueFiltered ops ch b queueName messageType events =
     (case recv_msg ops b ch queueName of
        (b', Ok u) \<Rightarrow> (b', listen_filtered messageType events)
      | (b', r) \<Rightarrow> (b', [], True))"

subsection \<open>Calls in flight\<close>

text \<open>
  Any number of goroutines share one client. The state is the client, the correlation ids
  of the calls blocked in their \<open>select\<close>, and the calls that have returned an envelope.
  A step is one goroutine moving: a call starting (its random bytes give an id no blocked
  call has), the listener taking any text from the reply queue, or one arm of a blocked
  call's \<open>select\<close>.
\<close>

record 'b call_sys =
  cs_client :: "'b BaseClient"
  cs_waiting :: "string set"
  cs_done :: "(string \<times> Envelope) list"

inductive call_step :: "'b bus_ops \<Rightarrow> nat \<Rightarrow> 'b call_sys \<Rightarrow> 'b call_sys \<Rightarrow> bool"
  for ops :: "'b bus_ops" and ch :: nat where
  begin_ok:
    "call_begin ops ch rnd t p (cs_client s) = (c, Ok cid) \<Longrightarrow>
     NewCorrelationID rnd ''req'' \<notin> cs_waiting s \<Longrightarrow>
     call_step ops ch s (s\<lparr>cs_client := c, cs_waiting := insert cid (cs_waiting s)\<rparr>)"
| begin_err:
    "call_begin ops ch rnd t p (cs_client s) = (c, Err e) \<Longrightarrow>
     NewCorrelationID rnd ''req'' \<notin> cs_waiting s \<Longrightarrow>
     call_step ops ch s (s\<lparr>cs_client := c\<rparr>)"
| listener:
    "call_step ops ch s (s\<lparr>cs_client := reply_message text (cs_client s)\<rparr>)"
| replied:
    "cid \<in> cs_waiting s \<Longrightarrow> call_reply cid (cs_client s) = Some (c, env) \<Longrightarrow>
     call_step ops ch s
       (s\<lparr>cs_client := c, cs_waiting := cs_waiting s - {cid}, cs_done := cs_done s @ [(cid, env)]\<rparr>)"
| timed_out:
    "cid \<in> cs_waiting s \<Longrightarrow> call_timeout cid (cs_client s) = (c, e) \<Longrightarrow>
     call_step ops ch s (s\<lparr>cs_client := c, cs_waiting := cs_waiting s - {cid}\<rparr>)"

inductive call_reachable :: "'b bus_ops \<Rightarrow> nat \<Rightarrow> 'b call_sys \<Rightarrow> bool"
  for ops :: "'b bus_ops" and ch :: nat where
  start: "call_reachable ops ch
     \<lparr>cs_client = NewBaseClient b cq rp name timeout, cs_waiting = {}, cs_done = []\<rparr>"
| step: "call_reachable ops ch s \<Longrightarrow> call_step ops ch s s' \<Longrightarrow> call_reachable ops ch s'"

inductive_cases call_stepE: "call_step ops ch s s'"

definition call_inv :: "'b call_sys \<Rightarrow> bool" where
  "call_inv s \<longleftrightarrow>
     dom (bc_Pending (cs_client s)) = cs_waiting s
     \<and> (\<forall>cid env. bc_Pending (cs_client s) cid = Some (Some env) \<longrightarrow> env_correlation_id env = cid)
     \<and> (\<forall>(cid, env) \<in> set (cs_done s). env_correlation_id env = cid)"

lemma initReplyListener_Pending:
  "initReplyListener ops ch bc = (bc', r) \<Longrightarrow> bc_Pending bc' = bc_Pending bc"
  by (auto simp: initReplyListener_def Let_def split: if_splits prod.splits)

lemma NewRequest_Ok:
  "NewRequest rnd t p q = Ok req \<Longrightarrow>
     env_correlation_id req = NewCorrelationID rnd ''req'' \<and> env_reply_to req = q \<and> env_type req = t
     \<and> EncodePayload p = Ok (env_payload req) \<and> env_status req = []"
  by (cases p) (auto simp: NewRequest_def NewEnvelope_def EncodePayload_def empty_envelope_def)

lemma client_SendEnvelope_frame:
  "client_SendEnvelope ops bc q env = (bc', r) \<Longrightarrow>
     bc_Pending bc' = bc_Pending bc \<and> bc_CommandQueue bc' = bc_CommandQueue bc
     \<and> bc_ReplyQueue bc' = bc_ReplyQueue bc"
  by (auto simp: client_SendEnvelope_def split: prod.splits)

lemma call_begin_Ok:
  assumes "call_begin ops ch rnd t p bc = (bc', Ok cid)"
  shows "cid = NewCorrelationID rnd ''req''"
    and "bc_Pending bc' = (bc_Pending bc)(cid := Some None)"
  using assms
  by (auto simp: call_begin_def Let_def drop_pending_def initReplyListener_Pending
      dest!: NewRequest_Ok client_SendEnvelope_frame
      split: prod.splits option.splits outcome.splits)

lemma call_begin_Err:
  assumes "call_begin ops ch rnd t p bc = (bc', Err e)"
  shows "bc_Pending bc' = bc_Pending bc
     \<or> bc_Pending bc' = (bc_Pending bc)(NewCorrelationID rnd ''req'' := None)"
  using assms
  by (auto simp: call_begin_def Let_def drop_pending_def initReplyListener_Pending
      dest!: NewRequest_Ok client_SendEnvelope_frame
      split: prod.splits option.splits outcome.splits)

lemma reply_message_Pending:
  "bc_Pending (reply_message text bc) cid =
     (case bc_Pending bc cid of
        Some None \<Rightarrow>
          (case DecodeEnvelope text of
             (env, None) \<Rightarrow> if env_correlation_id env = cid then Some (Some env) else Some None
           | (env, Some e) \<Rightarrow> Some None)
      | x \<Rightarrow> x)"
  by (auto simp: reply_message_def split: prod.splits option.splits)

lemma reply_message_dom: "dom (bc_Pending (reply_message text bc)) = dom (bc_Pending bc)"
  by (auto simp: reply_message_def dom_def split: prod.splits option.splits)

lemma call_inv_begin_ok:
  assumes "call_inv s" and b: "call_begin ops ch rnd t p (cs_client s) = (c, Ok cid)"
  shows "call_inv (s\<lparr>cs_client := c, cs_waiting := insert cid (cs_waiting s)\<rparr>)"
  using assms(1) call_begin_Ok [OF b] by (auto simp: call_inv_def split: if_splits)

lemma call_inv_begin_err:
  assumes "call_inv s" and b: "call_begin ops ch rnd t p (cs_client s) = (c, Err e)"
    and "NewCorrelationID rnd ''req'' \<notin> cs_waiting s"
  shows "call_inv (s\<lparr>cs_client := c\<rparr>)"
proof -
  have "bc_Pending (cs_client s) (NewCorrelationID rnd ''req'') = None"
    using assms(1,3) by (auto simp: call_inv_def)
  then have "(bc_Pending (cs_client s))(NewCorrelationID rnd ''req'' := None) = bc_Pending (cs_client s)"
    by (simp add: fun_upd_idem)
  with call_begin_Err [OF b] have "bc_Pending c = bc_Pending (cs_client s)" by auto
  with assms(1) show ?thesis by (simp add: call_inv_def)
qed

lemma call_inv_listener:
  "call_inv s \<Longrightarrow> call_inv (s\<lparr>cs_client := reply_message text (cs_client s)\<rparr>)"
  by (auto simp: call_inv_def reply_message_dom reply_message_Pending
      split: option.splits prod.splits if_splits)

lemma call_step_inv: "call_step ops ch s s' \<Longrightarrow> call_inv s \<Longrightarrow> call_inv s'"
proof (induction rule: call_step.induct)
  case (begin_ok rnd t p s c cid)
  then show ?case by (intro call_inv_begin_ok)
next
  case (begin_err rnd t p s c e)
  then show ?case by (intro call_inv_begin_err)
next
  case (listener s m)
  then show ?case by (rule call_inv_listener)
next
  case (replied cid s c env)
  then have "c = drop_pending cid (cs_client s)" and "bc_Pending (cs_client s) cid = Some (Some env)"
    by (auto simp: call_reply_def split: option.splits)
  with replied show ?case by (simp add: call_inv_def drop_pending_def) 
next
  case (timed_out cid s c e)
  then have "c = drop_pending cid (cs_client s)" by (simp add: call_timeout_def)
  with timed_out show ?case by (simp add: call_inv_def drop_pending_def)
qed

lemma call_reachable_inv: "call_reachable ops ch s \<Longrightarrow> call_inv s"
proof (induction rule: call_reachable.induct)
  case (start b cq rp name timeout)
  show ?case by (simp add: call_inv_def NewBaseClient_def dom_def)
next
  case (step s s')
  then show ?case using call_step_inv by blast
qed

subsection \<open>What reaches the bus\<close>

context message_bus begin

lemma send_envelope_sent:
  assumes "raw_ok (env_payload env)" and "send_envelope ops b q env = (b', Ok ())"
  shows "\<exists>text. sent b' = (sent b)(addr q := sent b (addr q) @ [text]) \<and> DecodeEnvelope text = (env, None)"
  using EncodeEnvelope_Ok [OF assms(1)] assms(2) send_ok by (auto simp: send_envelope_def)

lemma send_envelope_failed:
  "send_envelope ops b q env = (b', r) \<Longrightarrow> r \<noteq> Ok () \<Longrightarrow> sent b' = sent b"
  by (auto simp: send_envelope_def split: outcome.splits dest: send_other)

lemma send_new_failed:
  "send_new ops b q m = (b', r) \<Longrightarrow> r \<noteq> Ok () \<Longrightarrow> sent b' = sent b"
  by (auto simp: send_new_def split: outcome.splits dest: send_envelope_failed)

lemma client_SendTo_sent:
  assumes "payload_ok p" and "client_SendTo ops bc q t p = (bc', Ok ())"
  shows "\<exists>raw text. EncodePayload p = Ok raw \<and>
    sent (bc_Bus bc') = (sent (bc_Bus bc))(addr q := sent (bc_Bus bc) (addr q) @ [text]) \<and>
    DecodeEnvelope text = (empty_envelope\<lparr>env_type := t, env_payload := raw\<rparr>, None)"
proof -
  from NewEnvelope_Ok [OF assms(1), of t] obtain raw where raw: "EncodePayload p = Ok raw" "raw_ok raw"
    "NewEnvelope t p = Ok (empty_envelope\<lparr>env_type := t, env_payload := raw\<rparr>)" by blast
  with assms(2) show ?thesis
    using send_envelope_sent [of "empty_envelope\<lparr>env_type := t, env_payload := raw\<rparr>" "bc_Bus bc" q]
    by (auto simp: client_SendTo_def send_new_def split: prod.splits)
qed

lemma service_Reply_sent:
  assumes "payload_ok p" and "service_Reply ops b req p = (b', Ok ())"
  shows "env_reply_to req \<noteq> [] \<and>
    (\<exists>raw text. EncodePayload p = Ok raw \<and>
       sent b' = (sent b)(addr (env_reply_to req) := sent b (addr (env_reply_to req)) @ [text]) \<and>
       DecodeEnvelope text =
         (empty_envelope\<lparr>env_type := env_type req, env_payload := raw,
            env_correlation_id := env_correlation_id req, env_status := StatusOK\<rparr>, None))"
proof -
  from NewEnvelope_Ok [OF assms(1), of "env_type req"] obtain raw where raw:
    "EncodePayload p = Ok raw" "raw_ok raw"
    "NewEnvelope (env_type req) p = Ok (empty_envelope\<lparr>env_type := env_type req, env_payload := raw\<rparr>)"
    by blast
  let ?e = "empty_envelope\<lparr>env_type := env_type req, env_payload := raw,
            env_correlation_id := env_correlation_id req, env_status := StatusOK\<rparr>"
  from raw assms(2) send_envelope_sent [of ?e b "env_reply_to req" b'] show ?thesis
    by (auto simp: service_Reply_def ReplyOK_def send_new_def split: if_splits)
qed

lemma service_Reply_failed:
  "service_Reply ops b req p = (b', r) \<Longrightarrow> r \<noteq> Ok () \<Longrightarrow> sent b' = sent b"
  by (auto simp: service_Reply_def split: if_splits dest: send_new_failed)

lemma service_SendTo_sent:
  assumes "payload_ok p" and "service_SendTo ops b q t p = (b', Ok ())"
  shows "\<exists>raw text. EncodePayload p = Ok raw \<and>
    sent b' = (sent b)(addr q := sent b (addr q) @ [text]) \<and>
    DecodeEnvelope text = (empty_envelope\<lparr>env_type := t, env_payload := raw\<rparr>, None)"
proof -
  from NewEnvelope_Ok [OF assms(1), of t] obtain raw where raw: "EncodePayload p = Ok raw" "raw_ok raw"
    "NewEnvelope t p = Ok (empty_envelope\<lparr>env_type := t, env_payload := raw\<rparr>)" by blast
  with assms(2) show ?thesis
    using send_envelope_sent [of "empty_envelope\<lparr>env_type := t, env_payload := raw\<rparr>" b q]
    by (auto simp: service_SendTo_def send_new_def)
qed

lemma service_SendTo_failed:
  "service_SendTo ops b q t p = (b', r) \<Longrightarrow> r \<noteq> Ok () \<Longrightarrow> sent b' = sent b"
  by (auto simp: service_SendTo_def dest: send_new_failed)

lemma initReplyListener_sent:
  "initReplyListener ops ch bc = (bc', r) \<Longrightarrow>
     sent (bc_Bus bc') = sent (bc_Bus bc) \<and> bc_CommandQueue bc' = bc_CommandQueue bc"
proof -
  assume *: "initReplyListener ops ch bc = (bc', r)"
  have "sent (fst (recv_msg ops (bc_Bus bc) ch (bc_ReplyPrefix bc @ bc_ClientName bc))) = sent (bc_Bus bc)"
    by (rule recv_sent)
  with * show ?thesis by (auto simp: initReplyListener_def Let_def split: if_splits prod.splits)
qed

text \<open>A call that gets to its \<open>select\<close> has put one request on the command queue.\<close>

lemma call_begin_sent:
  assumes p: "payload_ok p" and started: "call_begin ops ch rnd t p bc = (bc', Ok cid)"
  shows "\<exists>req text. EncodePayload p = Ok (env_payload req) \<and> env_type req = t \<and>
    env_correlation_id req = cid \<and> env_reply_to req = bc_ReplyQueue bc' \<and>
    DecodeEnvelope text = (req, None) \<and>
    sent (bc_Bus bc') = (sent (bc_Bus bc))
      (addr (bc_CommandQueue bc) := sent (bc_Bus bc) (addr (bc_CommandQueue bc)) @ [text])"
proof -
  from started obtain bc1 where init: "initReplyListener ops ch bc = (bc1, None)"
    by (auto simp: call_begin_def Let_def split: prod.splits option.splits)
  from started init obtain req where req: "NewRequest rnd t p (bc_ReplyQueue bc1) = Ok req"
    by (auto simp: call_begin_def Let_def split: prod.splits option.splits outcome.splits)
  define bc2 where "bc2 = bc1\<lparr>bc_Pending := (bc_Pending bc1)(env_correlation_id req := Some None)\<rparr>"
  from started init req obtain u where send:
    "client_SendEnvelope ops bc2 (bc_CommandQueue bc2) req = (bc', Ok u)" and cid: "cid = env_correlation_id req"
    by (auto simp: call_begin_def Let_def bc2_def split: prod.splits option.splits outcome.splits)
  have raw: "raw_ok (env_payload req)"
    using EncodePayload_Ok [OF p] NewRequest_Ok [OF req] by auto
  from send obtain b where b: "send_envelope ops (bc_Bus bc2) (bc_CommandQueue bc2) req = (b, Ok ())"
    "bc' = bc2\<lparr>bc_Bus := b\<rparr>" by (auto simp: client_SendEnvelope_def split: prod.splits)
  have bus: "bc_Bus bc2 = bc_Bus bc1" "bc_CommandQueue bc2 = bc_CommandQueue bc1"
    "bc_ReplyQueue bc2 = bc_ReplyQueue bc1" by (simp_all add: bc2_def)
  from send_envelope_sent [OF raw b(1)] obtain m where m:
    "sent b = (sent (bc_Bus bc2))(addr (bc_CommandQueue bc2) := sent (bc_Bus bc2) (addr (bc_CommandQueue bc2)) @ [m])"
    "DecodeEnvelope m = (req, None)" by blast
  show ?thesis
    by (intro exI [of _ req] exI [of _ m])
       (use m b(2) bus cid NewRequest_Ok [OF req] initReplyListener_sent [OF init] in simp)
qed

end

text \<open>On a bus with unreachable queues a send of an envelope either arrives or is an error.\<close>

context partial_bus begin

lemma send_envelope_up:
  assumes "raw_ok (env_payload env)" and "up b q"
  shows "\<exists>b' m. send_envelope ops b q env = (b', Ok ()) \<and> up b' = up b
    \<and> sent b' = (sent b)(addr q := sent b (addr q) @ [m]) \<and> DecodeEnvelope m = (env, None)"
  using EncodeEnvelope_Ok [OF assms(1)] send_up [OF assms(2)] send_ok
  by (fastforce simp: send_envelope_def)

lemma send_envelope_down:
  assumes "raw_ok (env_payload env)" and "\<not> up b q"
  shows "\<exists>b' e. send_envelope ops b q env = (b', Err e) \<and> up b' = up b \<and> sent b' = sent b"
proof -
  from EncodeEnvelope_Ok [OF assms(1)] obtain m where m: "EncodeEnvelope env = Ok m" by blast
  from send_down [OF assms(2)] obtain b' e where "send_msg ops b m q = (b', Err e)" "up b' = up b" by blast
  moreover from this(1) have "sent b' = sent b" by (rule send_other) simp
  ultimately show ?thesis using m by (simp add: send_envelope_def)
qed

lemma service_SendTo_up:
  assumes "json_ok j" and "up b q"
  shows "\<exists>b' m. service_SendTo ops b q t (PVal j) = (b', Ok ()) \<and> up b' = up b
    \<and> sent b' = (sent b)(addr q := sent b (addr q) @ [m])
    \<and> DecodeEnvelope m = (empty_envelope\<lparr>env_type := t, env_payload := json_print j\<rparr>, None)"
  using send_envelope_up [of "empty_envelope\<lparr>env_type := t, env_payload := json_print j\<rparr>" b q] assms
  by (simp add: service_SendTo_def send_new_def NewEnvelope_def EncodePayload_def)

lemma service_SendTo_down:
  assumes "json_ok j" and "\<not> up b q"
  shows "\<exists>b' e. service_SendTo ops b q t (PVal j) = (b', Err e) \<and> up b' = up b \<and> sent b' = sent b"
  using send_envelope_down [of "empty_envelope\<lparr>env_type := t, env_payload := json_print j\<rparr>" b q] assms
  by (simp add: service_SendTo_def send_new_def NewEnvelope_def EncodePayload_def)

end

subsection \<open>A reply and the call it answers\<close>

lemma call_reply_delivered:
  assumes "bc_Pending bc cid = Some None" and "DecodeEnvelope m = (env, None)"
    and "env_correlation_id env = cid"
  shows "call_reply cid (reply_message m bc) = Some (drop_pending cid (reply_message m bc), env)"
  using assms by (simp add: call_reply_def reply_message_def)

lemma call_result_ok:
  assumes "json_ok j" and "d j x = (x', True)"
  shows "call_result (Some d) x
    (empty_envelope\<lparr>env_type := t, env_payload := json_print j, env_correlation_id := c, env_status := StatusOK\<rparr>)
    = (x', None)"
  using assms by (simp add: call_result_def StatusOK_def StatusError_def DecodePayload_print)

lemma reply_message_foreign:
  assumes "DecodeEnvelope m = (env, None)" and "bc_Pending bc (env_correlation_id env) \<noteq> Some None"
  shows "reply_message m bc = bc"
  using assms by (auto simp: reply_message_def split: option.splits)

lemma mock_send_ok:
  "mb_sendError b = None \<Longrightarrow> \<exists>b'. mock_SendMessage b m q = (b', Ok ()) \<and> mb_sendError b' = None"
  by (auto simp: mock_SendMessage_def Let_def split: prod.splits option.splits)

lemma mock_send_envelope_ok:
  assumes "raw_ok (env_payload env)" and "mb_sendError b = None"
  shows "\<exists>b'. send_envelope mock_ops b q env = (b', Ok ()) \<and> mb_sendError b' = None"
  using EncodeEnvelope_Ok [OF assms(1)] mock_send_ok [OF assms(2)]
  by (auto simp: send_envelope_def mock_ops_def)

lemma mock_service_Reply_ok:
  assumes "payload_ok p" and "mb_sendError b = None" and "env_reply_to req \<noteq> []"
  shows "\<exists>b'. service_Reply mock_ops b req p = (b', Ok ())"
proof -
  from NewEnvelope_Ok [OF assms(1), of "env_type req"] obtain raw where raw: "raw_ok raw"
    "NewEnvelope (env_type req) p = Ok (empty_envelope\<lparr>env_type := env_type req, env_payload := raw\<rparr>)"
    by blast
  let ?e = "empty_envelope\<lparr>env_type := env_type req, env_payload := raw,
     env_correlation_id := env_correlation_id req, env_status := StatusOK\<rparr>"
  obtain b' where "send_envelope mock_ops b (env_reply_to req) ?e = (b', Ok ())"
    using mock_send_envelope_ok [of ?e b] raw(1) assms(2) by auto
  with raw(2) assms(3) show ?thesis by (simp add: service_Reply_def ReplyOK_def send_new_def)
qed

lemma mock_call_begin_ok:
  assumes "payload_ok p" and "mb_sendError (bc_Bus bc) = None" and "\<not> bc_ReplyOnce bc"
  shows "\<exists>bc'. call_begin mock_ops ch rnd t p bc = (bc', Ok (NewCorrelationID rnd ''req''))"
proof -
  from NewEnvelope_Ok [OF assms(1), of t] obtain raw where raw: "raw_ok raw"
    "NewEnvelope t p = Ok (empty_envelope\<lparr>env_type := t, env_payload := raw\<rparr>)" by blast
  have init: "initReplyListener mock_ops ch bc =
    (bc\<lparr>bc_Bus := fst (mock_ReceiveMessage (bc_Bus bc) ch (bc_ReplyPrefix bc @ bc_ClientName bc)),
        bc_ReplyQueue := bc_ReplyPrefix bc @ bc_ClientName bc, bc_ReplyOnce := True, bc_ReplyErr := None\<rparr>, None)"
    using assms(3) by (simp add: initReplyListener_def mock_ops_def mock_ReceiveMessage_def Let_def)
  have e: "mb_sendError (fst (mock_ReceiveMessage (bc_Bus bc) ch q)) = None" for q
    using assms(2) by (simp add: mock_ReceiveMessage_def)
  let ?env = "empty_envelope\<lparr>env_type := t, env_payload := raw, env_reply_to := bc_ReplyPrefix bc @ bc_ClientName bc,
      env_correlation_id := NewCorrelationID rnd ''req''\<rparr>"
  obtain b' where "send_envelope mock_ops
      (fst (mock_ReceiveMessage (bc_Bus bc) ch (bc_ReplyPrefix bc @ bc_ClientName bc))) (bc_CommandQueue bc) ?env = (b', Ok ())"
    using mock_send_envelope_ok [of ?env, OF _ e] raw(1) by auto
  then show ?thesis
    by (simp add: call_begin_def init NewRequest_def raw(2) client_SendEnvelope_def Let_def)
qed

subsection \<open>Properties\<close>

text \<open>C13: every call that returns an envelope returns one that carries its own correlation
  id, whatever the interleaving of the calls, the listener and the timers and whatever text
  arrives on the reply queue; and the table of pending calls holds exactly the calls that
  are blocked, so none is leaked when calls fail, time out or return.\<close>

theorem call_replies_matched:
  assumes "call_reachable ops ch s"
  shows "(\<forall>(cid, env) \<in> set (cs_done s). env_correlation_id env = cid)
    \<and> dom (bc_Pending (cs_client s)) = cs_waiting s"
  using call_reachable_inv [OF assms] by (simp add: call_inv_def)

theorem call_replies_matched_witness:
  "\<exists>s :: MockMessageBus call_sys. call_reachable mock_ops 0 s \<and> cs_done s \<noteq> [] \<and>
     (\<forall>(cid, env) \<in> set (cs_done s). env_correlation_id env = cid) \<and>
     dom (bc_Pending (cs_client s)) = cs_waiting s"
proof -
  let ?c0 = "NewBaseClient NewMockMessageBus ''/q'' ''/r.'' ''c'' 5"
  let ?cid = "NewCorrelationID (None, 7) ''req''"
  obtain c1 where b: "call_begin mock_ops 0 (None, 7) ''get'' PNil ?c0 = (c1, Ok ?cid)"
  proof -
    have "payload_ok PNil" "mb_sendError (bc_Bus ?c0) = None" "\<not> bc_ReplyOnce ?c0"
      by (simp_all add: NewBaseClient_def NewMockMessageBus_def)
    from mock_call_begin_ok [OF this] show thesis using that by blast
  qed
  let ?s0 = "\<lparr>cs_client = ?c0, cs_waiting = {}, cs_done = []\<rparr>"
  have r0: "call_reachable mock_ops 0 ?s0" by (rule call_reachable.start)
  have "call_step mock_ops 0 ?s0 (?s0\<lparr>cs_client := c1, cs_waiting := insert ?cid (cs_waiting ?s0)\<rparr>)"
    by (rule call_step.begin_ok [where rnd = "(None, 7)" and t = "''get''" and p = PNil]) (simp_all add: b)
  with r0 have r1: "call_reachable mock_ops 0 \<lparr>cs_client = c1, cs_waiting = {?cid}, cs_done = []\<rparr>"
    by (auto intro: call_reachable.step)
  let ?env = "empty_envelope\<lparr>env_correlation_id := ?cid\<rparr>"
  obtain m where m: "DecodeEnvelope m = (?env, None)"
    using EncodeEnvelope_Ok [of ?env] by (auto simp: empty_envelope_def)
  have r2: "call_reachable mock_ops 0 \<lparr>cs_client = reply_message m c1, cs_waiting = {?cid}, cs_done = []\<rparr>"
    using call_reachable.step [OF r1 call_step.listener [of mock_ops 0 _ m]] by simp
  have d: "call_reply ?cid (reply_message m c1) = Some (drop_pending ?cid (reply_message m c1), ?env)"
    by (rule call_reply_delivered [OF _ m]) (simp_all add: call_begin_Ok(2) [OF b])
  let ?s2 = "\<lparr>cs_client = reply_message m c1, cs_waiting = {?cid}, cs_done = []\<rparr>"
  let ?s3 = "?s2\<lparr>cs_client := drop_pending ?cid (reply_message m c1), cs_waiting := cs_waiting ?s2 - {?cid},
     cs_done := cs_done ?s2 @ [(?cid, ?env)]\<rparr>"
  have "call_step mock_ops 0 ?s2 ?s3"
    by (rule call_step.replied) (simp_all add: d)
  then have r3: "call_reachable mock_ops 0 ?s3" using r2 by (rule call_reachable.step [rotated])
  show ?thesis using call_replies_matched [OF r3] r3 by (intro exI [of _ ?s3]) simp
qed

text \<open>C15: request and reply round-trip: when a service answers a request with a value, the
  message that lands on the request's reply queue, taken by the listener of the client that
  is waiting for that correlation id, ends the call with that value decoded into its
  result, without error.\<close>

theorem service_reply_reaches_call:
  assumes "bc_Pending bc (env_correlation_id req) = Some None"
    and "service_Reply mock_ops b req (PVal j) = (b', Ok ())"
    and "json_ok j" and "d j x = (x', True)"
  shows "\<exists>m bc' env. mb_queueMsgs b' (env_reply_to req) = mb_queueMsgs b (env_reply_to req) @ [m]
    \<and> call_reply (env_correlation_id req) (reply_message m bc) = Some (bc', env)
    \<and> call_result (Some d) x env = (x', None)"
proof -
  from mock.service_Reply_sent [OF _ assms(2)] assms(3) obtain m where
    "mb_queueMsgs b' = (mb_queueMsgs b)(env_reply_to req := mb_queueMsgs b (env_reply_to req) @ [m])"
    and m: "DecodeEnvelope m = (empty_envelope\<lparr>env_type := env_type req, env_payload := json_print j,
       env_correlation_id := env_correlation_id req, env_status := StatusOK\<rparr>, None)"
    by (auto simp: EncodePayload_def)
  then show ?thesis
    using call_reply_delivered [OF assms(1) m] call_result_ok [of j d x x'] assms(3,4) by auto
qed

theorem service_reply_reaches_call_witness:
  "\<exists>(bc :: MockMessageBus BaseClient) b' m bc' env.
     service_Reply mock_ops NewMockMessageBus
       (empty_envelope\<lparr>env_reply_to := ''/r'', env_correlation_id := ''req-1''\<rparr>) (PVal (JStr ''up'')) = (b', Ok ())
     \<and> call_reply ''req-1'' (reply_message m bc) = Some (bc', env)
     \<and> call_result (Some dec_string) [] env = (''up'', None)"
proof -
  let ?req = "empty_envelope\<lparr>env_reply_to := ''/r'', env_correlation_id := ''req-1''\<rparr>"
  let ?bc = "(NewBaseClient NewMockMessageBus ''/q'' ''/r'' [] 5)\<lparr>bc_Pending := [''req-1'' \<mapsto> None]\<rparr>"
  obtain b' where b': "service_Reply mock_ops NewMockMessageBus ?req (PVal (JStr ''up'')) = (b', Ok ())"
    using mock_service_Reply_ok [of "PVal (JStr ''up'')" NewMockMessageBus ?req]
    by (auto simp: NewMockMessageBus_def)
  have "bc_Pending ?bc (env_correlation_id ?req) = Some None" by simp
  from service_reply_reaches_call [OF this b', of dec_string "[]" "''up''"] b' show ?thesis
    by (fastforce simp: dec_string_def)
qed

text \<open>An error reply ends the call it answers with the service's message, or with
  \<open>request failed\<close> when the message is empty, and leaves the caller's result as it was.\<close>

theorem service_error_reaches_call:
  assumes "bc_Pending bc (env_correlation_id req) = Some None"
    and "service_ReplyError mock_ops b req e = (b', Ok ())"
  shows "\<exists>m bc' env. mb_queueMsgs b' (env_reply_to req) = mb_queueMsgs b (env_reply_to req) @ [m]
    \<and> call_reply (env_correlation_id req) (reply_message m bc) = Some (bc', env)
    \<and> call_result d x env =
        (x, Some (case e of None \<Rightarrow> ''request failed''
                  | Some msg \<Rightarrow> if msg = [] then ''request failed'' else msg))"
proof -
  from assms(2) have send: "send_envelope mock_ops b (env_reply_to req) (ReplyErr req e) = (b', Ok ())"
    by (auto simp: service_ReplyError_def split: if_splits)
  have "raw_ok (env_payload (ReplyErr req e))" by (simp add: ReplyErr_def Let_def)
  from mock.send_envelope_sent [OF this send] obtain m where
    "mb_queueMsgs b' = (mb_queueMsgs b)(env_reply_to req := mb_queueMsgs b (env_reply_to req) @ [m])"
    and m: "DecodeEnvelope m = (ReplyErr req e, None)" by blast
  then show ?thesis
    using call_reply_delivered [OF assms(1) m]
    by (auto simp: ReplyErr_def Let_def call_result_def split: option.splits)
qed

theorem service_error_reaches_call_witness:
  "\<exists>(bc :: MockMessageBus BaseClient) b' m bc' env.
     service_ReplyError mock_ops NewMockMessageBus
       (empty_envelope\<lparr>env_reply_to := ''/r'', env_correlation_id := ''req-1''\<rparr>) (Some ''no such system'') = (b', Ok ())
     \<and> call_reply ''req-1'' (reply_message m bc) = Some (bc', env)
     \<and> call_result (Some dec_string) [] env = ([], Some ''no such system'')"
proof -
  let ?req = "empty_envelope\<lparr>env_reply_to := ''/r'', env_correlation_id := ''req-1''\<rparr>"
  let ?bc = "(NewBaseClient NewMockMessageBus ''/q'' ''/r'' [] 5)\<lparr>bc_Pending := [''req-1'' \<mapsto> None]\<rparr>"
  obtain b' where b': "service_ReplyError mock_ops NewMockMessageBus ?req (Some ''no such system'') = (b', Ok ())"
    using mock_send_envelope_ok [of "ReplyErr ?req (Some ''no such system'')" NewMockMessageBus "''/r''"]
    by (auto simp: service_ReplyError_def ReplyErr_def NewMockMessageBus_def empty_envelope_def)
  have "bc_Pending ?bc (env_correlation_id ?req) = Some None" by simp
  from service_error_reaches_call [OF this b', of "Some dec_string" "[]"] b' show ?thesis
    by fastforce
qed

end
