(* ===== verification/Auth.thy ===== *)
theory Auth
  imports Service
begin

text \<open>
  \<^verbatim>\<open>internal/auth/auth.go\<close>, \<^verbatim>\<open>pkg/auth/auth.go\<close> and the constants of
  \<^verbatim>\<open>internal/disc/disc.go\<close>: the data the authorization service exchanges with its
  clients, its JSON form, and the client's commands and queries.
\<close>

subsection \<open>Constants\<close>

definition UNKNOWN :: int where "UNKNOWN = 0"
definition MSM :: int where "MSM = 1"
definition EC :: int where "EC = 2"
definition IDRAC :: int where "IDRAC = 3"
definition IRC :: int where "IRC = 4"
definition NVLINK :: int where "NVLINK = 5"

definition AuthTypeUsernamePassword :: int where "AuthTypeUsernamePassword = 1"
definition AuthTypeXAuthToken :: int where "AuthTypeXAuthToken = 2"
definition AuthTypeBearerToken :: int where "AuthTypeBearerToken = 3"
definition ReadTimeout :: int where "ReadTimeout = 5"

definition STARTING :: string where "STARTING = ''Starting''"
definition RUNNING :: string where "RUNNING = ''Running''"
definition RUNNINGWOTEL :: string where "RUNNINGWOTEL = ''Running Only Alerts''"
definition TELNOTFOUND :: string where "TELNOTFOUND = ''Telemetry Service Not Found''"
definition CONNFAILED :: string where "CONNFAILED = ''Connection Failed''"
definition LEAKED :: string where "LEAKED = ''Leak Detected''"
definition MONITORING :: string where "MONITORING = ''Monitoring''"

definition SHUTDOWNRECEIVED :: string where "SHUTDOWNRECEIVED = ''Shutdown Received''"
definition SHUTDOWNFAILED :: string where "SHUTDOWNFAILED = ''Shutdown Failed''"
definition POWERSTATEON :: string where "POWERSTATEON = ''Power Status On''"
definition POWERSTATEOFF :: string where "POWERSTATEOFF = ''Power Status Off''"

definition RESEND :: string where "RESEND = ''resend''"
definition ADDSERVICE :: string where "ADDSERVICE = ''addservice''"
definition DELETESERVICE :: string where "DELETESERVICE = ''deleteservice''"
definition UPDATESERVICE :: string where "UPDATESERVICE = ''updateservice''"
definition GETSERVICE :: string where "GETSERVICE = ''getservice''"
definition UPDATELOGIN :: string where "UPDATELOGIN = ''updatelogin''"
definition TERMINATE :: string where "TERMINATE = ''terminate''"
definition SPLUNKADDHEC :: string where "SPLUNKADDHEC = ''splunkaddhec''"
definition GETHECCONFIG :: string where "GETHECCONFIG = ''gethecconfig''"
definition GETALLSERVICES :: string where "GETALLSERVICES = ''getallservices''"
definition ADDSERVICEITEM :: string where "ADDSERVICEITEM = ''addserviceitem''"
definition DELETESERVICEITEM :: string where "DELETESERVICEITEM = ''deleteserviceitem''"
definition GETSERVICEITEMS :: string where "GETSERVICEITEMS = ''getserviceitems''"
definition GETSERVICEITEM :: string where "GETSERVICEITEM = ''getserviceitem''"
definition UPDATESERVICEITEM :: string where "UPDATESERVICEITEM = ''updateserviceitem''"
definition UPDATEVALVESTATE :: string where "UPDATEVALVESTATE = ''updatevalvestate''"
definition GETVALVESTATE :: string where "GETVALVESTATE = ''getvalvestatus''"
definition ADDSYSTEMTYPE :: string where "ADDSYSTEMTYPE = ''addsystemtype''"
definition GETSYSTEMTYPES :: string where "GETSYSTEMTYPES = ''getsystemtypes''"
definition GETLOGIN :: string where "GETLOGIN = ''getlogin''"
definition UPDATESERVICEX :: string where "UPDATESERVICEX = ''updateservicex''"
definition SERVICE :: string where "SERVICE = ''service''"

definition auth_CommandQueue :: string where "auth_CommandQueue = ''/queue/authorization/command''"
definition auth_EventQueue :: string where "auth_EventQueue = ''/queue/authorization''"
definition auth_ReplyPrefix :: string where "auth_ReplyPrefix = ''/queue/authorization/reply.''"

subsection \<open>Data\<close>

text \<open>The credentials are a \<open>map[string]string\<close>: its entries, or \<open>None\<close> for the nil map.\<close>

record AuthService =
  svc_ServiceType :: int
  svc_Ip :: string
  svc_AuthType :: int
  svc_Auth :: "(string \<times> string) list option"
  svc_State :: string

definition zero_service :: AuthService where
  "zero_service = \<lparr>svc_ServiceType = 0, svc_Ip = [], svc_AuthType = 0, svc_Auth = None, svc_State = []\<rparr>"

definition auth_entry :: "AuthService \<Rightarrow> string \<Rightarrow> string" where
  "auth_entry s k =
     (case svc_Auth s of None \<Rightarrow> [] | Some m \<Rightarrow> (case map_of m k of None \<Rightarrow> [] | Some v \<Rightarrow> v))"

record ServiceItem =
  si_Service :: AuthService
  si_ServiceIP :: string
  si_Systemtypedesc :: string
  si_IsForcefulshutdown :: bool
  si_Timeout :: int

definition zero_item :: ServiceItem where
  "zero_item = \<lparr>si_Service = zero_service, si_ServiceIP = [], si_Systemtypedesc = [],
     si_IsForcefulshutdown = False, si_Timeout = 0\<rparr>"

record SplunkConfig =
  sc_Url :: string
  sc_Key :: string
  sc_Index :: string

definition zero_splunk :: SplunkConfig where
  "zero_splunk = \<lparr>sc_Url = [], sc_Key = [], sc_Index = []\<rparr>"

record ValveState =
  vs_Ip :: string
  vs_VState1 :: string
  vs_VState2 :: string

record Login =
  lg_Username :: string
  lg_Password :: string
  lg_JwtVersion :: int

definition service_string :: "AuthService \<Rightarrow> string" where
  "service_string s =
     ''ServiceType: '' @ int_dec (svc_ServiceType s) @ '', Ip: '' @ svc_Ip s @ '', AuthType: ''
     @ int_dec (svc_AuthType s) @ '', Auth: *****, State: '' @ svc_State s"

definition item_string :: "ServiceItem \<Rightarrow> string" where
  "item_string i =
     ''ServiceType: '' @ int_dec (svc_ServiceType (si_Service i)) @ '', Ip: '' @ svc_Ip (si_Service i)
     @ '', AuthType: '' @ int_dec (svc_AuthType (si_Service i)) @ '', Auth: *****, State: ''
     @ svc_State (si_Service i) @ '', ServiceIP: '' @ si_ServiceIP i @ '', Systemtypedesc: ''
     @ si_Systemtypedesc i @ '', IsForcefulshutdown: ''
     @ (if si_IsForcefulshutdown i then ''true'' else ''false'') @ '', Timeout: '' @ int_dec (si_Timeout i)"

subsection \<open>JSON form\<close>

definition service_members :: "AuthService \<Rightarrow> (string \<times> json) list" where
  "service_members s =
     [(''serviceType'', enc_int (svc_ServiceType s)),
      (''ip'', JStr (svc_Ip s)),
      (''authType'', enc_int (svc_AuthType s)),
      (''auth'', enc_strmap (svc_Auth s)),
      (''state'', JStr (svc_State s))]"

definition enc_service :: "AuthService \<Rightarrow> json" where
  "enc_service s = JObj (service_members s)"

definition service_field :: "string \<Rightarrow> AuthService dec" where
  "service_field k =
     (if equal_fold k ''serviceType'' then dec_field dec_int svc_ServiceType (\<lambda>v. svc_ServiceType_update (\<lambda>_. v))
      else if equal_fold k ''ip'' then dec_field dec_string svc_Ip (\<lambda>v. svc_Ip_update (\<lambda>_. v))
      else if equal_fold k ''authType'' then dec_field dec_int svc_AuthType (\<lambda>v. svc_AuthType_update (\<lambda>_. v))
      else if equal_fold k ''auth'' then dec_field dec_strmap svc_Auth (\<lambda>v. svc_Auth_update (\<lambda>_. v))
      else if equal_fold k ''state'' then dec_field dec_string svc_State (\<lambda>v. svc_State_update (\<lambda>_. v))
      else (\<lambda>j x. (x, True)))"

definition dec_service :: "AuthService dec" where
  "dec_service = dec_struct service_field"

text \<open>The fields of the embedded service appear at the level of the item.\<close>

definition enc_item :: "ServiceItem \<Rightarrow> json" where
  "enc_item i =
     JObj (service_members (si_Service i) @
       [(''serviceIp'', JStr (si_ServiceIP i)),
        (''systemtypedesc'', JStr (si_Systemtypedesc i)),
        (''isforcefulshutdown'', JBool (si_IsForcefulshutdown i)),
        (''timeout'', enc_int (si_Timeout i))])"

definition item_field :: "string \<Rightarrow> ServiceItem dec" where
  "item_field k =
     (if equal_fold k ''serviceIp'' then dec_field dec_string si_ServiceIP (\<lambda>v. si_ServiceIP_update (\<lambda>_. v))
      else if equal_fold k ''systemtypedesc'' then
        dec_field dec_string si_Systemtypedesc (\<lambda>v. si_Systemtypedesc_update (\<lambda>_. v))
      else if equal_fold k ''isforcefulshutdown'' then
        dec_field dec_bool si_IsForcefulshutdown (\<lambda>v. si_IsForcefulshutdown_update (\<lambda>_. v))
      else if equal_fold k ''timeout'' then dec_field dec_int si_Timeout (\<lambda>v. si_Timeout_update (\<lambda>_. v))
      else dec_field (service_field k) si_Service (\<lambda>v. si_Service_update (\<lambda>_. v)))"

definition dec_item :: "ServiceItem dec" where
  "dec_item = dec_struct item_field"

definition enc_splunk :: "SplunkConfig \<Rightarrow> json" where
  "enc_splunk c =
     JObj (opt_str ''url'' (sc_Url c) @ opt_str ''key'' (sc_Key c) @ opt_str ''index'' (sc_Index c))"

definition splunk_field :: "string \<Rightarrow> SplunkConfig dec" where
  "splunk_field k =
     (if equal_fold k ''url'' then dec_field dec_string sc_Url (\<lambda>v. sc_Url_update (\<lambda>_. v))
      else if equal_fold k ''key'' then dec_field dec_string sc_Key (\<lambda>v. sc_Key_update (\<lambda>_. v))
      else if equal_fold k ''index'' then dec_field dec_string sc_Index (\<lambda>v. sc_Index_update (\<lambda>_. v))
      else (\<lambda>j x. (x, True)))"

definition dec_splunk :: "SplunkConfig dec" where
  "dec_splunk = dec_struct splunk_field"

definition enc_valve :: "ValveState \<Rightarrow> json" where
  "enc_valve v =
     JObj [(''ip'', JStr (vs_Ip v)), (''state1'', JStr (vs_VState1 v)), (''state2'', JStr (vs_VState2 v))]"

definition valve_field :: "string \<Rightarrow> ValveState dec" where
  "valve_field k =
     (if equal_fold k ''ip'' then dec_field dec_string vs_Ip (\<lambda>v. vs_Ip_update (\<lambda>_. v))
      else if equal_fold k ''state1'' then dec_field dec_string vs_VState1 (\<lambda>v. vs_VState1_update (\<lambda>_. v))
      else if equal_fold k ''state2'' then dec_field dec_string vs_VState2 (\<lambda>v. vs_VState2_update (\<lambda>_. v))
      else (\<lambda>j x. (x, True)))"

definition dec_valve :: "ValveState dec" where
  "dec_valve = dec_struct valve_field"

definition enc_login :: "Login \<Rightarrow> json" where
  "enc_login l =
     JObj [(''username'', JStr (lg_Username l)), (''password'', JStr (lg_Password l)),
           (''jwtVersion'', enc_int (lg_JwtVersion l))]"

definition login_field :: "string \<Rightarrow> Login dec" where
  "login_field k =
     (if equal_fold k ''username'' then dec_field dec_string lg_Username (\<lambda>v. lg_Username_update (\<lambda>_. v))
      else if equal_fold k ''password'' then dec_field dec_string lg_Password (\<lambda>v. lg_Password_update (\<lambda>_. v))
      else if equal_fold k ''jwtVersion'' then dec_field dec_int lg_JwtVersion (\<lambda>v. lg_JwtVersion_update (\<lambda>_. v))
      else (\<lambda>j x. (x, True)))"

definition dec_login :: "Login dec" where
  "dec_login = dec_struct login_field"

subsection \<open>The service\<close>

definition NewAuthorizationService :: "'b \<Rightarrow> 'b BaseService" where
  "NewAuthorizationService bus = NewBaseService bus auth_CommandQueue"

definition BroadcastService :: "'b bus_ops \<Rightarrow> 'b \<Rightarrow> AuthService \<Rightarrow> 'b \<times> unit outcome" where
  "BroadcastService ops b svc =
     send_new ops b auth_EventQueue (NewEnvelope SERVICE (PVal (enc_service svc)))"

subsection \<open>The client: commands\<close>

definition NewAuthorizationClient :: "'b \<Rightarrow> string \<Rightarrow> 'b BaseClient" where
  "NewAuthorizationClient bus clientName =
     NewBaseClient bus auth_CommandQueue auth_ReplyPrefix clientName (ReadTimeout * 1000000000)"

definition GetHECConfig :: "'b bus_ops \<Rightarrow> 'b BaseClient \<Rightarrow> 'b BaseClient" where
  "GetHECConfig ops ac = fst (client_Send ops ac GETHECCONFIG PNil)"

definition ResendAll :: "'b bus_ops \<Rightarrow> 'b BaseClient \<Rightarrow> 'b BaseClient" where
  "ResendAll ops ac = fst (client_Send ops ac RESEND PNil)"

definition SplunkAddHEC :: "'b bus_ops \<Rightarrow> 'b BaseClient \<Rightarrow> SplunkConfig \<Rightarrow> 'b BaseClient \<times> unit outcome" where
  "SplunkAddHEC ops ac c = client_Send ops ac SPLUNKADDHEC (PVal (enc_splunk c))"

definition AddService :: "'b bus_ops \<Rightarrow> 'b BaseClient \<Rightarrow> AuthService \<Rightarrow> 'b BaseClient \<times> unit outcome" where
  "AddService ops ac s = client_Send ops ac ADDSERVICE (PVal (enc_service s))"

definition DeleteService :: "'b bus_ops \<Rightarrow> 'b BaseClient \<Rightarrow> AuthService \<Rightarrow> 'b BaseClient \<times> unit outcome" where
  "DeleteService ops ac s = client_Send ops ac DELETESERVICE (PVal (enc_service s))"

definition UpdateService :: "'b bus_ops \<Rightarrow> 'b BaseClient \<Rightarrow> AuthService \<Rightarrow> 'b BaseClient \<times> unit outcome" where
  "UpdateService ops ac s = client_Send ops ac UPDATESERVICE (PVal (enc_service s))"

definition UpdateLogin :: "'b bus_ops \<Rightarrow> 'b BaseClient \<Rightarrow> Login \<Rightarrow> 'b BaseClient \<times> unit outcome" where
  "UpdateLogin ops ac l = client_Send ops ac UPDATELOGIN (PVal (enc_login l))"

text \<open>The error of the send is dropped: only an unknown state is reported.\<close>

definition UpdateServiceState ::
  "'b bus_ops \<Rightarrow> 'b BaseClient \<Rightarrow> string \<Rightarrow> string \<Rightarrow> 'b BaseClient \<times> gerror option" where
  "UpdateServiceState ops ac state sip =
     (if state \<in> {CONNFAILED, STARTING, RUNNING, TELNOTFOUND, RUNNINGWOTEL, LEAKED, MONITORING} then
        (fst (UpdateService ops ac (zero_service\<lparr>svc_Ip := sip, svc_State := state\<rparr>)), None)
      else (ac, Some (''invalid state '' @ state)))"

definition UpdateValveState ::
  "'b bus_ops \<Rightarrow> 'b BaseClient \<Rightarrow> string \<Rightarrow> string \<Rightarrow> string \<Rightarrow> 'b BaseClient \<times> unit outcome" where
  "UpdateValveState ops ac ip state1 state2 =
     client_Send ops ac UPDATEVALVESTATE
       (PVal (enc_valve \<lparr>vs_Ip = ip, vs_VState1 = state1, vs_VState2 = state2\<rparr>))"

definition AddServiceItem :: "'b bus_ops \<Rightarrow> 'b BaseClient \<Rightarrow> ServiceItem \<Rightarrow> 'b BaseClient \<times> unit outcome" where
  "AddServiceItem ops ac si = client_Send ops ac ADDSERVICEITEM (PVal (enc_item si))"

definition DeleteServiceItem :: "'b bus_ops \<Rightarrow> 'b BaseClient \<Rightarrow> ServiceItem \<Rightarrow> 'b BaseClient \<times> unit outcome" where
  "DeleteServiceItem ops ac si = client_Send ops ac DELETESERVICEITEM (PVal (enc_item si))"

definition UpdateServiceX :: "'b bus_ops \<Rightarrow> 'b BaseClient \<Rightarrow> AuthService \<Rightarrow> 'b BaseClient \<times> unit outcome" where
  "UpdateServiceX ops ac s = client_Send ops ac UPDATESERVICEX (PVal (enc_service s))"

definition UpdateServiceXState ::
  "'b bus_ops \<Rightarrow> 'b BaseClient \<Rightarrow> string \<Rightarrow> string \<Rightarrow> 'b BaseClient \<times> unit outcome" where
  "UpdateServiceXState ops ac state ip =
     UpdateServiceX ops ac (zero_service\<lparr>svc_Ip := ip, svc_State := state\<rparr>)"

definition UpdateServiceItem :: "'b bus_ops \<Rightarrow> 'b BaseClient \<Rightarrow> ServiceItem \<Rightarrow> 'b BaseClient \<times> unit outcome" where
  "UpdateServiceItem ops ac si = client_Send ops ac UPDATESERVICEITEM (PVal (enc_item si))"

definition UpdateServiceItemState ::
  "'b bus_ops \<Rightarrow> 'b BaseClient \<Rightarrow> string \<Rightarrow> string \<Rightarrow> 'b BaseClient \<times> gerror option" where
  "UpdateServiceItemState ops ac state siip =
     (if state \<in> {SHUTDOWNRECEIVED, SHUTDOWNFAILED, CONNFAILED, RUNNING, POWERSTATEON, POWERSTATEOFF} then
        (fst (UpdateServiceItem ops ac
           (zero_item\<lparr>si_Service := zero_service\<lparr>svc_Ip := siip, svc_State := state\<rparr>\<rparr>)), None)
      else (ac, Some (''invalid state '' @ state)))"

definition AddSystemType :: "'b bus_ops \<Rightarrow> 'b BaseClient \<Rightarrow> string \<Rightarrow> 'b BaseClient \<times> unit outcome" where
  "AddSystemType ops ac sysType = client_Send ops ac ADDSYSTEMTYPE (PVal (JStr sysType))"

subsection \<open>The client: queries\<close>

text \<open>Each query is a \<open>Call\<close>; an error of any kind becomes the default the code returns.\<close>

definition query ::
  "'b BaseClient \<times> ('a \<times> gerror option) outcome \<Rightarrow> 'a \<Rightarrow> 'b BaseClient \<times> 'a outcome" where
  "query r dflt =
     (case r of
        (ac, Ok (x, None)) \<Rightarrow> (ac, Ok x)
      | (ac, Ok (x, Some e)) \<Rightarrow> (ac, Ok dflt)
      | (ac, Err e) \<Rightarrow> (ac, Ok dflt)
      | (ac, Panic w) \<Rightarrow> (ac, Panic w)
      | (ac, Exit n) \<Rightarrow> (ac, Exit n))"

definition GetAllServices ::
  "'b bus_ops \<Rightarrow> nat \<Rightarrow> entropy \<Rightarrow> string list \<Rightarrow> 'b BaseClient \<Rightarrow> 'b BaseClient \<times> AuthService list outcome" where
  "GetAllServices ops ch rnd arrivals ac =
     query (Call ops ch rnd arrivals GETALLSERVICES PNil (Some (dec_list dec_service zero_service)) [] ac) []"

definition GetAllSystemTypes ::
  "'b bus_ops \<Rightarrow> nat \<Rightarrow> entropy \<Rightarrow> string list \<Rightarrow> 'b BaseClient \<Rightarrow> 'b BaseClient \<times> string list outcome" where
  "GetAllSystemTypes ops ch rnd arrivals ac =
     query (Call ops ch rnd arrivals GETSYSTEMTYPES PNil (Some (dec_list dec_string [])) [] ac) []"

definition GetValveStatus ::
  "'b bus_ops \<Rightarrow> nat \<Rightarrow> entropy \<Rightarrow> string list \<Rightarrow> 'b BaseClient \<Rightarrow> 'b BaseClient \<times> ValveState list outcome" where
  "GetValveStatus ops ch rnd arrivals ac =
     query (Call ops ch rnd arrivals GETVALVESTATE PNil
       (Some (dec_list dec_valve \<lparr>vs_Ip = [], vs_VState1 = [], vs_VState2 = []\<rparr>)) [] ac) []"

definition GetServiceWithIP ::
  "'b bus_ops \<Rightarrow> nat \<Rightarrow> entropy \<Rightarrow> string list \<Rightarrow> string \<Rightarrow> 'b BaseClient \<Rightarrow> 'b BaseClient \<times> AuthService outcome" where
  "GetServiceWithIP ops ch rnd arrivals ip ac =
     query (Call ops ch rnd arrivals GETSERVICE (PVal (enc_service (zero_service\<lparr>svc_Ip := ip\<rparr>)))
       (Some dec_service) zero_service ac) zero_service"

definition GetLogin ::
  "'b bus_ops \<Rightarrow> nat \<Rightarrow> entropy \<Rightarrow> string list \<Rightarrow> 'b BaseClient \<Rightarrow> 'b BaseClient \<times> Login outcome" where
  "GetLogin ops ch rnd arrivals ac =
     query (Call ops ch rnd arrivals GETLOGIN PNil (Some dec_login)
       \<lparr>lg_Username = [], lg_Password = [], lg_JwtVersion = 0\<rparr> ac)
       \<lparr>lg_Username = [], lg_Password = [], lg_JwtVersion = 0\<rparr>"

definition GetServiceItems ::
  "'b bus_ops \<Rightarrow> nat \<Rightarrow> entropy \<Rightarrow> string list \<Rightarrow> string \<Rightarrow> 'b BaseClient \<Rightarrow> 'b BaseClient \<times> ServiceItem list outcome" where
  "GetServiceItems ops ch rnd arrivals sip ac =
     query (Call ops ch rnd arrivals GETSERVICEITEMS (PVal (enc_item (zero_item\<lparr>si_ServiceIP := sip\<rparr>)))
       (Some (dec_list dec_item zero_item)) [] ac) []"

definition GetServiceItemWithIP ::
  "'b bus_ops \<Rightarrow> nat \<Rightarrow> entropy \<Rightarrow> string list \<Rightarrow> string \<Rightarrow> 'b BaseClient \<Rightarrow> 'b BaseClient \<times> ServiceItem outcome" where
  "GetServiceItemWithIP ops ch rnd arrivals siip ac =
     (case query (Call ops ch rnd arrivals GETSERVICEITEM
              (PVal (enc_item (zero_item\<lparr>si_Service := zero_service\<lparr>svc_Ip := siip\<rparr>\<rparr>)))
              (Some (dec_list dec_item zero_item)) [] ac) [] of
        (ac', r) \<Rightarrow> (ac', outcome_bind r (\<lambda>items. Ok (case items of [i] \<Rightarrow> i | _ \<Rightarrow> zero_item))))"

text \<open>
  \<open>GetService\<close> listens for broadcasts on the event queue until its context is done, and
  passes on each payload that decodes; others are skipped.
\<close>

fun decode_services :: "Envelope list \<Rightarrow> AuthService list" where
  "decode_services [] = []"
| "decode_services (env # envs) =
     (case DecodePayload (env_payload env) (Some dec_service) zero_service of
        (svc, Some e) \<Rightarrow> decode_services envs
      | (svc, None) \<Rightarrow> svc # decode_services envs)"

definition GetService ::
  "'b bus_ops \<Rightarrow> nat \<Rightarrow> 'b BaseClient \<Rightarrow> listen_event list \<Rightarrow> 'b BaseClient \<times> AuthService list \<times> bool" where
  "GetService ops ch ac events =
     (case ListenToQueueFiltered ops ch (bc_Bus ac) auth_EventQueue SERVICE events of
        (b, envs, closed) \<Rightarrow> (ac\<lparr>bc_Bus := b\<rparr>, decode_services envs, closed))"

subsection \<open>Lemmas\<close>

text \<open>A service whose numbers fit their 64 bits and whose credentials are listed by key.\<close>

definition int64_ok :: "int \<Rightarrow> bool" where
  "int64_ok i \<longleftrightarrow> int64_min \<le> i \<and> i \<le> int64_max"

definition service_ok :: "AuthService \<Rightarrow> bool" where
  "service_ok s \<longleftrightarrow> int64_ok (svc_ServiceType s) \<and> int64_ok (svc_AuthType s)
     \<and> (case svc_Auth s of None \<Rightarrow> True | Some m \<Rightarrow> kv_sorted m)"

lemma auth_fields [wire_simps]:
  "equal_fold ''serviceType'' ''serviceType''"
  "\<not> equal_fold ''ip'' ''serviceType''"
  "\<not> equal_fold ''authType'' ''serviceType''" "\<not> equal_fold ''authType'' ''ip''"
  "\<not> equal_fold ''auth'' ''serviceType''" "\<not> equal_fold ''auth'' ''ip''" "\<not> equal_fold ''auth'' ''authType''"
  "\<not> equal_fold ''state'' ''serviceType''" "\<not> equal_fold ''state'' ''ip''"
  "\<not> equal_fold ''state'' ''authType''" "\<not> equal_fold ''state'' ''auth''"
  by (simp_all add: fold_eval)

lemma item_fields [wire_simps]:
  "\<not> equal_fold ''serviceType'' ''serviceIp''" "\<not> equal_fold ''serviceType'' ''systemtypedesc''"
  "\<not> equal_fold ''serviceType'' ''isforcefulshutdown''" "\<not> equal_fold ''serviceType'' ''timeout''"
  "\<not> equal_fold ''ip'' ''serviceIp''" "\<not> equal_fold ''ip'' ''systemtypedesc''"
  "\<not> equal_fold ''ip'' ''isforcefulshutdown''" "\<not> equal_fold ''ip'' ''timeout''"
  "\<not> equal_fold ''authType'' ''serviceIp''" "\<not> equal_fold ''authType'' ''systemtypedesc''"
  "\<not> equal_fold ''authType'' ''isforcefulshutdown''" "\<not> equal_fold ''authType'' ''timeout''"
  "\<not> equal_fold ''auth'' ''serviceIp''" "\<not> equal_fold ''auth'' ''systemtypedesc''"
  "\<not> equal_fold ''auth'' ''isforcefulshutdown''" "\<not> equal_fold ''auth'' ''timeout''"
  "\<not> equal_fold ''state'' ''serviceIp''" "\<not> equal_fold ''state'' ''systemtypedesc''"
  "\<not> equal_fold ''state'' ''isforcefulshutdown''" "\<not> equal_fold ''state'' ''timeout''"
  "\<not> equal_fold ''systemtypedesc'' ''serviceIp''"
  "\<not> equal_fold ''isforcefulshutdown'' ''serviceIp''" "\<not> equal_fold ''isforcefulshutdown'' ''systemtypedesc''"
  "\<not> equal_fold ''timeout'' ''serviceIp''" "\<not> equal_fold ''timeout'' ''systemtypedesc''"
  "\<not> equal_fold ''timeout'' ''isforcefulshutdown''"
  by (simp_all add: fold_eval)

lemma service_field_simps [wire_simps]:
  "service_field ''serviceType'' = dec_field dec_int svc_ServiceType (\<lambda>v. svc_ServiceType_update (\<lambda>_. v))"
  "service_field ''ip'' = dec_field dec_string svc_Ip (\<lambda>v. svc_Ip_update (\<lambda>_. v))"
  "service_field ''authType'' = dec_field dec_int svc_AuthType (\<lambda>v. svc_AuthType_update (\<lambda>_. v))"
  "service_field ''auth'' = dec_field dec_strmap svc_Auth (\<lambda>v. svc_Auth_update (\<lambda>_. v))"
  "service_field ''state'' = dec_field dec_string svc_State (\<lambda>v. svc_State_update (\<lambda>_. v))"
  by (simp_all add: service_field_def wire_simps)

lemma item_field_simps [wire_simps]:
  "item_field ''serviceIp'' = dec_field dec_string si_ServiceIP (\<lambda>v. si_ServiceIP_update (\<lambda>_. v))"
  "item_field ''systemtypedesc'' = dec_field dec_string si_Systemtypedesc (\<lambda>v. si_Systemtypedesc_update (\<lambda>_. v))"
  "item_field ''isforcefulshutdown'' =
     dec_field dec_bool si_IsForcefulshutdown (\<lambda>v. si_IsForcefulshutdown_update (\<lambda>_. v))"
  "item_field ''timeout'' = dec_field dec_int si_Timeout (\<lambda>v. si_Timeout_update (\<lambda>_. v))"
  "item_field ''serviceType'' = dec_field (service_field ''serviceType'') si_Service (\<lambda>v. si_Service_update (\<lambda>_. v))"
  "item_field ''ip'' = dec_field (service_field ''ip'') si_Service (\<lambda>v. si_Service_update (\<lambda>_. v))"
  "item_field ''authType'' = dec_field (service_field ''authType'') si_Service (\<lambda>v. si_Service_update (\<lambda>_. v))"
  "item_field ''auth'' = dec_field (service_field ''auth'') si_Service (\<lambda>v. si_Service_update (\<lambda>_. v))"
  "item_field ''state'' = dec_field (service_field ''state'') si_Service (\<lambda>v. si_Service_update (\<lambda>_. v))"
  by (simp_all add: item_field_def wire_simps)

lemma dec_enc_service [wire_simps]:
  assumes "service_ok s"
  shows "dec_service (enc_service s) zero_service = (s, True)"
proof -
  have "dec_strmap (enc_strmap (svc_Auth s)) None = (svc_Auth s, True)"
    using assms by (intro dec_strmap_enc) (simp add: service_ok_def)
  with assms show ?thesis
    by (simp add: dec_service_def dec_struct_def enc_service_def service_members_def dec_field_def
        wire_simps zero_service_def service_ok_def int64_ok_def)
qed

lemma dec_enc_item [wire_simps]:
  assumes "service_ok (si_Service i)" and "int64_ok (si_Timeout i)"
  shows "dec_item (enc_item i) zero_item = (i, True)"
proof -
  have "dec_strmap (enc_strmap (svc_Auth (si_Service i))) None = (svc_Auth (si_Service i), True)"
    using assms by (intro dec_strmap_enc) (simp add: service_ok_def)
  with assms show ?thesis
    by (simp add: dec_item_def dec_struct_def enc_item_def service_members_def dec_field_def
        wire_simps zero_service_def zero_item_def service_ok_def int64_ok_def)
qed

lemma json_ok_enc_service [wire_simps]: "json_ok (enc_service s)" "json_ok (enc_item i)"
  "json_ok (enc_login l)" "json_ok (enc_valve v)" "json_ok (enc_splunk c)"
  by (simp_all add: enc_service_def enc_item_def enc_login_def enc_valve_def enc_splunk_def
      service_members_def wire_simps)

subsection \<open>Commands and calls on the mock bus\<close>

lemma mock_client_Send:
  assumes "json_ok j" and "mb_sendError (bc_Bus ac) = None"
  shows "\<exists>ac' m. client_Send mock_ops ac t (PVal j) = (ac', Ok ())
    \<and> mb_queueMsgs (bc_Bus ac') = (mb_queueMsgs (bc_Bus ac))
        (bc_CommandQueue ac := mb_queueMsgs (bc_Bus ac) (bc_CommandQueue ac) @ [m])
    \<and> DecodeEnvelope m = (empty_envelope\<lparr>env_type := t, env_payload := json_print j\<rparr>, None)"
proof -
  obtain ac' r where c: "client_Send mock_ops ac t (PVal j) = (ac', r)" by (cases "client_Send mock_ops ac t (PVal j)")
  have "r = Ok ()"
    using c mock_send_envelope_ok [of "empty_envelope\<lparr>env_type := t, env_payload := json_print j\<rparr>" "bc_Bus ac" "bc_CommandQueue ac"] assms
    by (auto simp: client_Send_def client_SendTo_def send_new_def NewEnvelope_def EncodePayload_def split: prod.splits)
  with c mock.client_SendTo_sent [of "PVal j" ac "bc_CommandQueue ac" t ac'] assms show ?thesis
    by (auto simp: client_Send_def EncodePayload_def)
qed

definition foreign :: "string \<Rightarrow> string \<Rightarrow> bool" where
  "foreign cid m \<longleftrightarrow> (case DecodeEnvelope m of (env, None) \<Rightarrow> env_correlation_id env \<noteq> cid | _ \<Rightarrow> True)"

lemma fold_foreign:
  "\<forall>m\<in>set ms. foreign cid m \<Longrightarrow> bc_Pending (fold reply_message ms bc) cid = bc_Pending bc cid"
  by (induction ms arbitrary: bc)
     (auto simp: foreign_def reply_message_Pending split: prod.splits option.splits)

lemma fold_delivered:
  "bc_Pending bc cid = Some (Some env) \<Longrightarrow> bc_Pending (fold reply_message ms bc) cid = Some (Some env)"
  by (induction ms arbitrary: bc) (simp_all add: reply_message_Pending)

text \<open>A call whose request goes out returns the first reply that carries its id.\<close>

lemma Call_first_reply:
  assumes "call_begin ops ch rnd t p bc = (bc1, Ok cid)"
    and "\<forall>m\<in>set before. foreign cid m" and "DecodeEnvelope m = (env, None)" and "env_correlation_id env = cid"
  shows "\<exists>bc'. Call ops ch rnd (before @ m # after) t p d x bc = (bc', Ok (call_result d x env))"
proof -
  let ?bc2 = "fold reply_message (before @ m # after) bc1"
  have "bc_Pending bc1 cid = Some None" using call_begin_Ok(2) [OF assms(1)] by simp
  then have "bc_Pending (fold reply_message before bc1) cid = Some None" using fold_foreign [OF assms(2), of bc1] by simp
  then have "bc_Pending (reply_message m (fold reply_message before bc1)) cid = Some (Some env)"
    using assms(3,4) by (simp add: reply_message_Pending)
  then have "bc_Pending ?bc2 cid = Some (Some env)" by (simp add: fold_delivered)
  then show ?thesis using assms(1) by (simp add: Call_def Let_def call_reply_def)
qed

lemma Call_no_reply:
  assumes "call_begin ops ch rnd t p bc = (bc1, Ok cid)" and "\<forall>m\<in>set arrivals. foreign cid m"
  shows "\<exists>bc' e. Call ops ch rnd arrivals t p d x bc = (bc', Ok (x, Some e))"
proof -
  have "bc_Pending bc1 cid = Some None" using call_begin_Ok(2) [OF assms(1)] by simp
  then have "bc_Pending (fold reply_message arrivals bc1) cid = Some None" using fold_foreign [OF assms(2), of bc1] by simp
  then show ?thesis using assms(1) by (simp add: Call_def Let_def call_reply_def call_timeout_def)
qed

lemma dec_enc_services:
  "\<forall>s\<in>set ss. service_ok s \<Longrightarrow> dec_list dec_service zero_service (JArr (map enc_service ss)) old = (ss, True)"
  by (rule dec_list_map) (simp add: wire_simps)

subsection \<open>Properties\<close>

text \<open>A state change is sent exactly for the seven states the service knows: it puts one
  \<open>updateservice\<close> command on the command queue, whose payload decodes to a service with that
  address and state and nothing else; for any other state nothing is sent and the error
  names the state.\<close>

theorem UpdateServiceState_command:
  assumes "mb_sendError (bc_Bus ac) = None"
  shows "if state \<in> {CONNFAILED, STARTING, RUNNING, TELNOTFOUND, RUNNINGWOTEL, LEAKED, MONITORING} then
      (\<exists>ac' m env. UpdateServiceState mock_ops ac state ip = (ac', None)
         \<and> mb_queueMsgs (bc_Bus ac') = (mb_queueMsgs (bc_Bus ac))
             (bc_CommandQueue ac := mb_queueMsgs (bc_Bus ac) (bc_CommandQueue ac) @ [m])
         \<and> DecodeEnvelope m = (env, None) \<and> env_type env = UPDATESERVICE
         \<and> DecodePayload (env_payload env) (Some dec_service) zero_service =
             (\<lparr>svc_ServiceType = UNKNOWN, svc_Ip = ip, svc_AuthType = 0, svc_Auth = None, svc_State = state\<rparr>, None))
    else UpdateServiceState mock_ops ac state ip = (ac, Some (''invalid state '' @ state))"
proof -
  let ?s = "zero_service\<lparr>svc_Ip := ip, svc_State := state\<rparr>"
  have "service_ok ?s" by (simp add: service_ok_def zero_service_def int64_ok_def int64_min_def int64_max_def)
  then have "DecodePayload (json_print (enc_service ?s)) (Some dec_service) zero_service = (?s, None)"
    using DecodePayload_print [of "enc_service ?s" dec_service zero_service ?s] by (simp add: wire_simps)
  moreover from mock_client_Send [of "enc_service ?s" ac UPDATESERVICE] assms obtain ac' m where
    "UpdateService mock_ops ac ?s = (ac', Ok ())"
    "mb_queueMsgs (bc_Bus ac') = (mb_queueMsgs (bc_Bus ac))
       (bc_CommandQueue ac := mb_queueMsgs (bc_Bus ac) (bc_CommandQueue ac) @ [m])"
    "DecodeEnvelope m = (empty_envelope\<lparr>env_type := UPDATESERVICE, env_payload := json_print (enc_service ?s)\<rparr>, None)"
    by (auto simp: UpdateService_def wire_simps)
  ultimately show ?thesis
    by (auto simp: UpdateServiceState_def zero_service_def UNKNOWN_def)
qed

theorem UpdateServiceState_command_witness:
  "UpdateServiceState mock_ops (NewAuthorizationClient NewMockMessageBus ''ui'') ''Exploded'' ''10.0.0.1'' =
     (NewAuthorizationClient NewMockMessageBus ''ui'', Some ''invalid state Exploded'')"
  using UpdateServiceState_command [of "NewAuthorizationClient NewMockMessageBus ''ui''" "''Exploded''" "''10.0.0.1''"]
  by (simp add: NewAuthorizationClient_def NewBaseClient_def NewMockMessageBus_def
      CONNFAILED_def STARTING_def RUNNING_def TELNOTFOUND_def RUNNINGWOTEL_def LEAKED_def MONITORING_def)

text \<open>The list of all services: the first reply that carries the request's correlation
  id decides, whatever else arrives before or after it; when it carries services, exactly
  those are returned, in order; when no such reply arrives the result is the empty list.\<close>

theorem GetAllServices_result:
  assumes "mb_sendError (bc_Bus ac) = None" and "\<not> bc_ReplyOnce ac"
    and "\<forall>m\<in>set before. foreign (NewCorrelationID rnd ''req'') m"
    and "\<forall>s\<in>set ss. service_ok s"
    and "DecodeEnvelope m = (\<lparr>env_type = GETALLSERVICES, env_correlation_id = NewCorrelationID rnd ''req'',
        env_reply_to = [], env_status = StatusOK, env_error = [], env_payload = json_print (JArr (map enc_service ss))\<rparr>, None)"
  shows "snd (GetAllServices mock_ops ch rnd (before @ m # after) ac) = Ok ss
    \<and> snd (GetAllServices mock_ops ch rnd before ac) = Ok []"
proof
  from mock_call_begin_ok [of PNil ac] assms(1,2) obtain c where
    b: "call_begin mock_ops ch rnd GETALLSERVICES PNil ac = (c, Ok (NewCorrelationID rnd ''req''))" by fastforce
  have "json_ok (JArr (map enc_service ss))" by (simp add: list_all_iff wire_simps)
  then have res: "call_result (Some (dec_list dec_service zero_service)) [] (fst (DecodeEnvelope m)) = (ss, None)"
    using DecodePayload_print [of "JArr (map enc_service ss)" "dec_list dec_service zero_service" "[]" ss]
      dec_enc_services [OF assms(4)] assms(5)
    by (simp add: call_result_def StatusOK_def StatusError_def)
  from Call_first_reply [OF b assms(3) assms(5), of after "Some (dec_list dec_service zero_service)" "[]"] res
  show "snd (GetAllServices mock_ops ch rnd (before @ m # after) ac) = Ok ss"
    by (fastforce simp: GetAllServices_def query_def assms(5))
  from Call_no_reply [OF b assms(3), of "Some (dec_list dec_service zero_service)" "[]"]
  show "snd (GetAllServices mock_ops ch rnd before ac) = Ok []"
    by (fastforce simp: GetAllServices_def query_def)
qed

theorem GetAllServices_result_witness:
  "\<exists>m. snd (GetAllServices mock_ops 0 (None, 7) [''noise'', m] (NewAuthorizationClient NewMockMessageBus ''ui''))
     = Ok [zero_service\<lparr>svc_Ip := ''10.0.0.1'', svc_ServiceType := IDRAC\<rparr>]"
proof -
  let ?ac = "NewAuthorizationClient NewMockMessageBus ''ui''"
  let ?s = "zero_service\<lparr>svc_Ip := ''10.0.0.1'', svc_ServiceType := IDRAC\<rparr>"
  let ?e = "\<lparr>env_type = GETALLSERVICES, env_correlation_id = NewCorrelationID (None, 7) ''req'',
        env_reply_to = [], env_status = StatusOK, env_error = [], env_payload = json_print (JArr (map enc_service [?s]))\<rparr>"
  have "raw_ok (env_payload ?e)"
    by (auto simp: raw_ok_def wire_simps intro!: exI [of _ "JArr (map enc_service [?s])"])
  then obtain m where m: "DecodeEnvelope m = (?e, None)" using EncodeEnvelope_Ok by blast
  have "mb_sendError (bc_Bus ?ac) = None" "\<not> bc_ReplyOnce ?ac"
    by (simp_all add: NewAuthorizationClient_def NewBaseClient_def NewMockMessageBus_def)
  moreover have "foreign (NewCorrelationID (None, 7) ''req'') ''noise''"
    by (simp add: foreign_def DecodeEnvelope_def unmarshal_def json_parse_def is_ws_def special_chars
        parse_num_def parse_unsigned_def num_int_def num_digits_def is_digit_def numeral_eq_Suc)
  moreover have "service_ok ?s"
    by (simp add: service_ok_def zero_service_def int64_ok_def int64_min_def int64_max_def IDRAC_def)
  ultimately have "snd (GetAllServices mock_ops 0 (None, 7) ([''noise''] @ m # []) ?ac) = Ok [?s]"
    using GetAllServices_result [of ?ac "[''noise'']" "(None, 7)" "[?s]" m 0 "[]"] m by simp
  then show ?thesis by (intro exI [of _ m]) simp
qed

text \<open>A broadcast service reaches every listener unchanged: the message it puts on the
  event queue, received by \<open>GetService\<close> among any other messages, adds exactly that service
  to what is passed on, at its place.\<close>

theorem broadcast_service_received:
  assumes "mb_sendError b = None" and "service_ok svc"
  shows "\<exists>b' m. BroadcastService mock_ops b svc = (b', Ok ())
    \<and> mb_queueMsgs b' = (mb_queueMsgs b)(auth_EventQueue := mb_queueMsgs b auth_EventQueue @ [m])
    \<and> decode_services (fst (listen_filtered SERVICE (Message m # events)))
        = svc # decode_services (fst (listen_filtered SERVICE events))"
proof -
  let ?e = "empty_envelope\<lparr>env_type := SERVICE, env_payload := json_print (enc_service svc)\<rparr>"
  from mock.service_SendTo_up [of "enc_service svc" b auth_EventQueue SERVICE] assms(1) obtain b' m where
    b': "BroadcastService mock_ops b svc = (b', Ok ())"
    "mb_queueMsgs b' = (mb_queueMsgs b)(auth_EventQueue := mb_queueMsgs b auth_EventQueue @ [m])"
    and m: "DecodeEnvelope m = (?e, None)"
    by (auto simp: BroadcastService_def service_SendTo_def wire_simps)
  have "DecodePayload (json_print (enc_service svc)) (Some dec_service) zero_service = (svc, None)"
    using DecodePayload_print [of "enc_service svc" dec_service zero_service svc] assms(2) by (simp add: wire_simps)
  with m have "decode_services (fst (listen_filtered SERVICE (Message m # events)))
        = svc # decode_services (fst (listen_filtered SERVICE events))"
    by (simp add: case_prod_beta)
  with b' show ?thesis by blast
qed

theorem broadcast_service_received_witness:
  "\<exists>b' m. BroadcastService mock_ops NewMockMessageBus (zero_service\<lparr>svc_Ip := ''10.0.0.1''\<rparr>) = (b', Ok ())
     \<and> decode_services (fst (listen_filtered SERVICE [Message m])) = [zero_service\<lparr>svc_Ip := ''10.0.0.1''\<rparr>]"
proof -
  have "service_ok (zero_service\<lparr>svc_Ip := ''10.0.0.1''\<rparr>)"
    by (simp add: service_ok_def zero_service_def int64_ok_def int64_min_def int64_max_def)
  moreover have "mb_sendError NewMockMessageBus = None" by (simp add: NewMockMessageBus_def)
  ultimately show ?thesis
    using broadcast_service_received [of NewMockMessageBus "zero_service\<lparr>svc_Ip := ''10.0.0.1''\<rparr>" "[]"] by auto
qed

end
