(* ===== verification/GoTime.thy ===== *)
theory GoTime
  imports GoStrings "HOL-Library.Monad_Syntax"
begin

text \<open>
  What the program uses of Go's \<open>time\<close> package: reading a time stamp with the layout
  \<open>time.RFC3339\<close>, as \<open>time.Parse\<close> reads it (a one-digit hour and a fraction of a second are
  accepted, the day is checked against the month), Unix seconds and nanoseconds, and the
  text form of a time with \<open>RFC3339Nano\<close> (its JSON form) and with the \<open>-0700\<close> layout.

  A time is the number of seconds since 1970-01-01T00:00:00Z, the nanoseconds within the
  second and the offset of its zone in seconds east of UTC.
\<close>

record gotime =
  t_sec :: int
  t_nsec :: nat
  t_off :: int

definition zero_time :: gotime where
  "zero_time = \<lparr>t_sec = -62135596800, t_nsec = 0, t_off = 0\<rparr>"

definition wrap_int64 :: "int \<Rightarrow> int" where
  "wrap_int64 i = (i + 9223372036854775808) mod 18446744073709551616 - 9223372036854775808"

definition Unix :: "gotime \<Rightarrow> int" where
  "Unix t = t_sec t"

definition UnixNano :: "gotime \<Rightarrow> int" where
  "UnixNano t = wrap_int64 (t_sec t * 1000000000 + int (t_nsec t))"

subsection \<open>Calendar\<close>

definition is_leap :: "int \<Rightarrow> bool" where
  "is_leap y = (y mod 4 = 0 \<and> (y mod 100 \<noteq> 0 \<or> y mod 400 = 0))"

definition days_in :: "bool \<Rightarrow> nat \<Rightarrow> nat" where
  "days_in leap m =
     (if m = 2 then (if leap then 29 else 28)
      else if m \<in> {4, 6, 9, 11} then 30
      else if 1 \<le> m \<and> m \<le> 12 then 31 else 0)"

primrec days_before_month :: "bool \<Rightarrow> nat \<Rightarrow> nat" where
  "days_before_month leap 0 = 0"
| "days_before_month leap (Suc m) = days_before_month leap m + days_in leap m"

text \<open>Days from 0000-01-01 to the first day of a year; 1970-01-01 is day 719528.\<close>

definition days_before_year :: "int \<Rightarrow> int" where
  "days_before_year y = 365 * y + (y - 1) div 4 - (y - 1) div 100 + (y - 1) div 400 + 1"

definition epoch_day :: int where
  "epoch_day = 719528"

definition date_to_days :: "int \<Rightarrow> nat \<Rightarrow> nat \<Rightarrow> int" where
  "date_to_days y m d = days_before_year y + int (days_before_month (is_leap y) m) + int d - 1"

lemma days_before_year_Suc:
  "days_before_year (y + 1) = days_before_year y + (if is_leap y then 366 else 365)"
proof -
  have pred: "(y - 1) div k = y div k - (if y mod k = 0 then 1 else 0)" if "0 < k" for k :: int
  proof -
    have y: "y = y div k * k + y mod k" by simp
    have r: "0 \<le> y mod k" "y mod k < k" using that by simp_all
    show ?thesis
    proof (cases "y mod k = 0")
      case True
      with y have "y - 1 = k * (y div k - 1) + (k - 1)" by (simp add: algebra_simps)
      then have "(y - 1) div k = y div k - 1" using that by (intro int_div_pos_eq [where r = "k - 1"]) auto
      with True show ?thesis by simp
    next
      case False
      with y have "y - 1 = k * (y div k) + (y mod k - 1)" by (simp add: algebra_simps)
      then have "(y - 1) div k = y div k" using r False by (intro int_div_pos_eq [where r = "y mod k - 1"]) auto
      with False show ?thesis by simp
    qed
  qed
  have "y mod 100 = 0 \<Longrightarrow> y mod 4 = 0" "y mod 400 = 0 \<Longrightarrow> y mod 100 = 0" by presburger+
  then show ?thesis by (auto simp: days_before_year_def is_leap_def pred)
qed

lemma days_before_year_less: "days_before_year y < days_before_year (y + 1)"
  by (simp add: days_before_year_Suc)

function year_from :: "int \<Rightarrow> int \<Rightarrow> int" where
  "year_from y n = (if days_before_year (y + 1) \<le> n then year_from (y + 1) n else y)"
  by pat_completeness auto
termination
proof (relation "measure (\<lambda>(y, n). nat (n + 1 - days_before_year y))")
  fix y n :: int
  assume "days_before_year (y + 1) \<le> n"
  with days_before_year_less [of y]
  show "((y + 1, n), y, n) \<in> measure (\<lambda>(y, n). nat (n + 1 - days_before_year y))" by simp
qed simp

declare year_from.simps [simp del]

function month_from :: "bool \<Rightarrow> nat \<Rightarrow> nat \<Rightarrow> nat" where
  "month_from leap m n =
     (if m < 12 \<and> days_before_month leap (Suc m) \<le> n then month_from leap (Suc m) n else m)"
  by pat_completeness auto
termination
  by (relation "measure (\<lambda>(leap, m, n). 12 - m)") auto

declare month_from.simps [simp del]

text \<open>The civil date of a day number.\<close>

definition days_to_date :: "int \<Rightarrow> int \<times> nat \<times> nat" where
  "days_to_date n =
     (let y = year_from (n div 366) n;
          rest = nat (n - days_before_year y);
          m = month_from (is_leap y) 1 rest in
      (y, m, rest - days_before_month (is_leap y) m + 1))"

lemma year_from_correct:
  "days_before_year y \<le> n \<Longrightarrow>
     days_before_year (year_from y n) \<le> n \<and> n < days_before_year (year_from y n + 1)"
  by (induction y n rule: year_from.induct) (subst (1 2) year_from.simps, auto)

lemma month_from_correct:
  "1 \<le> m \<Longrightarrow> m \<le> 12 \<Longrightarrow> days_before_month leap m \<le> n \<Longrightarrow> n < days_before_month leap 13 \<Longrightarrow>
     1 \<le> month_from leap m n \<and> month_from leap m n \<le> 12
     \<and> days_before_month leap (month_from leap m n) \<le> n
     \<and> n < days_before_month leap (Suc (month_from leap m n))"
proof (induction leap m n rule: month_from.induct)
  case (1 leap m n)
  show ?case
  proof (cases "m < 12 \<and> days_before_month leap (Suc m) \<le> n")
    case True
    then have "month_from leap m n = month_from leap (Suc m) n" by (simp add: month_from.simps [of leap m n])
    with True 1 show ?thesis by simp
  next
    case False
    then have "month_from leap m n = m" by (subst month_from.simps) auto
    with False 1 show ?thesis by (cases "m = 12") auto
  qed
qed

lemma days_before_month_13: "int (days_before_month leap 13) = (if leap then 366 else 365)"
  by (simp add: eval_nat_numeral days_in_def)

lemma days_before_year_low: "0 \<le> n \<Longrightarrow> days_before_year (n div 366) \<le> n"
proof -
  assume n: "0 \<le> n"
  define q where "q = n div 366"
  have q: "0 \<le> q" "366 * q \<le> n" using n by (simp_all add: q_def pos_imp_zdiv_nonneg_iff)
  show ?thesis
  proof (cases "q = 0")
    case True
    then show ?thesis using n by (simp add: q_def [symmetric] days_before_year_def)
  next
    case False
    with q have "(q - 1) div 400 \<le> (q - 1) div 100" "(q - 1) div 4 \<le> q - 1"
      by (auto intro: zdiv_mono2)
    with q show ?thesis by (simp add: q_def [symmetric] days_before_year_def)
  qed
qed

lemma days_to_date_correct:
  assumes "0 \<le> n" and "days_to_date n = (y, m, d)"
  shows "date_to_days y m d = n \<and> 1 \<le> m \<and> m \<le> 12 \<and> 1 \<le> d \<and> d \<le> days_in (is_leap y) m"
proof -
  define rest where "rest = nat (n - days_before_year y)"
  from assms(2) have y: "y = year_from (n div 366) n"
    and m: "m = month_from (is_leap y) 1 rest"
    and d: "d = rest - days_before_month (is_leap y) m + 1"
    by (auto simp: days_to_date_def Let_def rest_def)
  have ybounds: "days_before_year y \<le> n" "n < days_before_year (y + 1)"
    using year_from_correct [OF days_before_year_low [OF assms(1)]] by (auto simp: y)
  then have "rest < days_before_month (is_leap y) 13"
    using days_before_month_13 [of "is_leap y"] by (simp add: days_before_year_Suc rest_def split: if_splits)
  then have "1 \<le> m \<and> m \<le> 12 \<and> days_before_month (is_leap y) m \<le> rest
      \<and> rest < days_before_month (is_leap y) (Suc m)"
    unfolding m by (intro month_from_correct) (simp_all add: days_in_def)
  with ybounds d show ?thesis by (auto simp: date_to_days_def rest_def)
qed

subsection \<open>Reading\<close>

definition get_lit :: "char \<Rightarrow> string \<Rightarrow> string option" where
  "get_lit c s = (case s of x # xs \<Rightarrow> if x = c then Some xs else None | [] \<Rightarrow> None)"

definition get_fixed :: "nat \<Rightarrow> string \<Rightarrow> (nat \<times> string) option" where
  "get_fixed k s =
     (if length s < k then None
      else map_option (\<lambda>n. (n, drop k s)) (parse_nat (take k s)))"

text \<open>\<open>getnum(s, false)\<close>: two digits, or one that is not followed by another.\<close>

definition get_hour :: "string \<Rightarrow> (nat \<times> string) option" where
  "get_hour s =
     (case s of
        [] \<Rightarrow> None
      | a # r \<Rightarrow>
          (case digit_val a of
             None \<Rightarrow> None
           | Some x \<Rightarrow>
               (case r of
                  [] \<Rightarrow> Some (x, [])
                | b # r' \<Rightarrow> (case digit_val b of None \<Rightarrow> Some (x, r) | Some y \<Rightarrow> Some (10 * x + y, r')))))"

definition get_fraction :: "string \<Rightarrow> nat \<times> string" where
  "get_fraction s =
     (case s of
        p # c # r \<Rightarrow>
          (if (p = CHR ''.'' \<or> p = CHR '','') \<and> is_digit c then
             (let digits = takeWhile is_digit (c # r);
                  kept = take 9 digits in
              (case parse_nat kept of
                 None \<Rightarrow> (0, s)
               | Some n \<Rightarrow> (n * 10 ^ (9 - length kept), dropWhile is_digit (c # r))))
           else (0, s))
      | _ \<Rightarrow> (0, s))"

definition get_zone :: "string \<Rightarrow> (int \<times> string) option" where
  "get_zone s =
     (case s of
        [] \<Rightarrow> None
      | c # cs \<Rightarrow>
          (if c = CHR ''Z'' then Some (0, cs)
           else (case get_fixed 2 cs of
                   None \<Rightarrow> None
                 | Some (hr, r) \<Rightarrow>
                     (case get_lit (CHR '':'') r of
                        None \<Rightarrow> None
                      | Some r' \<Rightarrow>
                          (case get_fixed 2 r' of
                             None \<Rightarrow> None
                           | Some (mm, r'') \<Rightarrow>
                               (if 24 < hr \<or> 60 < mm then None
                                else if c = CHR ''+'' then Some (int ((hr * 60 + mm) * 60), r'')
                                else if c = CHR ''-'' then Some (- int ((hr * 60 + mm) * 60), r'')
                                else None)))))) "

definition check :: "bool \<Rightarrow> unit option" where
  "check b = (if b then Some () else None)"

text \<open>\<open>time.Parse(time.RFC3339, s)\<close>; \<open>None\<close> is a non-nil error.\<close>

definition parse_rfc3339 :: "string \<Rightarrow> gotime option" where
  "parse_rfc3339 s = do {
     (y, s1) \<leftarrow> get_fixed 4 s;
     s2 \<leftarrow> get_lit (CHR ''-'') s1;
     (mon, s3) \<leftarrow> get_fixed 2 s2;
     check (1 \<le> mon \<and> mon \<le> 12);
     s4 \<leftarrow> get_lit (CHR ''-'') s3;
     (d, s5) \<leftarrow> get_fixed 2 s4;
     s6 \<leftarrow> get_lit (CHR ''T'') s5;
     (hh, s7) \<leftarrow> get_hour s6;
     check (hh < 24);
     s8 \<leftarrow> get_lit (CHR '':'') s7;
     (mi, s9) \<leftarrow> get_fixed 2 s8;
     check (mi < 60);
     s10 \<leftarrow> get_lit (CHR '':'') s9;
     (ss, s11) \<leftarrow> get_fixed 2 s10;
     check (ss < 60);
     let (ns, s12) = get_fraction s11;
     (off, s13) \<leftarrow> get_zone s12;
     check (s13 = []);
     check (1 \<le> d \<and> d \<le> days_in (is_leap (int y)) mon);
     Some \<lparr>t_sec = (date_to_days (int y) mon d - epoch_day) * 86400
                    + int (hh * 3600 + mi * 60 + ss) - off,
           t_nsec = ns, t_off = off\<rparr> }"

subsection \<open>Writing\<close>

definition pad2 :: "nat \<Rightarrow> string" where
  "pad2 n = [digit_char (n div 10 mod 10), digit_char (n mod 10)]"

definition pad4 :: "nat \<Rightarrow> string" where
  "pad4 n = [digit_char (n div 1000 mod 10), digit_char (n div 100 mod 10)] @ pad2 (n mod 100)"

primrec pad_digits :: "nat \<Rightarrow> nat \<Rightarrow> string" where
  "pad_digits 0 n = []"
| "pad_digits (Suc k) n = pad_digits k (n div 10) @ [digit_char (n mod 10)]"

definition fraction :: "nat \<Rightarrow> string" where
  "fraction ns =
     (let ds = trim_right_char (CHR ''0'') (pad_digits 9 ns) in
      if ds = [] then [] else CHR ''.'' # ds)"

definition zone_colon :: "int \<Rightarrow> string" where
  "zone_colon off =
     (if off div 60 = 0 \<and> off mod 60 = 0 then ''Z''
      else (let z = nat (abs off) div 60 in
            (if off < 0 then CHR ''-'' else CHR ''+'') # pad2 (z div 60) @ CHR '':'' # pad2 (z mod 60)))"

definition zone_plain :: "int \<Rightarrow> string" where
  "zone_plain off =
     (let z = nat (abs off) div 60 in
      (if off < 0 then CHR ''-'' else CHR ''+'') # pad2 (z div 60) @ pad2 (z mod 60))"

definition date_clock :: "gotime \<Rightarrow> string" where
  "date_clock t =
     (let l = t_sec t + t_off t;
          n = l div 86400 + epoch_day;
          s = nat (l mod 86400) in
      case days_to_date n of
        (y, m, d) \<Rightarrow>
          pad4 (nat y) @ CHR ''-'' # pad2 m @ CHR ''-'' # pad2 d @ CHR ''T'' # pad2 (s div 3600)
          @ CHR '':'' # pad2 (s div 60 mod 60) @ CHR '':'' # pad2 (s mod 60))"

text \<open>The two layouts the program formats with: \<open>time.RFC3339Nano\<close> (inside
  \<open>Time.MarshalJSON\<close>) and \<open>2006-01-02T15:04:05-0700\<close>.\<close>

definition format_rfc3339nano :: "gotime \<Rightarrow> string" where
  "format_rfc3339nano t = date_clock t @ fraction (t_nsec t) @ zone_colon (t_off t)"

definition format_plain_zone :: "gotime \<Rightarrow> string" where
  "format_plain_zone t = date_clock t @ zone_plain (t_off t)"

definition time_year :: "gotime \<Rightarrow> int" where
  "time_year t = fst (days_to_date ((t_sec t + t_off t) div 86400 + epoch_day))"

text \<open>\<open>Time.MarshalJSON\<close> refuses years outside 0 to 9999 and zones of 24 hours or more.\<close>

definition marshal_time :: "gotime \<Rightarrow> string option" where
  "marshal_time t =
     (if 0 \<le> (t_sec t + t_off t) div 86400 + epoch_day \<and> time_year t \<le> 9999 \<and> abs (t_off t) < 86400
      then Some (format_rfc3339nano t) else None)"

subsection \<open>Round trip\<close>

lemma digit_char_parse:
  "a < 10 \<Longrightarrow> b < 10 \<Longrightarrow> parse_nat [digit_char a, digit_char b] = Some (10 * a + b)"
  "a < 10 \<Longrightarrow> b < 10 \<Longrightarrow> c < 10 \<Longrightarrow> d < 10 \<Longrightarrow>
     parse_nat [digit_char a, digit_char b, digit_char c, digit_char d] = Some (1000 * a + 100 * b + 10 * c + d)"
  by (simp_all add: parse_nat_def)

lemma get_fixed_pad2 [simp]: "n < 100 \<Longrightarrow> get_fixed 2 (pad2 n @ r) = Some (n, r)"
  using digit_char_parse(1) [of "n div 10" "n mod 10"]
  by (simp add: get_fixed_def pad2_def)

lemma get_fixed_pad4 [simp]: "n < 10000 \<Longrightarrow> get_fixed 4 (pad4 n @ r) = Some (n, r)"
proof -
  assume "n < 10000"
  then have n: "n div 1000 < 10" by auto
  have "1000 * (n div 1000) + 100 * (n div 100 mod 10) + 10 * (n mod 100 div 10 mod 10) + n mod 100 mod 10 = n"
  proof -
    have "n mod 100 div 10 < 10" by (simp add: less_mult_imp_div_less)
    then have b: "10 * (n mod 100 div 10 mod 10) + n mod 100 mod 10 = n mod 100" by simp
    have "n div 100 div 10 = n div 1000" by (simp add: div_mult2_eq [symmetric])
    then have a: "10 * (n div 1000) + n div 100 mod 10 = n div 100" by (metis mult_div_mod_eq)
    have "100 * (n div 100) + n mod 100 = n" by simp
    with a b show ?thesis by linarith
  qed
  with n digit_char_parse(2) [of "n div 1000" "n div 100 mod 10" "n mod 100 div 10 mod 10" "n mod 100 mod 10"]
  show ?thesis by (simp add: get_fixed_def pad4_def pad2_def)
qed

lemma get_hour_pad2 [simp]: "n < 100 \<Longrightarrow> get_hour (pad2 n @ r) = Some (n, r)"
  by (simp add: get_hour_def pad2_def)

lemma get_lit_Cons [simp]: "get_lit c (c # s) = Some s"
  by (simp add: get_lit_def)

lemma pad_digits_props:
  "length (pad_digits k n) = k" "list_all is_digit (pad_digits k n)"
  by (induction k arbitrary: n) auto

lemma dec_acc_pad_digits: "n < 10 ^ k \<Longrightarrow> dec_acc a (pad_digits k n) = Some (a * 10 ^ k + n)"
proof (induction k arbitrary: n)
  case (Suc k)
  then have "n div 10 < 10 ^ k" by (simp add: less_mult_imp_div_less mult.commute)
  with Suc show ?case by (simp add: dec_acc_append algebra_simps)
qed simp

lemma dec_acc_zeros: "dec_acc a (replicate k (CHR ''0'')) = Some (a * 10 ^ k)"
  by (induction k arbitrary: a) (simp_all add: digit_val_def)

lemma trim_right_zeros:
  "\<exists>k. s = trim_right_char c s @ replicate k c \<and> (trim_right_char c s = [] \<or> last (trim_right_char c s) \<noteq> c)"
proof (induction s rule: rev_induct)
  case (snoc x s)
  then show ?case
  proof (cases "x = c")
    case True
    then have "trim_right_char c (s @ [x]) = trim_right_char c s" by (simp add: trim_right_char_def)
    with snoc True obtain k where "s = trim_right_char c s @ replicate k c"
      "trim_right_char c s = [] \<or> last (trim_right_char c s) \<noteq> c" by auto
    with True show ?thesis
      by (intro exI [of _ "Suc k"])
         (metis \<open>trim_right_char c (s @ [x]) = trim_right_char c s\<close> append.assoc replicate_append_same replicate_Suc)
  qed (simp add: trim_right_char_def)
qed (simp add: trim_right_char_def)

lemma get_fraction_fraction:
  assumes "ns < 1000000000" and "r \<noteq> []" "\<not> is_digit (hd r)" "hd r \<noteq> CHR ''.''" "hd r \<noteq> CHR '',''"
  shows "get_fraction (fraction ns @ r) = (ns, r)"
proof -
  define ds where "ds = trim_right_char (CHR ''0'') (pad_digits 9 ns)"
  obtain k where k: "pad_digits 9 ns = ds @ replicate k (CHR ''0'')"
    using trim_right_zeros [of "pad_digits 9 ns" "CHR ''0''"] unfolding ds_def by blast
  have len: "length ds + k = 9" using pad_digits_props(1) [of 9 ns] k by simp
  have digits: "list_all is_digit ds" using pad_digits_props(2) [of 9 ns] k by simp
  have "dec_acc 0 (ds @ replicate k (CHR ''0'')) = Some ns"
    using dec_acc_pad_digits [of ns 9 0] assms(1) k by simp
  then obtain v where v: "dec_acc 0 ds = Some v" "v * 10 ^ k = ns"
    by (auto simp: dec_acc_append dec_acc_zeros split: option.splits)
  show ?thesis
  proof (cases ds)
    case Nil
    then have "ns = 0" "fraction ns = []" using v by (simp_all add: fraction_def ds_def)
    then show ?thesis using assms(2-) by (cases r) (simp_all add: get_fraction_def split: list.split)
  next
    case (Cons c cs)
    have tw: "takeWhile is_digit (ds @ r) = ds" "dropWhile is_digit (ds @ r) = r"
      using digits assms(2,3) takeWhile_append_stop [of ds is_digit r] dropWhile_append_stop [of ds is_digit r]
      by (simp_all add: list_all_iff del: takeWhile_append dropWhile_append)
    have "take 9 ds = ds" "9 - length ds = k" using len by auto
    moreover have "digit_val c \<noteq> None" using Cons digits digit_val_Some [of c] by simp
    then obtain x where "digit_val c = Some x" by auto
    ultimately show ?thesis using Cons tw v digits
      by (simp add: fraction_def ds_def [symmetric] get_fraction_def Let_def parse_nat_def)
  qed
qed

lemma get_zone_colon:
  assumes "abs off < 86400" and "off mod 60 = 0"
  shows "get_zone (zone_colon off) = Some (off, [])"
proof (cases "off = 0")
  case True
  then show ?thesis by (simp add: zone_colon_def get_zone_def)
next
  case False
  define z where "z = nat (abs off) div 60"
  have z: "z div 60 < 24" "int z * 60 = abs off"
  proof -
    have "nat (abs off) mod 60 = 0" "nat (abs off) < 86400" using assms by (auto simp: nat_mod_distrib mod_eq_0_iff_dvd)
    then have a: "z * 60 = nat (abs off)" "z < 1440" unfolding z_def by (auto simp: less_mult_imp_div_less)
    then show "z div 60 < 24" by (simp add: less_mult_imp_div_less)
    show "int z * 60 = abs off" using a(1) by linarith
  qed
  have lit: "get_fixed 2 (pad2 a) = Some (a, [])" if "a < 100" for a
    using get_fixed_pad2 [OF that, of "[]"] by simp
  have "off div 60 \<noteq> 0" using False assms(2) by presburger
  moreover have "int ((z div 60 * 60 + z mod 60) * 60) = abs off" using z(2) by simp
  ultimately show ?thesis
    using z assms
    by (simp add: zone_colon_def get_zone_def Let_def z_def [symmetric] lit del: div_mult_mod_eq)
qed

lemma zone_colon_first:
  "\<exists>c cs. zone_colon off = c # cs \<and> \<not> is_digit c \<and> c \<noteq> CHR ''.'' \<and> c \<noteq> CHR '',''"
  by (auto simp: zone_colon_def Let_def is_digit_def)

lemma check_True [simp]: "check True = Some ()" "b \<Longrightarrow> check b = Some ()"
  by (simp_all add: check_def)

text \<open>Reading goes through the date and the clock to what follows them.\<close>

lemma parse_date_clock:
  assumes "0 \<le> (t_sec t + t_off t) div 86400 + epoch_day" and "time_year t \<le> 9999"
  shows "parse_rfc3339 (date_clock t @ r) =
    (case get_fraction r of (ns, s) \<Rightarrow>
       (case get_zone s of
          Some (off, []) \<Rightarrow> Some \<lparr>t_sec = t_sec t + t_off t - off, t_nsec = ns, t_off = off\<rparr>
        | _ \<Rightarrow> None))"
proof -
  define l where "l = t_sec t + t_off t"
  define n where "n = l div 86400 + epoch_day"
  define s where "s = nat (l mod 86400)"
  obtain y m d where date: "days_to_date n = (y, m, d)" by (cases "days_to_date n") auto
  from assms have n0: "0 \<le> n" and y9: "y \<le> 9999"
    by (auto simp: time_year_def l_def n_def date [unfolded n_def l_def])
  note c = days_to_date_correct [OF n0 date]
  have y0: "0 \<le> y"
  proof (rule ccontr)
    assume "\<not> 0 \<le> y"
    then have "y div 4 \<le> y div 100" "y div 400 \<le> - 1"
      by (auto intro: zdiv_mono2_neg simp: div_less_iff_less_mult)
    with \<open>\<not> 0 \<le> y\<close> have "days_before_year (y + 1) \<le> 0" by (simp add: days_before_year_def)
    moreover have "n < days_before_year (y + 1)"
      using date year_from_correct [OF days_before_year_low [OF n0]] by (auto simp: days_to_date_def Let_def)
    ultimately show False using n0 by simp
  qed
  have d31: "d < 100" using c by (auto simp: days_in_def split: if_splits)
  have s: "s div 3600 < 24" "s div 3600 * 3600 + s div 60 mod 60 * 60 + s mod 60 = s"
  proof -
    have "s < 86400" by (simp add: s_def nat_less_iff)
    then show "s div 3600 < 24" by (simp add: less_mult_imp_div_less)
    have "s div 60 div 60 = s div 3600" by (simp add: div_mult2_eq [symmetric])
    then have "60 * (s div 3600) + s div 60 mod 60 = s div 60" by (metis mult_div_mod_eq)
    moreover have "60 * (s div 60) + s mod 60 = s" by simp
    ultimately show "s div 3600 * 3600 + s div 60 mod 60 * 60 + s mod 60 = s" by linarith
  qed
  obtain ns z where frac: "get_fraction r = (ns, z)" by (cases "get_fraction r")
  have sec: "(n - epoch_day) * 86400 + int s = t_sec t + t_off t"
    by (simp add: n_def s_def l_def)
  have "date_clock t @ r = pad4 (nat y) @ CHR ''-'' # pad2 m @ CHR ''-'' # pad2 d @ CHR ''T'' # pad2 (s div 3600)
          @ CHR '':'' # pad2 (s div 60 mod 60) @ CHR '':'' # pad2 (s mod 60) @ r"
    by (simp add: date_clock_def Let_def l_def [symmetric] n_def [symmetric] s_def [symmetric] date)
  with c y0 y9 d31 s(1) frac have "parse_rfc3339 (date_clock t @ r) =
      Option.bind (get_zone z) (\<lambda>(off, s13). Option.bind (check (s13 = [])) (\<lambda>u.
        Some \<lparr>t_sec = (n - epoch_day) * 86400 + int (s div 3600 * 3600 + s div 60 mod 60 * 60 + s mod 60) - off,
              t_nsec = ns, t_off = off\<rparr>))"
    unfolding parse_rfc3339_def by (simp add: Let_def)
  then show ?thesis unfolding s(2) sec frac by (auto simp: check_def split: Option.bind_splits list.split)
qed

text \<open>A time written as JSON is read back unchanged, zone included.\<close>

lemma parse_format_rfc3339:
  assumes "marshal_time t = Some str" and "t_nsec t < 1000000000" and "t_off t mod 60 = 0"
  shows "parse_rfc3339 str = Some t"
proof -
  from assms(1) have t: "0 \<le> (t_sec t + t_off t) div 86400 + epoch_day" "time_year t \<le> 9999" "abs (t_off t) < 86400"
    and str: "str = date_clock t @ fraction (t_nsec t) @ zone_colon (t_off t)"
    by (auto simp: marshal_time_def format_rfc3339nano_def split: if_splits)
  obtain z zs where z: "zone_colon (t_off t) = z # zs" "\<not> is_digit z" "z \<noteq> CHR ''.''" "z \<noteq> CHR '',''"
    using zone_colon_first by blast
  have "get_fraction (fraction (t_nsec t) @ zone_colon (t_off t)) = (t_nsec t, zone_colon (t_off t))"
    using get_fraction_fraction [OF assms(2), of "zone_colon (t_off t)"] z by simp
  then show ?thesis by (simp add: str parse_date_clock [OF t(1,2)] get_zone_colon [OF t(3) assms(3)])
qed

text \<open>The other layout has no colon in its zone, so it is not RFC 3339, whatever the time.\<close>

lemma plain_zone_not_rfc3339:
  assumes "0 \<le> (t_sec t + t_off t) div 86400 + epoch_day" and "time_year t \<le> 9999" and "abs (t_off t) < 86400"
  shows "parse_rfc3339 (format_plain_zone t) = None"
proof -
  let ?z = "nat (abs (t_off t)) div 60"
  have z: "?z div 60 < 100" using assms(3) by (simp add: less_mult_imp_div_less)
  obtain c where c: "zone_plain (t_off t) = c # pad2 (?z div 60) @ pad2 (?z mod 60)" "c = CHR ''+'' \<or> c = CHR ''-''"
    by (auto simp: zone_plain_def Let_def)
  have d: "digit_char (x mod 10) \<noteq> CHR '':''" for x
  proof -
    have "is_digit (digit_char (x mod 10))" by simp
    then show ?thesis by (auto simp: is_digit_def)
  qed
  have "get_fraction (zone_plain (t_off t)) = (0, zone_plain (t_off t))" using c by (auto simp: get_fraction_def pad2_def)
  moreover have "get_zone (zone_plain (t_off t)) = None"
    using c(2) z d [of "?z mod 60 div 10"] by (auto simp: get_zone_def c(1) get_lit_def pad2_def [of "?z mod 60"])
  ultimately show ?thesis by (simp add: format_plain_zone_def parse_date_clock [OF assms(1,2)])
qed

text \<open>In UTC it is, once \<open>+0000\<close> is written as \<open>Z\<close>, up to the fraction of the second.\<close>

lemma pad_digit: "c \<in> set (pad2 n) \<Longrightarrow> is_digit c" "c \<in> set (pad4 n) \<Longrightarrow> is_digit c"
  by (auto simp: pad2_def pad4_def simp del: mod_mod_trivial)

lemma date_clock_no_sign: "CHR ''+'' \<notin> set (date_clock t)"
proof
  assume "CHR ''+'' \<in> set (date_clock t)"
  then obtain x where "CHR ''+'' \<in> set (pad2 x) \<or> CHR ''+'' \<in> set (pad4 x)"
    by (auto simp: date_clock_def Let_def split: prod.splits)
  with pad_digit have "is_digit (CHR ''+'')" by blast
  then show False by (simp add: is_digit_def)
qed

lemma replace_all_suffix:
  assumes "hd old \<notin> set s" and "old \<noteq> []"
  shows "replace_all old new (s @ old) = s @ new"
  using assms(1)
proof (induction s)
  case Nil
  obtain c cs where old: "old = c # cs" using assms(2) by (cases old) auto
  have "has_prefix (c # cs) (c # cs)" using has_prefix_append [of "c # cs" "[]"] by simp
  then show ?case by (simp add: old replace_all.simps(2))
next
  case (Cons x s)
  then have "x \<noteq> hd old" "replace_all old new (s @ old) = s @ new" by auto
  then show ?case using assms(2) by (cases old) (simp_all add: replace_all.simps(2))
qed

lemma pad2_zero: "pad2 0 = ''00''"
  by code_simp

lemma plain_zone_utc:
  assumes "0 \<le> (t_sec t + t_off t) div 86400 + epoch_day" and "time_year t \<le> 9999" and "t_off t = 0"
  shows "parse_rfc3339 (replace_all ''+0000'' ''Z'' (format_plain_zone t)) = Some (t\<lparr>t_nsec := 0\<rparr>)"
proof -
  have "format_plain_zone t = date_clock t @ ''+0000''"
    using pad2_zero by (simp add: format_plain_zone_def zone_plain_def assms(3))
  then have "replace_all ''+0000'' ''Z'' (format_plain_zone t) = date_clock t @ ''Z''"
    using replace_all_suffix [of "''+0000''" "date_clock t" "''Z''"] date_clock_no_sign by simp
  then show ?thesis
    using assms(3) by (simp add: parse_date_clock [OF assms(1,2)] get_fraction_def get_zone_def)
qed

text \<open>In any other zone there is no \<open>+0000\<close> to replace.\<close>

lemma plain_zone_elsewhere:
  assumes "60 \<le> abs (t_off t)" and "abs (t_off t) < 86400"
  shows "replace_all ''+0000'' ''Z'' (format_plain_zone t) = format_plain_zone t"
proof (rule replace_all_absent)
  let ?z = "nat (abs (t_off t)) div 60"
  show "\<not> contains (format_plain_zone t) ''+0000''"
  proof
    assume "contains (format_plain_zone t) ''+0000''"
    then obtain a b where ab: "date_clock t @ zone_plain (t_off t) = a @ ''+0000'' @ b"
      by (auto simp: contains_iff format_plain_zone_def)
    obtain c where c: "zone_plain (t_off t) = c # pad2 (?z div 60) @ pad2 (?z mod 60)"
      by (auto simp: zone_plain_def Let_def)
    have z1: "1 \<le> ?z" "?z div 60 < 100" using assms by (auto simp: less_mult_imp_div_less)
    have len: "length a + length b = length (date_clock t)"
      using arg_cong [OF ab, of length] by (simp add: c pad2_def)
    have "b = []"
    proof (rule ccontr)
      assume "b \<noteq> []"
      then have a: "length a < length (date_clock t)" using len by (cases b) auto
      have "(date_clock t @ zone_plain (t_off t)) ! length a = CHR ''+''" unfolding ab by simp
      then have "date_clock t ! length a = CHR ''+''" using a by (simp only: nth_append if_True)
      with a nth_mem [of "length a" "date_clock t"] date_clock_no_sign show False by simp
    qed
    with ab len have "zone_plain (t_off t) = ''+0000''" by simp
    then have "pad2 (?z div 60) @ pad2 (?z mod 60) = pad2 0 @ pad2 0" unfolding c pad2_zero by simp
    then have "pad2 (?z div 60) = pad2 0" "pad2 (?z mod 60) = pad2 0" by (simp_all add: pad2_def)
    moreover have "?z mod 60 < 100" by (rule less_trans [of _ 60]) simp_all
    ultimately have "?z div 60 = 0" "?z mod 60 = 0"
      using get_fixed_pad2 [OF z1(2), of "[]"] get_fixed_pad2 [of 0 "[]"] get_fixed_pad2 [of "?z mod 60" "[]"] by simp_all
    then have "?z = 0" using div_mult_mod_eq [of ?z 60] by linarith
    with z1(1) show False by simp
  qed
qed simp

end
