(* ===== verification/Sse.thy ===== *)
theory Sse
  imports GoTime "HOL-Library.Word"
begin

text \<open>
  \<^verbatim>\<open>internal/sse\<close>: server-sent events. This theory holds the event and its text form
  (\<open>event.go\<close>), and the reader that takes events from a response body (\<open>read_closer.go\<close>),
  including the way \<open>bufio.Reader\<close> hands out long lines in pieces. The main results are that
  the pieces are put together again and that events written are the events read.
\<close>

subsection \<open>Events\<close>

record Event =
  sse_ID :: string
  sse_Name :: string
  sse_Data :: string
  sse_Retry :: int

definition zero_sse :: Event where
  "zero_sse = \<lparr>sse_ID = [], sse_Name = [], sse_Data = [], sse_Retry = 0\<rparr>"

definition data_line :: "string \<Rightarrow> string" where
  "data_line line = (if line = [] then ''data'' @ [LF] else ''data: '' @ line @ [LF])"

definition retry_line :: "Event \<Rightarrow> string" where
  "retry_line ev = ''retry: '' @ int_dec (go_div (go_div (sse_Retry ev) 1000) 1000) @ [LF]"

definition Encode :: "Event \<Rightarrow> string" where
  "Encode ev =
     ''id: '' @ sse_ID ev @ LF # ''event: '' @ sse_Name ev @ LF #
     (if sse_Retry ev \<noteq> 0 then retry_line ev else [])
     @ concat (map data_line (split_on LF (sse_Data ev))) @ [LF]"

text \<open>\<open>Write\<close>: one \<open>Fprintf\<close> after the other, up to the first that fails; \<open>fails n\<close> is the
  error of the call number \<open>n\<close>.\<close>

definition write_pieces :: "Event \<Rightarrow> string list" where
  "write_pieces ev =
     [''id: '' @ sse_ID ev @ [LF], ''event: '' @ sse_Name ev @ [LF]]
     @ (if sse_Retry ev \<noteq> 0 then [retry_line ev] else [])
     @ map data_line (split_on LF (sse_Data ev)) @ [[LF]]"

fun write_all :: "(nat \<Rightarrow> gerror option) \<Rightarrow> nat \<Rightarrow> string list \<Rightarrow> string \<times> gerror option" where
  "write_all fails n [] = ([], None)"
| "write_all fails n (p # ps) =
     (case fails n of
        Some e \<Rightarrow> ([], Some e)
      | None \<Rightarrow> (case write_all fails (Suc n) ps of (out, e) \<Rightarrow> (p @ out, e)))"

definition Event_Write :: "(nat \<Rightarrow> gerror option) \<Rightarrow> Event \<Rightarrow> string \<times> gerror option" where
  "Event_Write fails ev = write_all fails 0 (write_pieces ev)"

subsection \<open>Reading lines\<close>

text \<open>
  \<open>ReadLine\<close> with a buffer of 4096 bytes, on the bytes still to come: the line or the piece
  of it, whether more pieces follow, and the bytes after it; \<open>None\<close> when there are none
  left, and \<open>ReadLine\<close> returns the error the source ends with. A piece does not end between
  the two bytes of a line end.
\<close>

definition buffer_size :: nat where
  "buffer_size = 4096"

definition strip_cr :: "string \<Rightarrow> string" where
  "strip_cr l = (if l \<noteq> [] \<and> last l = CR then butlast l else l)"

definition ReadLine :: "string \<Rightarrow> (string \<times> bool \<times> string) option" where
  "ReadLine s =
     (if s = [] then None
      else if LF \<in> set (take buffer_size s) then
        (let l = takeWhile (\<lambda>c. c \<noteq> LF) s in Some (strip_cr l, False, drop (Suc (length l)) s))
      else if buffer_size \<le> length s then
        (if last (take buffer_size s) = CR
         then Some (take (buffer_size - 1) s, True, drop (buffer_size - 1) s)
         else Some (take buffer_size s, True, drop buffer_size s))
      else Some (s, False, []))"

lemma ReadLine_shorter: "ReadLine s = Some (l, p, r) \<Longrightarrow> length r < length s"
  by (auto simp: ReadLine_def Let_def buffer_size_def split: if_splits)

text \<open>The loop's reassembly of the pieces of a line.\<close>

function next_line :: "string \<Rightarrow> string \<Rightarrow> (string \<times> string) option" where
  "next_line prefix s =
     (case ReadLine s of
        None \<Rightarrow> None
      | Some (line, isPrefix, r) \<Rightarrow>
          (if isPrefix then next_line (prefix @ line) r else Some (prefix @ line, r)))"
  by pat_completeness auto
termination
  by (relation "measure (\<lambda>(p, s). length s)") (auto dest: ReadLine_shorter)

declare next_line.simps [simp del]

lemma next_line_shorter: "next_line p s = Some (l, r) \<Longrightarrow> length r < length s"
  by (induction p s rule: next_line.induct)
     (subst (asm) (2) next_line.simps, fastforce split: option.splits if_splits dest: ReadLine_shorter)

subsection \<open>Reading events\<close>

definition set_field :: "string \<Rightarrow> string \<Rightarrow> Event \<times> bool \<Rightarrow> Event \<times> bool" where
  "set_field field val st =
     (case st of (ev, idPresent) \<Rightarrow>
        if field = ''id'' then (ev\<lparr>sse_ID := val\<rparr>, True)
        else if field = ''event'' then (ev\<lparr>sse_Name := val\<rparr>, idPresent)
        else if field = ''data'' then (ev\<lparr>sse_Data := sse_Data ev @ val @ [LF]\<rparr>, idPresent)
        else if field = ''retry'' then
          (case Atoi val of
             (n, ok) \<Rightarrow> (if ok then (ev\<lparr>sse_Retry := wrap_int64 (n * 1000000)\<rparr>, idPresent) else (ev, idPresent)))
        else (ev, idPresent))"

definition field_line :: "string \<Rightarrow> Event \<times> bool \<Rightarrow> Event \<times> bool" where
  "field_line line st =
     (if line \<noteq> [] \<and> hd line = CHR '':'' then st
      else (case splitn2 (CHR '':'') line of
              (field, rest) \<Rightarrow>
                (let v = (case rest of None \<Rightarrow> [] | Some x \<Rightarrow> x);
                     v' = (if v \<noteq> [] \<and> hd v = CHR '' '' then tl v else v) in
                 set_field field v' st)))"

text \<open>
  The loop of \<open>Next\<close>: the event and the bytes after it, or \<open>None\<close> when the source ends
  first. An empty line dispatches the event if it has data; without data everything
  collected so far is kept for the next one.
\<close>

function next_event :: "string \<Rightarrow> Event \<times> bool \<Rightarrow> (Event \<times> bool \<times> string) option" where
  "next_event s st =
     (case next_line [] s of
        None \<Rightarrow> None
      | Some (line, r) \<Rightarrow>
          (if line = [] then
             (if sse_Data (fst st) = [] then next_event r st
              else Some ((fst st)\<lparr>sse_Data := butlast (sse_Data (fst st))\<rparr>, snd st, r))
           else next_event r (field_line line st)))"
  by pat_completeness auto
termination
  by (relation "measure (\<lambda>(s, st). length s)") (auto dest: next_line_shorter)

declare next_event.simps [simp del]

text \<open>
  \<open>rc_rest\<close> are the bytes of the source still to come and \<open>rc_end\<close> the error it ends with
  (\<open>EOF\<close>, or what broke the connection); \<open>rc_close_error\<close> is the error of closing it.
\<close>

record ReadCloser =
  rc_lastID :: string
  rc_rest :: string
  rc_end :: gerror
  rc_closed :: bool
  rc_close_error :: "gerror option"

definition EOF :: gerror where "EOF = ''EOF''"

definition alreadyClosedError :: gerror where
  "alreadyClosedError = ''ReadCloser already closed''"

definition NewReadCloser :: "string \<Rightarrow> gerror \<Rightarrow> gerror option \<Rightarrow> ReadCloser" where
  "NewReadCloser body err close_error =
     \<lparr>rc_lastID = [], rc_rest = body, rc_end = err, rc_closed = False, rc_close_error = close_error\<rparr>"

definition rc_Close :: "ReadCloser \<Rightarrow> ReadCloser \<times> gerror option" where
  "rc_Close rc =
     (if rc_closed rc then (rc, Some alreadyClosedError)
      else (rc\<lparr>rc_closed := True\<rparr>, rc_close_error rc))"

definition rc_Next :: "ReadCloser \<Rightarrow> ReadCloser \<times> Event outcome" where
  "rc_Next rc =
     (case next_event (rc_rest rc) (zero_sse\<lparr>sse_ID := rc_lastID rc\<rparr>, False) of
        None \<Rightarrow> (rc\<lparr>rc_rest := []\<rparr>, Err (rc_end rc))
      | Some (ev, idPresent, r) \<Rightarrow>
          (rc\<lparr>rc_rest := r, rc_lastID := (if idPresent then sse_ID ev else rc_lastID rc)\<rparr>, Ok ev))"

lemma next_event_shorter: "next_event s st = Some (ev, i, r) \<Longrightarrow> length r < length s"
proof (induction s st rule: next_event.induct)
  case (1 s st)
  from "1.prems" obtain line r' where l: "next_line [] s = Some (line, r')"
    by (subst (asm) next_event.simps) (auto split: option.splits)
  then have "length r' < length s" by (rule next_line_shorter)
  moreover have "next_event s st = (if line = [] then
             (if sse_Data (fst st) = [] then next_event r' st
              else Some ((fst st)\<lparr>sse_Data := butlast (sse_Data (fst st))\<rparr>, snd st, r'))
           else next_event r' (field_line line st))"
    using l by (subst next_event.simps) simp
  ultimately show ?case using 1 l by (fastforce split: if_splits)
qed

text \<open>All events of a source, until it ends.\<close>

function read_events :: "ReadCloser \<Rightarrow> Event list \<times> gerror" where
  "read_events rc =
     (case rc_Next rc of
        (rc', Ok ev) \<Rightarrow> (case read_events rc' of (evs, e) \<Rightarrow> (ev # evs, e))
      | (rc', Err e) \<Rightarrow> ([], e)
      | (rc', Panic w) \<Rightarrow> ([], w)
      | (rc', Exit n) \<Rightarrow> ([], []))"
  by pat_completeness auto
termination
  by (relation "measure (\<lambda>rc. length (rc_rest rc))")
     (auto simp: rc_Next_def split: option.splits dest: next_event_shorter)

declare read_events.simps [simp del]

subsection \<open>Pieces of lines\<close>

lemma ReadLine_line:
  assumes "LF \<notin> set l" and "length l < buffer_size"
  shows "ReadLine (l @ LF # r) = Some (strip_cr l, False, r)"
proof -
  have "LF \<in> set (take buffer_size (l @ LF # r))"
    using assms(2) by (cases "buffer_size - length l") auto
  moreover have "takeWhile (\<lambda>c. c \<noteq> LF) (l @ LF # r) = l"
    using assms(1) by (intro takeWhile_append_stop) auto
  ultimately show ?thesis by (simp add: ReadLine_def)
qed

lemma ReadLine_piece:
  assumes "LF \<notin> set l" and "buffer_size \<le> length l"
  shows "\<exists>a b. l = a @ b \<and> a \<noteq> [] \<and> ReadLine (l @ LF # r) = Some (a, True, b @ LF # r)
    \<and> (l \<noteq> [] \<and> last l = CR \<longrightarrow> b \<noteq> [])"
proof -
  let ?w = "take buffer_size l"
  have w: "take buffer_size (l @ LF # r) = ?w" "LF \<notin> set ?w" "?w \<noteq> []"
    using assms by (auto simp: buffer_size_def dest: in_set_takeD)
  show ?thesis
  proof (cases "last ?w = CR")
    case True
    then have "ReadLine (l @ LF # r) = Some (take (buffer_size - 1) l, True, drop (buffer_size - 1) l @ LF # r)"
      using w assms(2) by (simp add: ReadLine_def buffer_size_def)
    then show ?thesis using assms(2)
      by (intro exI [of _ "take (buffer_size - 1) l"] exI [of _ "drop (buffer_size - 1) l"]) (auto simp: buffer_size_def)
  next
    case False
    then have "ReadLine (l @ LF # r) = Some (?w, True, drop buffer_size l @ LF # r)"
      using w assms(2) by (simp add: ReadLine_def)
    moreover have "last l = CR \<longrightarrow> drop buffer_size l \<noteq> []" using False assms(2) by auto
    ultimately show ?thesis using w
      by (intro exI [of _ ?w] exI [of _ "drop buffer_size l"]) auto
  qed
qed

text \<open>Whatever the length of a line, the reader gets it whole, without its line end.\<close>

lemma next_line_whole:
  "LF \<notin> set l \<Longrightarrow> next_line p (l @ LF # r) = Some (p @ strip_cr l, r)"
proof (induction "length l" arbitrary: l p rule: less_induct)
  case less
  show ?case
  proof (cases "length l < buffer_size")
    case True
    with less.prems ReadLine_line [of l r] show ?thesis by (subst next_line.simps) simp
  next
    case False
    then have "buffer_size \<le> length l" by simp
    from ReadLine_piece [OF less.prems this, of r] show ?thesis
    proof (elim exE conjE)
      fix a b
      assume ab: "l = a @ b" "a \<noteq> []" and step: "ReadLine (l @ LF # r) = Some (a, True, b @ LF # r)"
        and cr: "l \<noteq> [] \<and> last l = CR \<longrightarrow> b \<noteq> []"
      have "next_line (p @ a) (b @ LF # r) = Some ((p @ a) @ strip_cr b, r)"
        using less.hyps [of b "p @ a"] less.prems ab by simp
      moreover have "a @ strip_cr b = strip_cr l"
      proof (cases "b = []")
        case True
        with cr ab show ?thesis by (simp add: strip_cr_def)
      next
        case False
        with ab show ?thesis by (simp add: strip_cr_def butlast_append)
      qed
      ultimately show ?thesis using step by (subst next_line.simps) simp
    qed
  qed
qed

subsection \<open>Events read are the events written\<close>

text \<open>A field a line can carry: no line feed, no carriage return at its end.\<close>

definition line_ok :: "string \<Rightarrow> bool" where
  "line_ok l \<longleftrightarrow> LF \<notin> set l \<and> (l = [] \<or> last l \<noteq> CR)"

definition event_ok :: "Event \<Rightarrow> bool" where
  "event_ok ev \<longleftrightarrow> line_ok (sse_ID ev) \<and> line_ok (sse_Name ev)
     \<and> (\<forall>l\<in>set (split_on LF (sse_Data ev)). line_ok l)
     \<and> (\<exists>ms. sse_Retry ev = ms * 1000000 \<and> int64_min \<le> sse_Retry ev \<and> sse_Retry ev \<le> int64_max)"

lemma strip_cr_id: "l = [] \<or> last l \<noteq> CR \<Longrightarrow> strip_cr l = l"
  by (auto simp: strip_cr_def)

lemma next_event_line:
  assumes "LF \<notin> set l" and "l = [] \<or> last l \<noteq> CR" and "l \<noteq> []"
  shows "next_event (l @ LF # r) st = next_event r (field_line l st)"
  using next_line_whole [OF assms(1), of "[]" r] assms
  by (subst next_event.simps) (simp add: strip_cr_id)

lemma next_event_blank:
  assumes "sse_Data (fst st) \<noteq> []"
  shows "next_event (LF # r) st = Some ((fst st)\<lparr>sse_Data := butlast (sse_Data (fst st))\<rparr>, snd st, r)"
  using next_line_whole [of "[]" "[]" r] assms by (subst next_event.simps) (simp add: strip_cr_def)

lemma next_event_field:
  assumes "line_ok v" and "f \<in> {''id'', ''event'', ''data'', ''retry''}"
  shows "next_event (f @ '': '' @ v @ LF # r) st = next_event r (set_field f v st)"
proof -
  let ?l = "f @ '': '' @ v"
  have "LF \<notin> set ?l" "last ?l \<noteq> CR" "?l \<noteq> []" "hd ?l \<noteq> CHR '':''"
    using assms by (auto simp: line_ok_def special_chars)
  moreover have "splitn2 (CHR '':'') ?l = (f, Some (CHR '' '' # v))"
    using splitn2_append [of "CHR '':''" f "CHR '' '' # v"] assms(2) by auto
  ultimately show ?thesis
    using next_event_line [of ?l r st] by (simp add: field_line_def)
qed

lemma next_event_data_empty:
  "next_event (''data'' @ LF # r) st = next_event r (set_field ''data'' [] st)"
proof -
  have "next_event (''data'' @ LF # r) st = next_event r (field_line ''data'' st)"
    by (rule next_event_line) (simp_all add: special_chars)
  then show ?thesis by (simp add: field_line_def)
qed

lemma next_event_data_lines:
  assumes "\<forall>l\<in>set ls. line_ok l"
  shows "next_event (concat (map data_line ls) @ r) (ev, i) =
    next_event r (ev\<lparr>sse_Data := sse_Data ev @ concat (map (\<lambda>l. l @ [LF]) ls)\<rparr>, i)"
  using assms
proof (induction ls arbitrary: ev)
  case (Cons l ls)
  have "next_event (data_line l @ s) (ev, i) = next_event s (ev\<lparr>sse_Data := sse_Data ev @ l @ [LF]\<rparr>, i)" for s
    using next_event_data_empty [of s "(ev, i)"] next_event_field [of l "''data''" s "(ev, i)"] Cons.prems
    by (simp add: data_line_def set_field_def)
  with Cons show ?case by simp
qed simp

lemma split_lines_terminated:
  "concat (map (\<lambda>l. l @ [LF]) (split_on LF s)) = s @ [LF]"
proof (induction s)
  case (Cons c s)
  then show ?case by (cases "split_on LF s") auto
qed simp

lemma retry_value:
  assumes "r = ms * 1000000" and "int64_min \<le> r" and "r \<le> int64_max"
  shows "Atoi (int_dec (go_div (go_div r 1000) 1000)) = (ms, True) \<and> wrap_int64 (ms * 1000000) = r"
proof -
  have "r = ms * 1000 * 1000" using assms(1) by simp
  then have "go_div r 1000 = ms * 1000" using go_div_mult [of 1000 "ms * 1000"] by presburger
  then have "go_div (go_div r 1000) 1000 = ms" using go_div_mult [of 1000 ms] by presburger
  with assms show ?thesis by (simp add: int64_min_def int64_max_def wrap_int64_def)
qed

lemma line_ok_int_dec: "line_ok (int_dec n)"
proof -
  have "\<forall>c\<in>set (int_dec n). is_digit c \<or> c = CHR ''-''"
    using nat_dec_digits by (auto simp: int_dec_def)
  moreover have "\<not> is_digit LF" "\<not> is_digit CR" by (simp_all add: is_digit_def special_chars)
  ultimately have "\<forall>c\<in>set (int_dec n). c \<noteq> LF \<and> c \<noteq> CR" by (auto simp: special_chars)
  then show ?thesis unfolding line_ok_def by (metis last_in_set)
qed

text \<open>One event, at the front of whatever follows.\<close>

lemma next_event_Encode:
  assumes "event_ok ev"
  shows "next_event (Encode ev @ r) (zero_sse\<lparr>sse_ID := old\<rparr>, False) = Some (ev, True, r)"
proof -
  from assms obtain ms where ms: "sse_Retry ev = ms * 1000000" "int64_min \<le> sse_Retry ev" "sse_Retry ev \<le> int64_max"
    by (auto simp: event_ok_def)
  let ?data = "concat (map data_line (split_on LF (sse_Data ev))) @ LF # r"
  let ?e1 = "zero_sse\<lparr>sse_ID := sse_ID ev, sse_Name := sse_Name ev\<rparr>"
  have "next_event (Encode ev @ r) (zero_sse\<lparr>sse_ID := old\<rparr>, False) =
      next_event ((if sse_Retry ev \<noteq> 0 then retry_line ev else []) @ ?data) (?e1, True)"
    using assms next_event_field [of "sse_ID ev" "''id''"] next_event_field [of "sse_Name ev" "''event''"]
    by (simp add: Encode_def event_ok_def set_field_def zero_sse_def)
  also have "\<dots> = next_event ?data (?e1\<lparr>sse_Retry := sse_Retry ev\<rparr>, True)"
  proof (cases "sse_Retry ev = 0")
    case False
    with retry_value [OF ms] next_event_field [OF line_ok_int_dec, of "''retry''" _ ?data "(?e1, True)"]
    show ?thesis by (simp add: retry_line_def set_field_def)
  qed (simp add: zero_sse_def)
  also have "\<dots> = next_event (LF # r) (?e1\<lparr>sse_Retry := sse_Retry ev, sse_Data := sse_Data ev @ [LF]\<rparr>, True)"
    using assms by (subst next_event_data_lines) (simp_all add: event_ok_def split_lines_terminated zero_sse_def)
  also have "\<dots> = Some (ev, True, r)"
    by (subst next_event_blank) (simp_all add: zero_sse_def)
  finally show ?thesis .
qed

lemma rc_Next_Encode:
  "event_ok ev \<Longrightarrow> rc_rest rc = Encode ev @ r \<Longrightarrow>
     rc_Next rc = (rc\<lparr>rc_rest := r, rc_lastID := sse_ID ev\<rparr>, Ok ev)"
  by (simp add: rc_Next_def next_event_Encode)

lemma next_event_end: "next_event [] st = None"
  by (subst next_event.simps, subst next_line.simps) (simp add: ReadLine_def)

lemma concat_write_pieces: "concat (write_pieces ev) = Encode ev"
  by (simp add: write_pieces_def Encode_def)

lemma write_all_prefix:
  "write_all fails n ps = (out, e) \<Longrightarrow>
     (\<exists>k. out = concat (take k ps) \<and> k \<le> length ps \<and> (e = None \<longleftrightarrow> k = length ps)
        \<and> (\<forall>i<k. fails (n + i) = None) \<and> (e \<noteq> None \<longrightarrow> fails (n + k) = e))"
proof (induction fails n ps arbitrary: out e rule: write_all.induct)
  case (2 fails n p ps)
  show ?case
  proof (cases "fails n")
    case None
    with 2 obtain out' where o: "write_all fails (Suc n) ps = (out', e)" "out = p @ out'"
      by (auto split: prod.splits)
    with 2(1) [OF None o(1)] obtain k where k: "out' = concat (take k ps)" "k \<le> length ps"
      "e = None \<longleftrightarrow> k = length ps" "\<forall>i<k. fails (Suc n + i) = None" "e \<noteq> None \<longrightarrow> fails (Suc n + k) = e" by blast
    have "\<forall>i<Suc k. fails (n + i) = None"
      using k(4) None by (metis add.right_neutral add_Suc_shift less_Suc_eq_0_disj)
    with o k show ?thesis by (intro exI [of _ "Suc k"]) auto
  next
    case (Some a)
    with 2(2) have "out = []" "e = Some a" by auto
    with Some show ?thesis by (intro exI [of _ 0]) auto
  qed
qed auto

subsection \<open>Properties\<close>

text \<open>C32: events written to a stream are the events read from it: the texts of any events
  whose fields fit on a line (and whose retry time is a number of milliseconds), one after
  the other and however long their lines are, are read back as exactly those events, in
  order, before the error the stream ends with.\<close>

theorem events_roundtrip:
  assumes "\<forall>ev\<in>set evs. event_ok ev"
  shows "read_events (NewReadCloser (concat (map Encode evs)) err ce) = (evs, err)"
proof -
  have "\<forall>ev\<in>set evs. event_ok ev \<Longrightarrow> rc_rest rc = concat (map Encode evs) \<Longrightarrow> rc_end rc = err \<Longrightarrow>
      read_events rc = (evs, err)" for rc
  proof (induction evs arbitrary: rc)
    case Nil
    then show ?case by (subst read_events.simps) (simp add: rc_Next_def next_event_end)
  next
    case (Cons ev evs)
    then have "rc_Next rc = (rc\<lparr>rc_rest := concat (map Encode evs), rc_lastID := sse_ID ev\<rparr>, Ok ev)"
      by (intro rc_Next_Encode) simp_all
    with Cons show ?case by (subst read_events.simps) simp
  qed
  then show ?thesis using assms by (simp add: NewReadCloser_def)
qed

theorem events_roundtrip_witness:
  "read_events (NewReadCloser (concat (map Encode
       [\<lparr>sse_ID = ''1'', sse_Name = ''alert'', sse_Data = ''a: b'' @ LF # LF # '' c'', sse_Retry = 3000000000\<rparr>,
        \<lparr>sse_ID = [], sse_Name = [], sse_Data = [], sse_Retry = 0\<rparr>])) EOF None)
   = ([\<lparr>sse_ID = ''1'', sse_Name = ''alert'', sse_Data = ''a: b'' @ LF # LF # '' c'', sse_Retry = 3000000000\<rparr>,
       \<lparr>sse_ID = [], sse_Name = [], sse_Data = [], sse_Retry = 0\<rparr>], EOF)"
proof -
  have "(3000000000 :: int) = 3000 * 1000000" "(0 :: int) = 0 * 1000000" by simp_all
  then have "\<forall>ev\<in>set [\<lparr>sse_ID = ''1'', sse_Name = ''alert'', sse_Data = ''a: b'' @ LF # LF # '' c'', sse_Retry = 3000000000\<rparr>,
        \<lparr>sse_ID = [], sse_Name = [], sse_Data = [], sse_Retry = 0\<rparr>]. event_ok ev"
    unfolding event_ok_def by (simp add: line_ok_def special_chars int64_min_def int64_max_def)
  from events_roundtrip [OF this, of EOF None] show ?thesis .
qed

text \<open>The two ways of writing an event agree: \<open>Write\<close> to a destination that never fails
  writes exactly \<open>Encode\<close>; to one that fails it writes the pieces before the first failing
  call, a prefix of \<open>Encode\<close>, and returns that call's error.\<close>

theorem Write_agrees_with_Encode:
  "(\<exists>k rest. fst (Event_Write fails ev) = concat (take k (write_pieces ev))
      \<and> Encode ev = fst (Event_Write fails ev) @ rest
      \<and> (if snd (Event_Write fails ev) = None then rest = [] else fails k = snd (Event_Write fails ev)))
   \<and> (snd (Event_Write (\<lambda>n. None) ev) = None \<and> fst (Event_Write (\<lambda>n. None) ev) = Encode ev)"
proof
  obtain out e where o: "Event_Write fails ev = (out, e)" by (cases "Event_Write fails ev")
  from write_all_prefix [OF o [unfolded Event_Write_def]] obtain k where
    k: "out = concat (take k (write_pieces ev))" "e = None \<longleftrightarrow> k = length (write_pieces ev)"
      "e \<noteq> None \<longrightarrow> fails k = e" by auto
  have "Encode ev = out @ concat (drop k (write_pieces ev))"
    unfolding k(1) concat_write_pieces [symmetric] by (metis append_take_drop_id concat_append)
  with o k show "\<exists>k rest. fst (Event_Write fails ev) = concat (take k (write_pieces ev))
      \<and> Encode ev = fst (Event_Write fails ev) @ rest
      \<and> (if snd (Event_Write fails ev) = None then rest = [] else fails k = snd (Event_Write fails ev))"
    by (intro exI [of _ k] exI [of _ "concat (drop k (write_pieces ev))"]) auto
  obtain out' e' where o': "Event_Write (\<lambda>n. None) ev = (out', e')" by (cases "Event_Write (\<lambda>n. None) ev")
  from write_all_prefix [OF o' [unfolded Event_Write_def]] have "e' = None \<and> out' = concat (write_pieces ev)" by auto
  with o' show "snd (Event_Write (\<lambda>n. None) ev) = None \<and> fst (Event_Write (\<lambda>n. None) ev) = Encode ev"
    by (simp add: concat_write_pieces)
qed

end
