(* ===== verification/EventSource.thy ===== *)
theory EventSource
  imports Sse
begin

text \<open>
  \<^verbatim>\<open>internal/sse/event_source.go\<close>: the client side of a stream of server-sent events, with
  its reconnections.

  The HTTP server is a script: the results of the requests, in order; an exhausted script
  is a request still without an answer (\<open>Pending\<close>). \<open>closing n\<close> says whether another
  goroutine closes the source during its wait number \<open>n\<close>. The record keeps, beside the
  fields of the code, the \<open>Last-Event-ID\<close> headers sent and the waits started.
\<close>

subsection \<open>State\<close>

datatype http_result =
    HttpErr gerror
  | HttpRes int string string gerror "gerror option"

type_synonym script = "http_result list"

record EventSource =
  es_current :: "ReadCloser option"
  es_lastEventID :: string
  es_closed :: bool
  es_retryInterval :: int
  es_maxRetries :: "16 word"
  es_requests :: "string list"
  es_waits :: "int list"

definition ErrSourceClosed :: gerror where
  "ErrSourceClosed = ''source closed''"

definition BadResponse :: "string \<Rightarrow> gerror" where
  "BadResponse status = ''bad response from event source: '' @ status"

definition createEventSource :: "int \<Rightarrow> 16 word \<Rightarrow> EventSource" where
  "createEventSource retryInterval maxRetries =
     \<lparr>es_current = None, es_lastEventID = [], es_closed = False, es_retryInterval = retryInterval,
      es_maxRetries = maxRetries, es_requests = [], es_waits = []\<rparr>"

definition NewEventSource :: "int \<Rightarrow> EventSource" where
  "NewEventSource defaultRetryInterval = createEventSource defaultRetryInterval 0"

subsection \<open>Waiting and retrying\<close>

text \<open>A source that is closed, or closes during the wait, ends the wait with an error.\<close>

definition waitForRetry :: "(nat \<Rightarrow> bool) \<Rightarrow> EventSource \<Rightarrow> EventSource \<times> gerror option" where
  "waitForRetry closing source =
     (let closed = es_closed source \<or> closing (length (es_waits source));
          source' = source\<lparr>es_current := None, es_waits := es_waits source @ [es_retryInterval source],
                           es_closed := closed\<rparr> in
      (source', if closed then Some ErrSourceClosed else None))"

definition shouldRetry :: "EventSource \<Rightarrow> 16 word \<Rightarrow> bool" where
  "shouldRetry source retries \<longleftrightarrow>
     es_maxRetries source = 0 \<or> (es_maxRetries source > 0 \<and> retries \<le> es_maxRetries source)"

datatype 'a pending = Done 'a | Failed gerror | Pending

definition retry_status :: "int \<Rightarrow> bool" where
  "retry_status code \<longleftrightarrow> code = 500 \<or> code = 502 \<or> code = 503 \<or> code = 504"

text \<open>The loop of \<open>establishConnection\<close>; \<open>retries\<close> is its 16-bit counter.\<close>

fun establish ::
  "(nat \<Rightarrow> bool) \<Rightarrow> script \<Rightarrow> 16 word \<Rightarrow> EventSource \<Rightarrow> EventSource \<times> script \<times> ReadCloser pending" where
  "establish closing [] retries source = (source, [], Pending)"
| "establish closing (HttpErr e # rs) retries source =
     (let source1 = source\<lparr>es_requests := es_requests source @ [es_lastEventID source]\<rparr>;
          retries1 = retries + 1 in
      if \<not> shouldRetry source1 retries1 then (source1, rs, Failed e)
      else (case waitForRetry closing source1 of
              (source2, Some e') \<Rightarrow> (source2, rs, Failed e')
            | (source2, None) \<Rightarrow> establish closing rs retries1 source2))"
| "establish closing (HttpRes code status body err ce # rs) retries source =
     (let source1 = source\<lparr>es_requests := es_requests source @ [es_lastEventID source]\<rparr> in
      if code = 200 then (source1, rs, Done (NewReadCloser body err ce))
      else if retry_status code then
        (case waitForRetry closing source1 of
           (source2, Some e') \<Rightarrow> (source2, rs, Failed e')
         | (source2, None) \<Rightarrow> establish closing rs retries source2)
      else (source1, rs, Failed (BadResponse status)))"

definition establishConnection ::
  "(nat \<Rightarrow> bool) \<Rightarrow> script \<Rightarrow> EventSource \<Rightarrow> EventSource \<times> script \<times> ReadCloser pending" where
  "establishConnection closing rs source = establish closing rs 0 source"

subsection \<open>Operations\<close>

definition es_Connect ::
  "(nat \<Rightarrow> bool) \<Rightarrow> script \<Rightarrow> int \<Rightarrow> 16 word \<Rightarrow> script \<times> EventSource pending" where
  "es_Connect closing rs interval maxRetries =
     (case establishConnection closing rs (createEventSource interval maxRetries) of
        (source, rs', Done rc) \<Rightarrow> (rs', Done (source\<lparr>es_current := Some rc\<rparr>))
      | (source, rs', Failed e) \<Rightarrow> (rs', Failed e)
      | (source, rs', Pending) \<Rightarrow> (rs', Pending))"

text \<open>The function \<open>Connect\<close>: retries without a limit.\<close>

definition sse_Connect :: "(nat \<Rightarrow> bool) \<Rightarrow> script \<Rightarrow> int \<Rightarrow> script \<times> EventSource pending" where
  "sse_Connect closing rs defaultRetryInterval =
     (case establishConnection closing rs (NewEventSource defaultRetryInterval) of
        (source, rs', Done rc) \<Rightarrow> (rs', Done (source\<lparr>es_current := Some rc\<rparr>))
      | (source, rs', Failed e) \<Rightarrow> (rs', Failed e)
      | (source, rs', Pending) \<Rightarrow> (rs', Pending))"

definition ensureReadCloser ::
  "(nat \<Rightarrow> bool) \<Rightarrow> script \<Rightarrow> EventSource \<Rightarrow> EventSource \<times> script \<times> ReadCloser pending" where
  "ensureReadCloser closing rs source =
     (case es_current source of
        Some rc \<Rightarrow> (source, rs, Done rc)
      | None \<Rightarrow>
          (case establishConnection closing rs source of
             (source1, rs1, Done rc) \<Rightarrow>
               (if es_closed source1 then (source1, rs1, Failed ErrSourceClosed)
                else (source1\<lparr>es_current := Some rc\<rparr>, rs1, Done rc))
           | (source1, rs1, r) \<Rightarrow> (source1, rs1, r)))"

lemma sse_Connect_unlimited: "sse_Connect closing rs interval = es_Connect closing rs interval 0"
  by (simp add: sse_Connect_def es_Connect_def NewEventSource_def)

lemma waitForRetry_current: "waitForRetry closing source = (source', e) \<Longrightarrow> es_current source' = None"
  by (auto simp: waitForRetry_def Let_def)

lemma establish_shorter:
  "establish closing rs retries source = (source', rs', Done rc) \<Longrightarrow> length rs' < length rs"
proof (induction closing rs retries source rule: establish.induct)
  case (2 closing e rs retries source)
  then show ?case by (fastforce simp: Let_def split: if_splits prod.splits option.splits)
next
  case (3 closing code status body err ce rs retries source)
  then show ?case by (fastforce simp: Let_def split: if_splits prod.splits option.splits)
qed simp

lemma ensureReadCloser_script:
  "ensureReadCloser closing rs source = (source', rs', Done rc) \<Longrightarrow>
     length rs' + 1 < length rs + (case es_current source of None \<Rightarrow> 1 | Some _ \<Rightarrow> 2)"
  by (auto simp: ensureReadCloser_def establishConnection_def split: option.splits prod.splits pending.splits if_splits
      dest: establish_shorter)

text \<open>The loop of \<open>Next\<close>.\<close>

function next_loop ::
  "(nat \<Rightarrow> bool) \<Rightarrow> script \<Rightarrow> EventSource \<Rightarrow> EventSource \<times> script \<times> Event pending" where
  "next_loop closing rs source =
     (case ensureReadCloser closing rs source of
        (source1, rs1, Failed e) \<Rightarrow> (source1, rs1, Failed e)
      | (source1, rs1, Pending) \<Rightarrow> (source1, rs1, Pending)
      | (source1, rs1, Done rc) \<Rightarrow>
          (case rc_Next rc of
             (rc1, Ok ev) \<Rightarrow>
               (source1\<lparr>es_current := Some rc1, es_lastEventID := sse_ID ev,
                        es_retryInterval := (if sse_Retry ev \<noteq> 0 then sse_Retry ev else es_retryInterval source1)\<rparr>,
                rs1, Done ev)
           | (rc1, Err e) \<Rightarrow>
               (if e = EOF then (source1\<lparr>es_current := Some rc1\<rparr>, rs1, Failed e)
                else (case waitForRetry closing source1 of
                        (source2, Some e') \<Rightarrow> (source2, rs1, Failed e')
                      | (source2, None) \<Rightarrow> next_loop closing rs1 source2))
           | (rc1, Panic w) \<Rightarrow> (source1, rs1, Failed w)
           | (rc1, Exit n) \<Rightarrow> (source1, rs1, Failed [])))"
  by pat_completeness auto
termination
  by (relation "measure (\<lambda>(closing, rs, source). length rs + (case es_current source of None \<Rightarrow> 0 | Some _ \<Rightarrow> 1))")
    (auto dest!: ensureReadCloser_script [OF sym] waitForRetry_current [OF sym] split: option.splits)

declare next_loop.simps [simp del]

definition es_Next ::
  "(nat \<Rightarrow> bool) \<Rightarrow> script \<Rightarrow> EventSource \<Rightarrow> EventSource \<times> script \<times> Event pending" where
  "es_Next closing rs source =
     (if es_closed source then (source, rs, Failed ErrSourceClosed) else next_loop closing rs source)"

definition es_Close :: "EventSource \<Rightarrow> EventSource \<times> gerror option" where
  "es_Close source =
     (let source1 = source\<lparr>es_closed := True\<rparr> in
      case es_current source1 of
        None \<Rightarrow> (source1, None)
      | Some rc \<Rightarrow>
          (case rc_Close rc of
             (rc1, Some e) \<Rightarrow> (source1\<lparr>es_current := Some rc1\<rparr>, Some e)
           | (rc1, None) \<Rightarrow> (source1\<lparr>es_current := None\<rparr>, None)))"

subsection \<open>Lemmas\<close>

lemma wait_open:
  "(\<forall>n. \<not> closing n) \<Longrightarrow> \<not> es_closed source \<Longrightarrow>
     waitForRetry closing source =
       (source\<lparr>es_current := None, es_waits := es_waits source @ [es_retryInterval source]\<rparr>, None)"
  by (simp add: waitForRetry_def Let_def)

text \<open>With a bound \<open>m\<close> below the largest 16-bit number, \<open>m + 1\<close> failed requests end the loop.\<close>

lemma establish_bounded:
  assumes "\<forall>n. \<not> closing n" and "0 < unat (es_maxRetries source)" "unat (es_maxRetries source) < 65535"
    and "unat retries \<le> unat (es_maxRetries source)" and "\<not> es_closed source"
  shows "if length errs \<le> unat (es_maxRetries source) - unat retries
    then \<exists>source'. establish closing (map HttpErr errs) retries source = (source', [], Pending)
        \<and> length (es_requests source') = length (es_requests source) + length errs
    else \<exists>source' k. k = unat (es_maxRetries source) - unat retries
        \<and> establish closing (map HttpErr errs) retries source
            = (source', map HttpErr (drop (Suc k) errs), Failed (errs ! k))
        \<and> length (es_requests source') = length (es_requests source) + Suc k"
  using assms
proof (induction errs arbitrary: retries source)
  case (Cons e errs)
  let ?m = "es_maxRetries source"
  let ?s1 = "source\<lparr>es_requests := es_requests source @ [es_lastEventID source]\<rparr>"
  have un: "unat (retries + 1) = Suc (unat retries)"
    using Cons.prems(3,4) by (simp add: unat_word_ariths(1))
  have m0: "?m \<noteq> 0" using Cons.prems(2) by auto
  have should: "shouldRetry ?s1 (retries + 1) \<longleftrightarrow> Suc (unat retries) \<le> unat ?m"
    using m0 un by (simp add: shouldRetry_def word_le_nat_alt word_gt_0)
  show ?case
  proof (cases "Suc (unat retries) \<le> unat ?m")
    case False
    with Cons.prems(4) have k: "unat ?m = unat retries" by simp
    from False should have "establish closing (map HttpErr (e # errs)) retries source = (?s1, map HttpErr errs, Failed e)"
      by (simp add: Let_def)
    with k show ?thesis by simp
  next
    case True
    let ?s2 = "?s1\<lparr>es_current := None, es_waits := es_waits source @ [es_retryInterval source]\<rparr>"
    have step: "establish closing (map HttpErr (e # errs)) retries source = establish closing (map HttpErr errs) (retries + 1) ?s2"
      using True should wait_open [of closing ?s1] Cons.prems(1,5) by (simp add: Let_def)
    have "unat ?m - unat retries = Suc (unat ?m - unat (retries + 1))" using True un by simp
    with Cons.IH [of ?s2 "retries + 1"] Cons.prems True un step show ?thesis by (auto split: if_splits)
  qed
qed simp

text \<open>Without a bound, or with the largest one, which the counter never exceeds, it never ends.\<close>

lemma establish_unbounded:
  assumes "\<forall>n. \<not> closing n" and "es_maxRetries source = 0 \<or> es_maxRetries source = 65535" and "\<not> es_closed source"
  shows "\<exists>source'. establish closing (map HttpErr errs) retries source = (source', [], Pending)
      \<and> length (es_requests source') = length (es_requests source) + length errs"
  using assms
proof (induction errs arbitrary: retries source)
  case (Cons e errs)
  let ?s1 = "source\<lparr>es_requests := es_requests source @ [es_lastEventID source]\<rparr>"
  let ?s2 = "?s1\<lparr>es_current := None, es_waits := es_waits source @ [es_retryInterval source]\<rparr>"
  have "unat (retries + 1) < 2 ^ LENGTH(16)" by (rule unsigned_less)
  then have "unat (retries + 1) < 65536" by simp
  then have "retries + 1 \<le> (65535 :: 16 word)" by (simp add: word_le_nat_alt)
  then have should: "shouldRetry ?s1 (retries + 1)"
    using Cons.prems(2) by (auto simp: shouldRetry_def)
  have step: "establish closing (map HttpErr (e # errs)) retries source = establish closing (map HttpErr errs) (retries + 1) ?s2"
    using should wait_open [of closing ?s1] Cons.prems(1,3) by (simp add: Let_def)
  have "\<exists>source'. establish closing (map HttpErr errs) (retries + 1) ?s2 = (source', [], Pending)
      \<and> length (es_requests source') = length (es_requests ?s2) + length errs"
    using Cons.prems by (intro Cons.IH) simp_all
  then show ?case unfolding step by simp
qed simp

lemma establish_requests:
  "establish closing rs retries source = (source', rs', r) \<Longrightarrow>
     es_lastEventID source' = es_lastEventID source \<and>
     es_requests source' = es_requests source @ replicate (length rs - length rs') (es_lastEventID source)
     \<and> length rs' \<le> length rs"
proof (induction closing rs retries source rule: establish.induct)
  case (2 closing e rs retries source)
  then show ?case
    by (fastforce simp: Let_def waitForRetry_def Suc_diff_le replicate_append_same split: if_splits)
next
  case (3 closing code status body err ce rs retries source)
  then show ?case
    by (fastforce simp: Let_def waitForRetry_def Suc_diff_le replicate_append_same split: if_splits)
qed simp

lemma next_loop_Done:
  "next_loop closing rs source = (source', rs', Done ev) \<Longrightarrow> es_lastEventID source' = sse_ID ev"
proof (induction closing rs source rule: next_loop.induct)
  case (1 closing rs source)
  then show ?case
    by (subst (asm) (2) next_loop.simps)
       (fastforce split: prod.splits pending.splits outcome.splits option.splits if_splits)
qed

subsection \<open>A stream over several connections\<close>

fun next_results :: "nat \<Rightarrow> (nat \<Rightarrow> bool) \<Rightarrow> script \<Rightarrow> EventSource \<Rightarrow> Event pending list" where
  "next_results 0 closing rs source = []"
| "next_results (Suc n) closing rs source =
     (case es_Next closing rs source of (source', rs', r) \<Rightarrow> r # next_results n closing rs' source')"

definition ok_response :: "Event list \<Rightarrow> gerror \<Rightarrow> http_result" where
  "ok_response evs err = HttpRes 200 ''200 OK'' (concat (map Encode evs)) err None"

lemma Next_connects:
  assumes "es_current source = None" and "\<not> es_closed source"
  shows "\<exists>source'. es_Next closing (ok_response evs err # rs) source = es_Next closing rs source'
    \<and> \<not> es_closed source' \<and> es_current source' = Some (NewReadCloser (concat (map Encode evs)) err None)"
proof -
  let ?s = "source\<lparr>es_requests := es_requests source @ [es_lastEventID source],
      es_current := Some (NewReadCloser (concat (map Encode evs)) err None)\<rparr>"
  have "next_loop closing (ok_response evs err # rs) source = next_loop closing rs ?s"
    using assms
    by (subst (1 2) next_loop.simps) (simp add: ensureReadCloser_def establishConnection_def ok_response_def)
  with assms show ?thesis by (intro exI [of _ ?s]) (simp add: es_Next_def)
qed

lemma Next_reconnects:
  assumes "es_current source = Some rc" and "rc_rest rc = []" and "rc_end rc \<noteq> EOF"
    and "\<not> es_closed source" and "\<forall>n. \<not> closing n"
  shows "\<exists>source'. es_Next closing rs source = es_Next closing rs source'
    \<and> \<not> es_closed source' \<and> es_current source' = None"
proof -
  let ?s = "source\<lparr>es_current := None, es_waits := es_waits source @ [es_retryInterval source]\<rparr>"
  have "next_loop closing rs source = next_loop closing rs ?s"
    using assms wait_open [of closing source]
    by (subst next_loop.simps) (simp add: ensureReadCloser_def rc_Next_def next_event_end)
  with assms(4) show ?thesis by (intro exI [of _ ?s]) (simp add: es_Next_def)
qed

lemma Next_event:
  assumes "es_current source = Some rc" and "rc_rest rc = Encode ev @ r" and "event_ok ev" and "\<not> es_closed source"
  shows "\<exists>source'. es_Next closing rs source = (source', rs, Done ev) \<and> \<not> es_closed source'
    \<and> es_current source' = Some (rc\<lparr>rc_rest := r, rc_lastID := sse_ID ev\<rparr>)"
proof -
  have "rc_Next rc = (rc\<lparr>rc_rest := r, rc_lastID := sse_ID ev\<rparr>, Ok ev)" using assms(2,3) by (intro rc_Next_Encode)
  with assms(1,4) show ?thesis
    by (simp add: es_Next_def) (subst next_loop.simps, simp add: ensureReadCloser_def)
qed

lemma Next_EOF:
  assumes "es_current source = Some rc" and "rc_rest rc = []" and "rc_end rc = EOF" and "\<not> es_closed source"
  shows "\<exists>source'. es_Next closing rs source = (source', rs, Failed EOF) \<and> \<not> es_closed source'
    \<and> es_current source' = Some rc"
proof -
  have "rc\<lparr>rc_rest := []\<rparr> = rc" using assms(2) by simp
  with assms show ?thesis
    by (simp add: es_Next_def)
       (subst next_loop.simps, simp add: ensureReadCloser_def rc_Next_def next_event_end)
qed

lemma results_events:
  "es_current source = Some rc \<Longrightarrow> rc_rest rc = concat (map Encode evs) \<Longrightarrow> \<forall>ev\<in>set evs. event_ok ev \<Longrightarrow>
     \<not> es_closed source \<Longrightarrow>
     \<exists>source' rc'. next_results (length evs + k) closing rs source = map Done evs @ next_results k closing rs source'
       \<and> es_current source' = Some rc' \<and> rc_rest rc' = [] \<and> rc_end rc' = rc_end rc \<and> \<not> es_closed source'"
proof (induction evs arbitrary: source rc)
  case Nil
  then show ?case by auto
next
  case (Cons ev evs)
  have "rc_rest rc = Encode ev @ concat (map Encode evs)" "event_ok ev" using Cons.prems(2,3) by simp_all
  from Next_event [OF Cons.prems(1) this Cons.prems(4), of closing rs] obtain s1 where
    s1: "es_Next closing rs source = (s1, rs, Done ev)" "\<not> es_closed s1"
      "es_current s1 = Some (rc\<lparr>rc_rest := concat (map Encode evs), rc_lastID := sse_ID ev\<rparr>)" by blast
  with Cons.IH [of s1 "rc\<lparr>rc_rest := concat (map Encode evs), rc_lastID := sse_ID ev\<rparr>"] Cons.prems(3) show ?case
    by auto
qed

lemma results_stream:
  assumes "\<forall>n. \<not> closing n" and "err \<noteq> EOF" and "\<forall>ev\<in>set (concat evss @ final). event_ok ev"
  shows "es_current source = None \<Longrightarrow> \<not> es_closed source \<Longrightarrow>
    next_results (length (concat evss @ final) + 1) closing
      (map (\<lambda>evs. ok_response evs err) evss @ [ok_response final EOF]) source
    = map Done (concat evss @ final) @ [Failed EOF]"
  using assms(3)
proof (induction evss arbitrary: source)
  case Nil
  from Next_connects [OF Nil.prems(1,2), of closing final EOF "[]"] obtain s1 where
    s1: "es_Next closing [ok_response final EOF] source = es_Next closing [] s1" "\<not> es_closed s1"
      "es_current s1 = Some (NewReadCloser (concat (map Encode final)) EOF None)" by blast
  have "\<forall>ev\<in>set final. event_ok ev" using Nil.prems(3) by simp
  from results_events [OF s1(3) _ this s1(2), of 1 closing "[]"] obtain s2 rc2 where
    s2: "next_results (length final + 1) closing [] s1 = map Done final @ next_results 1 closing [] s2"
      "es_current s2 = Some rc2" "rc_rest rc2 = []" "rc_end rc2 = EOF" "\<not> es_closed s2"
    by (auto simp: NewReadCloser_def)
  have "next_results 1 closing [] s2 = [Failed EOF]"
    using s2(2-5) by (simp add: es_Next_def)
      (subst next_loop.simps, simp add: ensureReadCloser_def rc_Next_def next_event_end)
  with s1(1) s2(1) show ?case by simp
next
  case (Cons evs evss)
  let ?rs = "map (\<lambda>evs. ok_response evs err) evss @ [ok_response final EOF]"
  let ?k = "length (concat evss @ final) + 1"
  from Next_connects [OF Cons.prems(1,2), of closing evs err ?rs] obtain s1 where
    s1: "es_Next closing (ok_response evs err # ?rs) source = es_Next closing ?rs s1" "\<not> es_closed s1"
      "es_current s1 = Some (NewReadCloser (concat (map Encode evs)) err None)" by blast
  have "\<forall>ev\<in>set evs. event_ok ev" using Cons.prems(3) by simp
  from results_events [OF s1(3) _ this s1(2), of ?k closing ?rs] obtain s2 rc2 where
    s2: "next_results (length evs + ?k) closing ?rs s1 = map Done evs @ next_results ?k closing ?rs s2"
      "es_current s2 = Some rc2" "rc_rest rc2 = []" "rc_end rc2 = err" "\<not> es_closed s2"
    by (auto simp: NewReadCloser_def)
  from Next_reconnects [OF s2(2,3) _ s2(5) assms(1), of ?rs] s2(4) assms(2) obtain s3 where
    s3: "es_Next closing ?rs s2 = es_Next closing ?rs s3" "\<not> es_closed s3" "es_current s3 = None" by blast
  have "next_results (length evs + ?k) closing (ok_response evs err # ?rs) source
      = next_results (length evs + ?k) closing ?rs s1"
    using s1(1) by simp
  moreover have "next_results ?k closing ?rs s2 = next_results ?k closing ?rs s3"
    using s3(1) by simp
  moreover have "next_results ?k closing ?rs s3 = map Done (concat evss @ final) @ [Failed EOF]"
    using Cons.IH [OF s3(3,2)] Cons.prems(3) by simp
  ultimately show ?case using s2(1) by (simp add: add.assoc)
qed

subsection \<open>Properties\<close>

text \<open>C36: the bound on connection attempts: a source with a bound \<open>m\<close> makes \<open>m + 1\<close> requests
  when all fail, and then returns the error of the last; with no bound it goes on as long
  as requests fail; but with the largest bound, 65535, it goes on forever too, because the
  16-bit counter wraps around before it exceeds the bound.\<close>

theorem connection_attempts:
  assumes "\<forall>n. \<not> closing n" and "m = 0 \<or> m = 65535 \<or> unat m < length errs"
  shows "\<exists>source rs r. establishConnection closing (map HttpErr errs) (createEventSource interval m) = (source, rs, r)
    \<and> (if m = 0 \<or> m = 65535 then r = Pending \<and> length (es_requests source) = length errs
       else r = Failed (errs ! unat m) \<and> length (es_requests source) = unat m + 1)"
proof (cases "m = 0 \<or> m = 65535")
  case True
  with establish_unbounded [of closing "createEventSource interval m" errs 0] assms(1) show ?thesis
    by (auto simp: establishConnection_def createEventSource_def)
next
  case False
  have "unat m < 2 ^ LENGTH(16)" by (rule unsigned_less)
  then have "unat m < 65536" by simp
  moreover have "unat m \<noteq> 65535"
  proof
    assume "unat m = 65535"
    then have "unat m = unat (65535 :: 16 word)" by simp
    then have "m = 65535" by (simp only: unsigned_word_eqI word_eq_iff_unsigned)
    with False show False by simp
  qed
  ultimately have "unat m < 65535" by simp
  moreover have "0 < unat m" using False by (simp add: unat_gt_0)
  ultimately show ?thesis
    using establish_bounded [of closing "createEventSource interval m" 0 errs] assms False
    by (auto simp: establishConnection_def createEventSource_def)
qed

theorem connection_attempts_witness:
  "\<exists>source rs. establishConnection (\<lambda>n. False) (map HttpErr [''a'', ''b'', ''c'', ''d'']) (createEventSource 5 2)
      = (source, rs, Failed ''c'') \<and> length (es_requests source) = 3"
  using connection_attempts [of "\<lambda>n. False" 2 "[''a'', ''b'', ''c'', ''d'']" 5] by simp

text \<open>C33: a reader survives broken connections: when the server answers each request with
  some events and the connection then breaks, and the last answer ends properly, the calls
  of \<open>Next\<close> return every event of every answer, in order, and then \<open>EOF\<close>.\<close>

theorem stream_survives_broken_connections:
  assumes "err \<noteq> EOF" and "\<forall>ev\<in>set (concat evss @ final). event_ok ev"
  shows "next_results (length (concat evss @ final) + 1) (\<lambda>n. False)
      (map (\<lambda>evs. ok_response evs err) evss @ [ok_response final EOF]) (createEventSource interval m)
    = map Done (concat evss @ final) @ [Failed EOF]"
  using results_stream [of "\<lambda>n. False" err evss final "createEventSource interval m"] assms
  by (simp add: createEventSource_def)

theorem stream_survives_broken_connections_witness:
  "next_results 3 (\<lambda>n. False)
      [ok_response [\<lparr>sse_ID = ''1'', sse_Name = ''alert'', sse_Data = ''x'', sse_Retry = 0\<rparr>] ''connection reset'',
       ok_response [\<lparr>sse_ID = ''2'', sse_Name = ''alert'', sse_Data = ''y'', sse_Retry = 0\<rparr>] EOF] (createEventSource 5 0)
    = [Done \<lparr>sse_ID = ''1'', sse_Name = ''alert'', sse_Data = ''x'', sse_Retry = 0\<rparr>,
       Done \<lparr>sse_ID = ''2'', sse_Name = ''alert'', sse_Data = ''y'', sse_Retry = 0\<rparr>, Failed EOF]"
proof -
  have "\<forall>ev\<in>set (concat [[\<lparr>sse_ID = ''1'', sse_Name = ''alert'', sse_Data = ''x'', sse_Retry = 0\<rparr>]]
      @ [\<lparr>sse_ID = ''2'', sse_Name = ''alert'', sse_Data = ''y'', sse_Retry = 0\<rparr>]). event_ok ev"
    by (simp add: event_ok_def line_ok_def special_chars int64_min_def int64_max_def)
  from stream_survives_broken_connections [OF _ this, of "''connection reset''" 5 0] show ?thesis
    by (simp add: EOF_def numeral_3_eq_3)
qed

text \<open>Resuming: after \<open>Next\<close> has returned an event, every request of the next
  connection, however often it is retried, asks the server to go on from that event's id.\<close>

theorem reconnect_sends_last_id:
  assumes "es_Next closing rs source = (source1, rs1, Done ev)"
    and "establishConnection closing rs2 (source1\<lparr>es_current := None\<rparr>) = (source2, rs3, r)"
  shows "es_requests source2 = es_requests source1 @ replicate (length rs2 - length rs3) (sse_ID ev)"
proof -
  have "es_lastEventID source1 = sse_ID ev"
    using assms(1) next_loop_Done by (auto simp: es_Next_def split: if_splits)
  with establish_requests [OF assms(2) [unfolded establishConnection_def]] show ?thesis by simp
qed

theorem reconnect_sends_last_id_witness:
  "\<exists>source1 source2 rs3 r. es_Next (\<lambda>n. False) [ok_response [\<lparr>sse_ID = ''7'', sse_Name = [], sse_Data = ''x'', sse_Retry = 0\<rparr>] EOF]
        (createEventSource 5 0) = (source1, [], Done \<lparr>sse_ID = ''7'', sse_Name = [], sse_Data = ''x'', sse_Retry = 0\<rparr>)
     \<and> establishConnection (\<lambda>n. False) [HttpErr ''refused'', HttpErr ''refused''] (source1\<lparr>es_current := None\<rparr>) = (source2, rs3, r)
     \<and> es_requests source2 = es_requests source1 @ [''7'', ''7'']"
proof -
  let ?ev = "\<lparr>sse_ID = ''7'', sse_Name = [], sse_Data = ''x'', sse_Retry = 0\<rparr>"
  have ok: "event_ok ?ev" by (simp add: event_ok_def line_ok_def special_chars int64_min_def int64_max_def)
  have "next_event (Encode ?ev) (zero_sse\<lparr>sse_ID := []\<rparr>, False) = Some (?ev, True, [])"
    using next_event_Encode [OF ok, of "[]"] by simp
  then have "next_loop (\<lambda>n. False) [ok_response [?ev] EOF] (createEventSource 5 0) =
      ((createEventSource 5 0)\<lparr>es_requests := [[]],
         es_current := Some ((NewReadCloser (Encode ?ev) EOF None)\<lparr>rc_rest := [], rc_lastID := ''7''\<rparr>),
         es_lastEventID := ''7''\<rparr>, [], Done ?ev)"
    by (subst next_loop.simps)
       (simp add: ensureReadCloser_def establishConnection_def ok_response_def rc_Next_def NewReadCloser_def createEventSource_def)
  then obtain source1 where s1: "es_Next (\<lambda>n. False) [ok_response [?ev] EOF] (createEventSource 5 0) = (source1, [], Done ?ev)"
    and m: "es_maxRetries source1 = 0" "\<not> es_closed source1"
    by (simp add: es_Next_def createEventSource_def)
  from establish_unbounded [of "\<lambda>n. False" "source1\<lparr>es_current := None\<rparr>" "[''refused'', ''refused'']" 0] m obtain source2 where
    e: "establishConnection (\<lambda>n. False) [HttpErr ''refused'', HttpErr ''refused''] (source1\<lparr>es_current := None\<rparr>) = (source2, [], Pending)"
    by (auto simp: establishConnection_def)
  from reconnect_sends_last_id [OF s1 e] s1 e show ?thesis by (simp add: numeral_2_eq_2)
qed

end
