(* ===== verification/GoFloat.thy ===== *)
theory GoFloat
  imports Json
begin

text \<open>
  The \<open>float64\<close> a JSON number becomes when it is decoded into an \<open>interface{}\<close>, and what the
  program makes of it: its conversion to \<open>int\<close>. A finite non-negative float is a mantissa
  and a binary exponent; a decimal literal is rounded to the nearest one, ties to even.
\<close>

function bit_length :: "nat \<Rightarrow> nat" where
  "bit_length n = (if n = 0 then 0 else Suc (bit_length (n div 2)))"
  by pat_completeness auto
termination by (relation "measure id") auto

declare bit_length.simps [simp del]

definition round_half_even :: "nat \<Rightarrow> nat \<Rightarrow> nat" where
  "round_half_even a b =
     (let q = a div b; r = a mod b in
      if 2 * r < b then q else if b < 2 * r then q + 1 else if even q then q else q + 1)"

definition scale :: "nat \<Rightarrow> nat \<Rightarrow> int \<Rightarrow> nat \<times> nat" where
  "scale p q e = (if 0 \<le> e then (p, q * 2 ^ nat e) else (p * 2 ^ nat (- e), q))"

text \<open>The exponent that makes the mantissa 53 bits long, or the smallest there is; the float
  nearest to \<open>p / q\<close>; \<open>None\<close> is out of range.\<close>

definition float_exp :: "nat \<Rightarrow> nat \<Rightarrow> int" where
  "float_exp p q =
     (let e0 = int (bit_length p) - int (bit_length q) - 53 in
      max (if 2 ^ 53 \<le> fst (scale p q e0) div snd (scale p q e0) then e0 + 1 else e0) (- 1074))"

definition float64_of :: "nat \<Rightarrow> nat \<Rightarrow> (nat \<times> int) option" where
  "float64_of p q =
     (if p = 0 then Some (0, 0)
      else (let e = float_exp p q; m = round_half_even (fst (scale p q e)) (snd (scale p q e)) in
            if 0 \<le> e \<and> 2 ^ 1024 \<le> m * 2 ^ nat e then None else Some (m, e)))"

definition float_trunc :: "nat \<times> int \<Rightarrow> nat" where
  "float_trunc f = (case f of (m, e) \<Rightarrow> if 0 \<le> e then m * 2 ^ nat e else m div 2 ^ nat (- e))"

text \<open>A decimal literal as sign, digits and power of ten.\<close>

definition decimal :: "string \<Rightarrow> bool \<times> nat \<times> int" where
  "decimal s =
     (let neg = (s \<noteq> [] \<and> hd s = CHR ''-'');
          u = (if neg then tl s else s);
          whole = takeWhile is_digit u;
          r = dropWhile is_digit u;
          frac = (case r of c # cs \<Rightarrow> if c = CHR ''.'' then takeWhile is_digit cs else [] | [] \<Rightarrow> []);
          r' = (case r of c # cs \<Rightarrow> if c = CHR ''.'' then dropWhile is_digit cs else r | [] \<Rightarrow> []);
          ex = (case r' of [] \<Rightarrow> 0 | c # cs \<Rightarrow>
                  (if cs \<noteq> [] \<and> hd cs = CHR ''-'' then - int (the (parse_nat (tl cs)))
                   else if cs \<noteq> [] \<and> hd cs = CHR ''+'' then int (the (parse_nat (tl cs)))
                   else int (the (parse_nat cs))));
          n = (case parse_nat (whole @ frac) of None \<Rightarrow> 0 | Some k \<Rightarrow> k) in
      (neg, n, ex - int (length frac)))"

definition json_float :: "string \<Rightarrow> (bool \<times> nat \<times> int) option" where
  "json_float s =
     (case decimal s of (neg, n, e) \<Rightarrow>
        map_option (\<lambda>f. (neg, f))
          (if 0 \<le> e then float64_of (n * 10 ^ nat e) 1 else float64_of n (10 ^ nat (- e))))"

text \<open>\<open>int(f)\<close> truncates; out of the 64-bit range it gives the smallest integer (as on amd64).\<close>

definition float_to_int :: "bool \<times> nat \<times> int \<Rightarrow> int" where
  "float_to_int f =
     (case f of (neg, a) \<Rightarrow>
        (let i = (if neg then - int (float_trunc a) else int (float_trunc a)) in
         if int64_min \<le> i \<and> i \<le> int64_max then i else int64_min))"

definition json_int :: "string \<Rightarrow> int" where
  "json_int s = (case json_float s of None \<Rightarrow> int64_min | Some f \<Rightarrow> float_to_int f)"

text \<open>Decoding into an \<open>interface{}\<close> fails on a number that is out of the range of floats.\<close>

fun numbers_ok :: "json \<Rightarrow> bool" where
  "numbers_ok (JNum n) = (json_float n \<noteq> None)"
| "numbers_ok (JArr vs) = list_all numbers_ok vs"
| "numbers_ok (JObj ms) = list_all (\<lambda>m. numbers_ok (snd m)) ms"
| "numbers_ok _ = True"

subsection \<open>Small integers are exact\<close>

lemma bit_length_small [simp]: "bit_length 0 = 0" "bit_length (Suc 0) = Suc 0"
  by (simp_all add: bit_length.simps [of 0] bit_length.simps [of "Suc 0"])

lemma bit_length_bounds: "0 < n \<Longrightarrow> 2 ^ (bit_length n - 1) \<le> n \<and> n < 2 ^ bit_length n \<and> 0 < bit_length n"
proof (induction n rule: bit_length.induct)
  case (1 n)
  show ?case
  proof (cases "n div 2 = 0")
    case True
    with "1.prems" have "n = 1" by auto
    then show ?thesis by simp
  next
    case False
    let ?k = "bit_length (n div 2)"
    have "n \<noteq> 0" "0 < n div 2" using False "1.prems" by simp_all
    from "1.IH" [OF this] have IH: "2 ^ (?k - 1) \<le> n div 2" "n div 2 < 2 ^ ?k" "0 < ?k" by blast+
    have eq: "bit_length n = Suc ?k" using "1.prems" by (simp add: bit_length.simps [of n])
    obtain j where j: "?k = Suc j" using IH(3) by (cases ?k) auto
    have "2 * 2 ^ j \<le> n" using IH(1) j by simp
    moreover have "n < 2 * 2 ^ ?k" using IH(2) by linarith
    ultimately show ?thesis by (simp add: eq j)
  qed
qed

lemma round_exact: "0 < b \<Longrightarrow> b dvd a \<Longrightarrow> round_half_even a b = a div b"
  by (auto simp: round_half_even_def Let_def)

lemma float64_of_int:
  assumes "n < 2 ^ 53"
  shows "\<exists>f. float64_of n 1 = Some f \<and> float_trunc f = n"
proof (cases "n = 0")
  case True
  then show ?thesis by (simp add: float64_of_def float_trunc_def)
next
  case False
  then have b: "2 ^ (bit_length n - 1) \<le> n" "n < 2 ^ bit_length n" "0 < bit_length n"
    using bit_length_bounds [of n] by auto
  have "2 ^ (bit_length n - 1) < (2 ^ 53 :: nat)" using b(1) assms by (rule le_less_trans)
  then have len: "bit_length n \<le> 53" using power_less_imp_less_exp [of "2 :: nat" "bit_length n - 1" 53] by simp
  have one: "bit_length 1 = 1" by simp
  define k where "k = 54 - bit_length n"
  have e0: "int (bit_length n) - int (bit_length 1) - 53 = - int k" using len by (simp add: one k_def)
  have pos: "0 < k" using len by (simp add: k_def)
  have "n * 2 ^ k \<ge> 2 ^ 53"
  proof -
    have "(2 ^ 53 :: nat) = 2 ^ (bit_length n - 1) * 2 ^ k" using len b(3) by (simp add: k_def power_add [symmetric])
    also have "\<dots> \<le> n * 2 ^ k" by (rule mult_le_mono1 [OF b(1)])
    finally show ?thesis .
  qed
  then have "2 ^ 53 \<le> fst (scale n 1 (- int k)) div snd (scale n 1 (- int k))"
    using pos by (simp add: scale_def)
  moreover have "- 1074 \<le> - int k + 1" using len by (simp add: k_def)
  ultimately have e: "float_exp n 1 = - int (k - 1)"
    using pos unfolding float_exp_def Let_def e0 by (simp add: of_nat_diff max_def)
  let ?m = "n * 2 ^ (k - 1)"
  have sc: "scale n 1 (- int (k - 1)) = (?m, 1)" by (cases k) (simp_all add: scale_def)
  have "float64_of n 1 = (if 0 \<le> - int (k - 1) \<and> 2 ^ 1024 \<le> ?m * 2 ^ nat (- int (k - 1)) then None else Some (?m, - int (k - 1)))"
    using False unfolding float64_of_def Let_def e sc by (simp only: fst_conv snd_conv round_exact [OF zero_less_one one_dvd] div_by_1 if_False)
  moreover have "\<not> (0 \<le> - int (k - 1) \<and> 2 ^ 1024 \<le> ?m * 2 ^ nat (- int (k - 1)))"
  proof (cases "k - 1 = 0")
    case True
    have "n < 2 ^ 1024" using assms power_increasing [of 53 1024 "2 :: nat"] by linarith
    with True show ?thesis by simp
  qed simp
  moreover have "float_trunc (?m, - int (k - 1)) = n"
    by (cases k) (simp_all add: float_trunc_def)
  ultimately show ?thesis by (intro exI [of _ "(?m, - int (k - 1))"]) auto
qed

lemma takeWhile_all_digits: "list_all is_digit d \<Longrightarrow> takeWhile is_digit d = d \<and> dropWhile is_digit d = []"
  by (simp add: list_all_iff)

text \<open>A count written as an integer is read as that integer.\<close>

lemma json_int_nat_dec:
  assumes "n < 2 ^ 53"
  shows "json_int (nat_dec n) = int n"
proof -
  have digits: "list_all is_digit (nat_dec n)" using nat_dec_digits by (simp add: list_all_iff)
  have "hd (nat_dec n) \<noteq> CHR ''-''" using nat_dec_hd_digit [of n] by (auto simp: is_digit_def)
  then have d: "decimal (nat_dec n) = (False, n, 0)"
    using takeWhile_all_digits [OF digits]
    by (simp add: decimal_def Let_def del: takeWhile_eq_all_conv dropWhile_eq_Nil_conv)
  from float64_of_int [OF assms] obtain f where f: "float64_of n 1 = Some f" "float_trunc f = n" by blast
  have "n \<le> 9223372036854775807" using assms by simp
  with d f show ?thesis
    by (simp add: json_int_def json_float_def float_to_int_def Let_def int64_min_def int64_max_def)
qed

end
