(* ===== verification/Redfish.thy ===== *)
theory Redfish
  imports Auth EventSource GoFloat
begin

text \<open>
  \<^verbatim>\<open>internal/redfish/payload.go\<close> and \<^verbatim>\<open>internal/redfish/redfish.go\<close>: the client of a
  server's Redfish interface. A payload is a decoded JSON document; a failed type assertion
  and an index out of range are panics, as in the code, and an unknown kind of value ends
  the process (\<open>log.Fatalf\<close>).

  The HTTP server is a parameter: \<open>srv history request\<close> is its answer after the requests in
  \<open>history\<close>, which the client's state keeps. An event stream is a script of answers, as in
  the theory of event sources. The turns of a stream loop are given by what they find: the
  context done, and the stream idle for an hour.
\<close>

subsection \<open>State\<close>

datatype http_auth = BearerAuth string | BasicAuth string string

record http_request =
  rq_url :: string
  rq_auth :: http_auth
  rq_accept :: string

datatype http_reply = NetErr gerror | BrokenBody int gerror | Reply int string

type_synonym http_server = "http_request list \<Rightarrow> http_request \<Rightarrow> http_reply"

datatype client_kind = PlainClient | IRCClient | IDRACClient

record RedfishClient =
  rf_kind :: client_kind
  rf_Hostname :: string
  rf_Username :: string
  rf_Password :: string
  rf_BearerToken :: string
  rf_IsIPv6 :: int
  rf_FwVer :: string
  rf_log :: "http_request list"

record RedfishPayload =
  pl_Object :: "(string \<times> json) list"
  pl_Array :: "json list option"
  pl_Float :: string

definition GetHostname :: "RedfishClient \<Rightarrow> string" where
  "GetHostname r = rf_Hostname r"

definition GetUsername :: "RedfishClient \<Rightarrow> string" where
  "GetUsername r = rf_Username r"

definition GetPassword :: "RedfishClient \<Rightarrow> string" where
  "GetPassword r = rf_Password r"

definition empty_payload :: RedfishPayload where
  "empty_payload = \<lparr>pl_Object = [], pl_Array = None, pl_Float = ''0''\<rparr>"

definition object_payload :: "(string \<times> json) list \<Rightarrow> RedfishPayload" where
  "object_payload ms = empty_payload\<lparr>pl_Object := ms\<rparr>"

subsection \<open>Values\<close>

text \<open>\<open>nonnil k ms\<close> is \<open>Object[k]\<close> when it is not nil.\<close>

definition nonnil :: "string \<Rightarrow> (string \<times> json) list \<Rightarrow> json option" where
  "nonnil k ms = (case obj_get k ms of Some JNull \<Rightarrow> None | v \<Rightarrow> v)"

definition as_string :: "json option \<Rightarrow> string outcome" where
  "as_string v = (case v of Some (JStr s) \<Rightarrow> Ok s | _ \<Rightarrow> Panic ''interface conversion'')"

definition as_map :: "json option \<Rightarrow> (string \<times> json) list outcome" where
  "as_map v = (case v of Some (JObj ms) \<Rightarrow> Ok ms | _ \<Rightarrow> Panic ''interface conversion'')"

definition as_array :: "json option \<Rightarrow> json list outcome" where
  "as_array v = (case v of Some (JArr vs) \<Rightarrow> Ok vs | _ \<Rightarrow> Panic ''interface conversion'')"

definition as_float :: "json option \<Rightarrow> string outcome" where
  "as_float v = (case v of Some (JNum n) \<Rightarrow> Ok n | _ \<Rightarrow> Panic ''interface conversion'')"

definition index_of :: "'a list \<Rightarrow> int \<Rightarrow> 'a outcome" where
  "index_of xs i = (if 0 \<le> i \<and> nat i < length xs then Ok (xs ! nat i) else Panic ''index out of range'')"

definition valueToPayload :: "json \<Rightarrow> RedfishPayload outcome" where
  "valueToPayload v =
     (case v of
        JObj ms \<Rightarrow> Ok (object_payload ms)
      | JArr vs \<Rightarrow> Ok (empty_payload\<lparr>pl_Array := Some vs\<rparr>)
      | JNum n \<Rightarrow> Ok (empty_payload\<lparr>pl_Float := n\<rparr>)
      | _ \<Rightarrow> Exit 1)"

text \<open>The client of an interface card has a copy of this function.\<close>

definition irc_valueToPayload :: "json \<Rightarrow> RedfishPayload outcome" where
  "irc_valueToPayload v =
     (case v of
        JObj ms \<Rightarrow> Ok (empty_payload\<lparr>pl_Object := ms\<rparr>)
      | JArr vs \<Rightarrow> Ok (empty_payload\<lparr>pl_Array := Some vs\<rparr>)
      | JNum n \<Rightarrow> Ok (empty_payload\<lparr>pl_Float := n\<rparr>)
      | _ \<Rightarrow> Exit 1)"

lemma irc_valueToPayload_same: "irc_valueToPayload = valueToPayload"
  by (rule ext) (simp add: irc_valueToPayload_def valueToPayload_def object_payload_def split: json.split)

text \<open>An object whose only key is \<open>@odata.id\<close> is a link.\<close>

definition getUriFromValue :: "json \<Rightarrow> string outcome" where
  "getUriFromValue v =
     (case v of
        JObj ms \<Rightarrow>
          (if length (remdups (map fst ms)) \<noteq> 1 then Ok []
           else (case obj_get ''@odata.id'' ms of None \<Rightarrow> Ok [] | Some j \<Rightarrow> as_string (Some j)))
      | _ \<Rightarrow> Ok [])"

definition IsCollection :: "RedfishPayload \<Rightarrow> bool" where
  "IsCollection r \<longleftrightarrow> obj_get ''Members'' (pl_Object r) \<noteq> None"

definition IsEventCollection :: "RedfishPayload \<Rightarrow> bool" where
  "IsEventCollection r \<longleftrightarrow> obj_get ''Events'' (pl_Object r) \<noteq> None"

definition IsArray :: "RedfishPayload \<Rightarrow> bool" where
  "IsArray r \<longleftrightarrow> pl_Array r \<noteq> None"

definition size_of :: "string \<Rightarrow> RedfishPayload \<Rightarrow> int outcome" where
  "size_of k r =
     (case nonnil k (pl_Object r) of
        None \<Rightarrow> Ok 0
      | Some v \<Rightarrow> outcome_bind (as_float (Some v)) (\<lambda>n. Ok (json_int n)))"

definition GetCollectionSize :: "RedfishPayload \<Rightarrow> int outcome" where
  "GetCollectionSize r = size_of ''Members@odata.count'' r"

definition GetEventSize :: "RedfishPayload \<Rightarrow> int outcome" where
  "GetEventSize r = size_of ''Events@odata.count'' r"

definition GetArraySize :: "RedfishPayload \<Rightarrow> int" where
  "GetArraySize r = int (length (case pl_Array r of None \<Rightarrow> [] | Some vs \<Rightarrow> vs))"

text \<open>\<open>json.Unmarshal\<close> into a map: null is the nil map.\<close>

definition parse_object :: "string \<Rightarrow> (string \<times> json) list outcome" where
  "parse_object body =
     (case json_parse body of
        None \<Rightarrow> Err syntax_error
      | Some j \<Rightarrow>
          (case j of
             JObj ms \<Rightarrow> if numbers_ok j then Ok ms else Err type_error
           | JNull \<Rightarrow> Ok []
           | _ \<Rightarrow> Err type_error))"

subsection \<open>Requests\<close>

definition addAuthToRequest :: "RedfishClient \<Rightarrow> http_auth" where
  "addAuthToRequest r =
     (if rf_BearerToken r \<noteq> [] then BearerAuth (rf_BearerToken r)
      else BasicAuth (rf_Username r) (rf_Password r))"

definition http_do :: "http_server \<Rightarrow> string \<Rightarrow> RedfishClient \<Rightarrow> RedfishClient \<times> http_reply" where
  "http_do srv url r =
     (let rq = \<lparr>rq_url = url, rq_auth = addAuthToRequest r, rq_accept = ''application/json''\<rparr> in
      (r\<lparr>rf_log := rf_log r @ [rq]\<rparr>, srv (rf_log r) rq))"

text \<open>An IPv6 address is put in brackets at the first request.\<close>

definition fix_host :: "RedfishClient \<Rightarrow> RedfishClient" where
  "fix_host r =
     (if rf_IsIPv6 r = 0 then
        (if 2 < length (split_on (CHR '':'') (rf_Hostname r))
         then r\<lparr>rf_IsIPv6 := 1, rf_Hostname := ''['' @ rf_Hostname r @ '']''\<rparr>
         else r\<lparr>rf_IsIPv6 := 2\<rparr>)
      else r)"

definition GetUri :: "http_server \<Rightarrow> string \<Rightarrow> (RedfishClient, RedfishPayload) go" where
  "GetUri srv uri r =
     (let r1 = fix_host r;
          failed = (\<lambda>code. ''GetUri failed for '' @ rf_Hostname r1 @ uri @ '' with Error code '' @ int_dec code) in
      case http_do srv (''https://'' @ rf_Hostname r1 @ uri) r1 of
        (r2, NetErr e) \<Rightarrow> (r2, Err e)
      | (r2, BrokenBody code e) \<Rightarrow> (r2, Err (if code \<noteq> 200 then failed code else e))
      | (r2, Reply code body) \<Rightarrow>
          (if code \<noteq> 200 then (r2, Err (failed code))
           else (case parse_object body of
                   Ok ms \<Rightarrow> (r2, Ok (object_payload ms))
                 | Err e \<Rightarrow> (r2, Err (''Body '' @ body @ '' could not parse to JSON '' @ e))
                 | Panic w \<Rightarrow> (r2, Panic w)
                 | Exit n \<Rightarrow> (r2, Exit n))))"

text \<open>A link is followed, any other value is taken as it is.\<close>

definition follow :: "http_server \<Rightarrow> json \<Rightarrow> (RedfishClient, RedfishPayload) go" where
  "follow srv v =
     bindS (liftS (getUriFromValue v))
       (\<lambda>uri. if uri = [] then liftS (valueToPayload v) else GetUri srv uri)"

definition GetPropertyByName :: "http_server \<Rightarrow> string \<Rightarrow> RedfishPayload \<Rightarrow> (RedfishClient, RedfishPayload) go" where
  "GetPropertyByName srv name p =
     (case obj_get name (pl_Object p) of
        Some v \<Rightarrow> follow srv v
      | None \<Rightarrow> liftS (Err (''No such element '' @ name)))"

definition by_index ::
  "http_server \<Rightarrow> string \<Rightarrow> bool \<Rightarrow> int \<Rightarrow> RedfishPayload \<Rightarrow> (RedfishClient, RedfishPayload) go" where
  "by_index srv k collection index p =
     (if collection then
        bindS (liftS (outcome_bind (as_array (obj_get k (pl_Object p))) (\<lambda>vs. index_of vs index))) (follow srv)
      else if index \<le> GetArraySize p then
        bindS (liftS (index_of (case pl_Array p of None \<Rightarrow> [] | Some vs \<Rightarrow> vs) index)) (follow srv)
      else liftS (Err (''No such element '' @ int_dec index)))"

definition GetPropertyByIndex :: "http_server \<Rightarrow> int \<Rightarrow> RedfishPayload \<Rightarrow> (RedfishClient, RedfishPayload) go" where
  "GetPropertyByIndex srv index p = by_index srv ''Members'' (IsCollection p) index p"

definition GetEventByIndex :: "http_server \<Rightarrow> int \<Rightarrow> RedfishPayload \<Rightarrow> (RedfishClient, RedfishPayload) go" where
  "GetEventByIndex srv index p = by_index srv ''Events'' (IsEventCollection p) index p"

subsection \<open>Making clients\<close>

definition new_client :: "client_kind \<Rightarrow> string \<Rightarrow> string \<Rightarrow> string \<Rightarrow> string \<Rightarrow> RedfishClient" where
  "new_client kind hostname username password token =
     \<lparr>rf_kind = kind, rf_Hostname = hostname, rf_Username = username, rf_Password = password,
      rf_BearerToken = token, rf_IsIPv6 = 0, rf_FwVer = [], rf_log = []\<rparr>"

text \<open>\<open>Init\<close> returns its client even with an error, \<open>InitBearer\<close> does not.\<close>

definition redfish_Init ::
  "http_server \<Rightarrow> string \<Rightarrow> string \<Rightarrow> string \<Rightarrow> int \<Rightarrow> RedfishClient \<times> RedfishPayload outcome" where
  "redfish_Init srv hostname username password serviceType =
     GetUri srv ''/redfish/v1''
       (new_client (if serviceType = IRC then IRCClient else if serviceType = IDRAC then IDRACClient else PlainClient)
         hostname username password [])"

definition InitBearer :: "http_server \<Rightarrow> string \<Rightarrow> string \<Rightarrow> RedfishClient outcome" where
  "InitBearer srv hostname token =
     (case GetUri srv ''/redfish/v1'' (new_client PlainClient hostname [] [] token) of
        (r, Ok p) \<Rightarrow> Ok r
      | (r, Err e) \<Rightarrow> Err e
      | (r, Panic w) \<Rightarrow> Panic w
      | (r, Exit n) \<Rightarrow> Exit n)"

definition SetFwVer :: "string \<Rightarrow> RedfishClient \<Rightarrow> RedfishClient" where
  "SetFwVer ver r = r\<lparr>rf_FwVer := ver\<rparr>"

subsection \<open>System information\<close>

text \<open>The service tag under \<open>Oem/Dell\<close>, when all three are there.\<close>

definition oem_service_tag :: "RedfishPayload \<Rightarrow> string option outcome" where
  "oem_service_tag p =
     (case nonnil ''Oem'' (pl_Object p) of
        None \<Rightarrow> Ok None
      | Some v \<Rightarrow>
          outcome_bind (valueToPayload v) (\<lambda>oem.
            (case nonnil ''Dell'' (pl_Object oem) of
               None \<Rightarrow> Ok None
             | Some v' \<Rightarrow>
                 outcome_bind (valueToPayload v') (\<lambda>dell.
                   (case nonnil ''ServiceTag'' (pl_Object dell) of
                      None \<Rightarrow> Ok None
                    | Some t \<Rightarrow> outcome_bind (as_string (Some t)) (\<lambda>s. Ok (Some s)))))))"

text \<open>The error of the second request is not looked at: its nil payload is dereferenced.\<close>

definition irc_GetSystemId :: "http_server \<Rightarrow> (RedfishClient, string) go" where
  "irc_GetSystemId srv =
     bindS (GetUri srv ''/redfish/v1/Managers/IRC'') (\<lambda>managersIRC.
     bindS (liftS (oem_service_tag managersIRC)) (\<lambda>tag.
       (case tag of
          Some s \<Rightarrow> liftS (Ok s)
        | None \<Rightarrow>
            tryS (GetUri srv ''/redfish/v1/Chassis/IRC'')
              (\<lambda>chassisIRC.
                 (case nonnil ''SerialNumber'' (pl_Object chassisIRC) of
                    Some v \<Rightarrow> liftS (as_string (Some v))
                  | None \<Rightarrow> liftS (Err ''Unable to determine System ID - IRC'')))
              (\<lambda>e. liftS (Panic ''nil pointer dereference'')))))"

text \<open>One chassis of the loop: the id it gives, or \<open>None\<close> to go on.\<close>

definition chassis_id :: "http_server \<Rightarrow> RedfishPayload \<Rightarrow> (RedfishClient, string option) go" where
  "chassis_id srv chassis =
     (let str = (\<lambda>k. liftS (as_string (obj_get k (pl_Object chassis)))) in
      bindS (str ''ChassisType'') (\<lambda>type.
        if type \<noteq> ''Enclosure'' then liftS (Ok None)
        else bindS (str ''Name'') (\<lambda>name.
          if name \<noteq> ''Blade Chassis'' then liftS (Ok (Some name))
          else bindS (str ''SKU'') (\<lambda>sku.
            if sku \<noteq> [] then liftS (Ok (Some sku))
            else bindS (str ''@odata.id'') (\<lambda>id.
              bindS (GetUri srv (id @ ''/Attributes'')) (\<lambda>oemChassis.
              bindS (liftS (case obj_get ''Attributes'' (pl_Object oemChassis) of
                              None \<Rightarrow> Exit 1 | Some v \<Rightarrow> valueToPayload v)) (\<lambda>attributes.
                bindS (liftS (as_string (obj_get ''NIC.1.MACAddress'' (pl_Object attributes))))
                  (\<lambda>mac. liftS (Ok (Some mac))))))))))"

fun chassis_loop :: "http_server \<Rightarrow> RedfishPayload \<Rightarrow> int list \<Rightarrow> (RedfishClient, string) go" where
  "chassis_loop srv collection [] = liftS (Err ''Unable to determine System ID'')"
| "chassis_loop srv collection (i # rest) =
     tryS (GetPropertyByIndex srv i collection)
       (\<lambda>chassis. bindS (chassis_id srv chassis)
          (\<lambda>found. case found of Some sid \<Rightarrow> liftS (Ok sid) | None \<Rightarrow> chassis_loop srv collection rest))
       (\<lambda>e. chassis_loop srv collection rest)"

definition base_GetSystemId :: "http_server \<Rightarrow> (RedfishClient, string) go" where
  "base_GetSystemId srv =
     bindS (GetUri srv ''/redfish/v1'') (\<lambda>serviceRoot.
     bindS (liftS (oem_service_tag serviceRoot)) (\<lambda>tag.
       (case tag of
          Some s \<Rightarrow> liftS (Ok s)
        | None \<Rightarrow>
            bindS (GetPropertyByName srv ''Chassis'' serviceRoot) (\<lambda>chassisCollection.
            bindS (liftS (GetCollectionSize chassisCollection)) (\<lambda>size.
              chassis_loop srv chassisCollection (map int [0..<nat size]))))))"

definition GetSystemId :: "http_server \<Rightarrow> (RedfishClient, string) go" where
  "GetSystemId srv r =
     (if rf_kind r = IRCClient then irc_GetSystemId srv r else base_GetSystemId srv r)"

record SysInfo =
  in_hostname :: string
  in_sku :: string
  in_model :: string
  in_fwver :: string
  in_fqdn :: string
  in_imgid :: string

definition zero_info :: SysInfo where
  "zero_info = \<lparr>in_hostname = [], in_sku = [], in_model = [], in_fwver = [], in_fqdn = [], in_imgid = []\<rparr>"

text \<open>An optional string property; one that is not a string is a panic.\<close>

definition opt_prop :: "string \<Rightarrow> RedfishPayload \<Rightarrow> string outcome" where
  "opt_prop k p = (case nonnil k (pl_Object p) of None \<Rightarrow> Ok [] | Some v \<Rightarrow> as_string (Some v))"

definition after_slash :: "string \<Rightarrow> string" where
  "after_slash s = (case last_index (CHR ''/'') s of None \<Rightarrow> s | Some i \<Rightarrow> drop (Suc i) s)"

definition active_image :: "RedfishPayload \<Rightarrow> string outcome" where
  "active_image p =
     (case nonnil ''Links'' (pl_Object p) of
        None \<Rightarrow> Ok []
      | Some v \<Rightarrow>
          outcome_bind (as_map (Some v)) (\<lambda>links.
            (case obj_get ''ActiveSoftwareImage'' links of
               None \<Rightarrow> Ok []
             | Some act \<Rightarrow>
                 outcome_bind (as_map (Some act)) (\<lambda>ms.
                 outcome_bind (as_string (obj_get ''@odata.id'' ms)) (\<lambda>imgid.
                   Ok (after_slash imgid))))))"

text \<open>The results are named: an error returns what has been read so far.\<close>

definition base_GetSysInfo :: "http_server \<Rightarrow> (RedfishClient, SysInfo \<times> gerror option) go" where
  "base_GetSysInfo srv =
     tryS (GetUri srv ''/redfish/v1/Systems/System.Embedded.1?$select=HostName,SKU,Model'')
       (\<lambda>root. bindS (liftS (opt_prop ''HostName'' root)) (\<lambda>hostname.
         bindS (liftS (opt_prop ''SKU'' root)) (\<lambda>sku.
         bindS (liftS (opt_prop ''Model'' root)) (\<lambda>model.
         let i1 = zero_info\<lparr>in_hostname := hostname, in_sku := sku, in_model := model\<rparr> in
         tryS (GetUri srv ''/redfish/v1/Managers/iDRAC.Embedded.1/EthernetInterfaces/NIC.1?$select=FQDN'')
           (\<lambda>nic. bindS (liftS (opt_prop ''FQDN'' nic)) (\<lambda>fqdn.
             let i2 = i1\<lparr>in_fqdn := fqdn\<rparr> in
             tryS (GetUri srv ''/redfish/v1/Managers/iDRAC.Embedded.1?$select=FirmwareVersion,Links'')
               (\<lambda>mgr. bindS (liftS (opt_prop ''FirmwareVersion'' mgr)) (\<lambda>fwver.
                 bindS (liftS (active_image mgr)) (\<lambda>imgid.
                   liftS (Ok (i2\<lparr>in_fwver := fwver, in_imgid := imgid\<rparr>, None)))))
               (\<lambda>e. liftS (Ok (i2, Some e)))))
           (\<lambda>e. liftS (Ok (i1, Some e)))))))
       (\<lambda>e. liftS (Ok (zero_info, Some e)))"

definition irc_GetSysInfo :: "http_server \<Rightarrow> (RedfishClient, SysInfo \<times> gerror option) go" where
  "irc_GetSysInfo srv =
     tryS (GetUri srv ''/redfish/v1/Managers/IRC/EthernetInterfaces/mgmt0?$select=IPv4Addresses'')
       (\<lambda>root.
          (case nonnil ''IPv4Addresses'' (pl_Object root) of
             None \<Rightarrow> liftS (Ok (zero_info, None))
           | Some v \<Rightarrow>
               bindS (liftS (valueToPayload v)) (\<lambda>ips.
                 (case pl_Array ips of
                    Some (ip # _) \<Rightarrow>
                      bindS (liftS (valueToPayload ip)) (\<lambda>ipInfo.
                      bindS (liftS (opt_prop ''Address'' ipInfo)) (\<lambda>fqdn.
                        liftS (Ok (zero_info\<lparr>in_fqdn := fqdn\<rparr>, None))))
                  | _ \<Rightarrow> liftS (Ok (zero_info, None))))))
       (\<lambda>e. liftS (Ok (zero_info, Some e)))"

definition GetSysInfo :: "http_server \<Rightarrow> (RedfishClient, SysInfo \<times> gerror option) go" where
  "GetSysInfo srv r =
     (if rf_kind r = IRCClient then irc_GetSysInfo srv r else base_GetSysInfo srv r)"

end
