(* ===== verification/RedfishStreams.thy ===== *)
theory RedfishStreams
  imports Redfish
begin

text \<open>
  The event streams of \<^verbatim>\<open>internal/redfish/redfish.go\<close>: the loops that turn server-sent
  events into Redfish events, and the functions that find the stream of a server. The
  request of a stream is taken to be well formed, and its server is a script of answers.
\<close>

record RedfishEvent =
  re_Err :: "gerror option"
  re_ID :: string
  re_Payload :: "RedfishPayload option"

text \<open>How a loop stands: still running (or blocked), or returned with an error or nil.\<close>

datatype loop_status = LoopRunning | LoopReturned "gerror option"

type_synonym stream = "RedfishEvent list \<times> loop_status"

definition mrSSEFilter :: string where
  "mrSSEFilter = ''?$filter=EventFormatType%20eq%20MetricReport''"
definition mrSSEFilter17G :: string where
  "mrSSEFilter17G = ''?$filter=EventFormatType%20eq%20%27MetricReport%27''"
definition evtSSEFilter :: string where
  "evtSSEFilter = ''?$filter=EventFormatType%20eq%20Event''"
definition evtSSEFilter17G :: string where
  "evtSSEFilter17G = ''?$filter=EventType%20eq%20%27Alert%27''"

text \<open>The source of a stream is closed by its own loop only.\<close>

definition not_closing :: "nat \<Rightarrow> bool" where
  "not_closing n = False"

definition data_event :: "Event \<Rightarrow> RedfishEvent list" where
  "data_event ev =
     (case parse_object (sse_Data ev) of
        Ok ms \<Rightarrow> [\<lparr>re_Err = None, re_ID = sse_ID ev, re_Payload = Some (object_payload ms)\<rparr>]
      | _ \<Rightarrow> [])"

definition error_event :: "gerror \<Rightarrow> RedfishEvent" where
  "error_event e = \<lparr>re_Err = Some e, re_ID = [], re_Payload = None\<rparr>"

text \<open>One element of \<open>turns\<close> is one turn of the loop: whether the context is done, and whether
  the last event was more than an hour ago.\<close>

fun sse_loop :: "(bool \<times> bool) list \<Rightarrow> script \<Rightarrow> EventSource \<Rightarrow> stream" where
  "sse_loop [] rs source = ([], LoopRunning)"
| "sse_loop ((ctx_done, idle) # turns) rs source =
     (if ctx_done then ([], LoopReturned None)
      else (case es_Next not_closing rs source of
              (source', rs', Pending) \<Rightarrow> ([], LoopRunning)
            | (source', rs', Failed e) \<Rightarrow>
                ([error_event
                    (if contains e ''EOF'' then (if idle then ''sse idle timeout'' else ''connection error'') else e)],
                 LoopReturned None)
            | (source', rs', Done ev) \<Rightarrow>
                (case sse_loop turns rs' source' of (out, st) \<Rightarrow> (data_event ev @ out, st))))"

definition sse_start ::
  "script \<Rightarrow> int \<Rightarrow> 16 word \<Rightarrow> (gerror \<Rightarrow> stream) \<Rightarrow> (script \<Rightarrow> EventSource \<Rightarrow> stream) \<Rightarrow> stream" where
  "sse_start rs interval maxRetries failed loop =
     (case es_Connect not_closing rs interval maxRetries of
        (rs', Done source) \<Rightarrow> loop rs' source
      | (rs', Failed e) \<Rightarrow> failed e
      | (rs', Pending) \<Rightarrow> ([], LoopRunning))"

text \<open>\<open>StartSSE\<close> first asks for the firmware version, whatever the answer.\<close>

definition StartSSE :: "http_server \<Rightarrow> script \<Rightarrow> (bool \<times> bool) list \<Rightarrow> (RedfishClient, stream) go" where
  "StartSSE srv rs turns =
     (let start = sse_start rs 5000000000 10
            (\<lambda>e. ([], LoopReturned (Some ''connection error''))) (sse_loop turns) in
      tryS (GetUri srv ''/redfish/v1/Managers/iDRAC.Embedded.1?$select=FirmwareVersion'')
        (\<lambda>p. liftS (Ok start)) (\<lambda>e. liftS (Ok start)))"

text \<open>In these two loops an error of \<open>Next\<close> breaks out of the \<open>select\<close> only.\<close>

fun events_loop :: "bool list \<Rightarrow> script \<Rightarrow> EventSource \<Rightarrow> stream" where
  "events_loop [] rs source = ([], LoopRunning)"
| "events_loop (ctx_done # turns) rs source =
     (if ctx_done then ([], LoopReturned None)
      else (case es_Next not_closing rs source of
              (source', rs', Pending) \<Rightarrow> ([], LoopRunning)
            | (source', rs', Failed e) \<Rightarrow> events_loop turns rs' source'
            | (source', rs', Done ev) \<Rightarrow>
                (case events_loop turns rs' source' of (out, st) \<Rightarrow> (data_event ev @ out, st))))"

definition GetEventsSSE :: "script \<Rightarrow> bool list \<Rightarrow> stream" where
  "GetEventsSSE rs turns = sse_start rs 0 0 (\<lambda>e. ([], LoopReturned (Some e))) (events_loop turns)"

definition GetLceSSE :: "script \<Rightarrow> bool list \<Rightarrow> stream" where
  "GetLceSSE rs turns = sse_start rs 0 5 (\<lambda>e. ([], LoopReturned (Some e))) (events_loop turns)"

text \<open>Without a context; \<open>n\<close> bounds the number of turns looked at.\<close>

fun uri_loop :: "nat \<Rightarrow> script \<Rightarrow> EventSource \<Rightarrow> stream" where
  "uri_loop 0 rs source = ([], LoopRunning)"
| "uri_loop (Suc n) rs source =
     (case es_Next not_closing rs source of
        (source', rs', Pending) \<Rightarrow> ([], LoopRunning)
      | (source', rs', Failed e) \<Rightarrow> ([error_event e], LoopReturned None)
      | (source', rs', Done ev) \<Rightarrow>
          (case uri_loop n rs' source' of (out, st) \<Rightarrow> (data_event ev @ out, st)))"

definition GetSSEByUri :: "script \<Rightarrow> nat \<Rightarrow> stream" where
  "GetSSEByUri rs n = sse_start rs 0 0 (\<lambda>e. ([error_event e], LoopReturned None)) (uri_loop n)"

text \<open>An error of \<open>Next\<close> is only logged: what follows fails on the empty data.\<close>

definition GetInventoryByUri :: "script \<Rightarrow> RedfishPayload pending" where
  "GetInventoryByUri rs =
     (case es_Connect not_closing rs 0 0 of
        (rs', Failed e) \<Rightarrow> Failed e
      | (rs', Pending) \<Rightarrow> Pending
      | (rs', Done source) \<Rightarrow>
          (case es_Next not_closing rs' source of
             (source', rs'', Pending) \<Rightarrow> Pending
           | (source', rs'', r) \<Rightarrow>
               (case parse_object (sse_Data (case r of Done ev \<Rightarrow> ev | _ \<Rightarrow> zero_sse)) of
                  Ok ms \<Rightarrow> Done (object_payload ms)
                | Err e \<Rightarrow> Failed e
                | Panic w \<Rightarrow> Failed w
                | Exit n \<Rightarrow> Failed [])))"

subsection \<open>Finding the stream\<close>

definition no_post :: gerror where
  "no_post = ''Don'' @ [CHR 0x27] @ ''t support POST back yet!''"

text \<open>The error a listener ends with is sent on as a last event.\<close>

definition finish :: "stream \<Rightarrow> RedfishEvent list" where
  "finish s = (case s of (out, LoopReturned (Some e)) \<Rightarrow> out @ [error_event e] | (out, _) \<Rightarrow> out)"

definition event_service :: "http_server \<Rightarrow> (RedfishClient, RedfishPayload) go" where
  "event_service srv = bindS (GetUri srv ''/redfish/v1'') (GetPropertyByName srv ''EventService'')"

text \<open>Alerts and metric reports differ in their filters, which choose the stream.\<close>

definition listen_filtered_stream ::
  "string \<Rightarrow> string \<Rightarrow> http_server \<Rightarrow> (string \<Rightarrow> script) \<Rightarrow> (bool \<times> bool) list \<Rightarrow> (RedfishClient, RedfishEvent list) go" where
  "listen_filtered_stream f17 f srv streams turns =
     tryS (event_service srv)
       (\<lambda>p. (case nonnil ''ServerSentEventUri'' (pl_Object p) of
          None \<Rightarrow> liftS (Ok [error_event no_post])
        | Some v \<Rightarrow>
            bindS (liftS (as_string (Some v))) (\<lambda>uri r.
              (let sseUri = ''https://'' @ rf_Hostname r @ uri;
                   filter = (if str_less (rf_FwVer r) ''4.00.00.00'' then f17 else f) in
               bindS (StartSSE srv (streams (sseUri @ filter)) turns) (\<lambda>s. liftS (Ok (finish s))) r))))
       (\<lambda>e. liftS (Ok [error_event e]))"

definition ListenForAlerts ::
  "http_server \<Rightarrow> (string \<Rightarrow> script) \<Rightarrow> (bool \<times> bool) list \<Rightarrow> (RedfishClient, RedfishEvent list) go" where
  "ListenForAlerts = listen_filtered_stream evtSSEFilter17G evtSSEFilter"

definition ListenForMetricReports ::
  "http_server \<Rightarrow> (string \<Rightarrow> script) \<Rightarrow> (bool \<times> bool) list \<Rightarrow> (RedfishClient, RedfishEvent list) go" where
  "ListenForMetricReports = listen_filtered_stream mrSSEFilter17G mrSSEFilter"

text \<open>Here the event service is used before the error that says it is nil is looked at.\<close>

definition ListenForLceEvents ::
  "http_server \<Rightarrow> (string \<Rightarrow> script) \<Rightarrow> bool list \<Rightarrow> (RedfishClient, RedfishEvent list) go" where
  "ListenForLceEvents srv streams turns =
     tryS (GetUri srv ''/redfish/v1'')
       (\<lambda>root. tryS (GetPropertyByName srv ''EventService'' root)
          (\<lambda>p. bindS (liftS (as_string (obj_get ''ServerSentEventUri'' (pl_Object p)))) (\<lambda>uri r.
             (let sseUri = ''https://'' @ rf_Hostname r @ uri @ ''?$filter=EventType%20eq%20%27Other%27'' in
              liftS (Ok (finish (GetLceSSE (streams sseUri) turns))) r)))
          (\<lambda>e. liftS (Panic ''nil pointer dereference'')))
       (\<lambda>e. liftS (Ok [error_event e]))"

subsection \<open>Lemmas\<close>

lemma sse_loop_events:
  "es_current source = Some rc \<Longrightarrow> rc_rest rc = concat (map Encode evs) \<Longrightarrow> rc_end rc = EOF \<Longrightarrow>
     \<forall>ev\<in>set evs. event_ok ev \<Longrightarrow> \<not> es_closed source \<Longrightarrow>
     sse_loop (replicate (length evs) (False, False) @ (False, idle) # turns) rs source =
       (concat (map data_event evs) @ [error_event (if idle then ''sse idle timeout'' else ''connection error'')],
        LoopReturned None)"
proof (induction evs arbitrary: source rc)
  case Nil
  then have "rc_rest rc = []" by simp
  from Next_EOF [OF Nil.prems(1) this Nil.prems(3,5), of not_closing rs] show ?case
    by (auto simp: EOF_def)
next
  case (Cons ev evs)
  have "rc_rest rc = Encode ev @ concat (map Encode evs)" "event_ok ev" using Cons.prems(2,4) by simp_all
  from Next_event [OF Cons.prems(1) this Cons.prems(5), of not_closing rs] obtain s1 where
    s1: "es_Next not_closing rs source = (s1, rs, Done ev)" "\<not> es_closed s1"
      "es_current s1 = Some (rc\<lparr>rc_rest := concat (map Encode evs), rc_lastID := sse_ID ev\<rparr>)" by blast
  have "sse_loop (replicate (length evs) (False, False) @ (False, idle) # turns) rs s1 =
       (concat (map data_event evs) @ [error_event (if idle then ''sse idle timeout'' else ''connection error'')],
        LoopReturned None)"
    using Cons.prems(3,4) s1(2) by (intro Cons.IH [OF s1(3)]) simp_all
  with s1(1) show ?case by simp
qed

lemma events_loop_events:
  "es_current source = Some rc \<Longrightarrow> rc_rest rc = concat (map Encode evs) \<Longrightarrow> rc_end rc = EOF \<Longrightarrow>
     \<forall>ev\<in>set evs. event_ok ev \<Longrightarrow> \<not> es_closed source \<Longrightarrow>
     events_loop (replicate (length evs + n) False) rs source = (concat (map data_event evs), LoopRunning)"
proof (induction evs arbitrary: source rc)
  case Nil
  have end_loop: "es_current s = Some rc \<Longrightarrow> \<not> es_closed s \<Longrightarrow> events_loop (replicate n False) rs s = ([], LoopRunning)" for s
  proof (induction n arbitrary: s)
    case (Suc n)
    have "rc_rest rc = []" using Nil.prems(2) by simp
    from Next_EOF [OF Suc.prems(1) this Nil.prems(3) Suc.prems(2), of not_closing rs] obtain s1 where
      "es_Next not_closing rs s = (s1, rs, Failed EOF)" "\<not> es_closed s1" "es_current s1 = Some rc" by blast
    with Suc.IH show ?case by simp
  qed simp
  with Nil show ?case by simp
next
  case (Cons ev evs)
  have "rc_rest rc = Encode ev @ concat (map Encode evs)" "event_ok ev" using Cons.prems(2,4) by simp_all
  from Next_event [OF Cons.prems(1) this Cons.prems(5), of not_closing rs] obtain s1 where
    s1: "es_Next not_closing rs source = (s1, rs, Done ev)" "\<not> es_closed s1"
      "es_current s1 = Some (rc\<lparr>rc_rest := concat (map Encode evs), rc_lastID := sse_ID ev\<rparr>)" by blast
  have "events_loop (replicate (length evs + n) False) rs s1 = (concat (map data_event evs), LoopRunning)"
    using Cons.prems(3,4) s1(2) by (intro Cons.IH [OF s1(3)]) simp_all
  with s1(1) show ?case by simp
qed

lemma Connect_ok_response:
  "es_Connect not_closing (ok_response evs err # rs) interval m = (rs, Done
     ((createEventSource interval m)\<lparr>es_requests := [[]],
        es_current := Some (NewReadCloser (concat (map Encode evs)) err None)\<rparr>))"
  by (simp add: es_Connect_def establishConnection_def ok_response_def createEventSource_def)

lemma http_do_log:
  "http_do srv url r = (r', reply) \<Longrightarrow>
     r' = r\<lparr>rf_log := rf_log r @ [\<lparr>rq_url = url, rq_auth = addAuthToRequest r, rq_accept = ''application/json''\<rparr>]\<rparr>"
  by (auto simp: http_do_def Let_def)

lemma GetUri_client:
  "GetUri srv uri r = (r', res) \<Longrightarrow>
     r' = (fix_host r)\<lparr>rf_log := rf_log r @ [\<lparr>rq_url = ''https://'' @ rf_Hostname (fix_host r) @ uri,
        rq_auth = addAuthToRequest r, rq_accept = ''application/json''\<rparr>]\<rparr>
     \<and> ((\<exists>p. res = Ok p) \<or> (\<exists>e. res = Err e))"
  by (auto simp: GetUri_def Let_def http_do_def fix_host_def addAuthToRequest_def parse_object_def
      split: http_reply.splits if_splits option.splits json.splits)

lemma fix_host_again: "fix_host (fix_host r) = fix_host r"
  by (simp add: fix_host_def)

lemma fix_host_log [simp]: "fix_host (r\<lparr>rf_log := l\<rparr>) = (fix_host r)\<lparr>rf_log := l\<rparr>"
  by (simp add: fix_host_def)

subsection \<open>Properties\<close>

text \<open>Every request of a client: \<open>GetUri\<close> makes exactly one request, for the address on
  the client's host, with the bearer token if there is one and the user and password
  otherwise; it never panics; and it puts the host of an IPv6 address in brackets once,
  however often it is called.\<close>

theorem GetUri_request:
  assumes "GetUri srv uri r = (r', res)"
  shows "rf_log r' = rf_log r @ [\<lparr>rq_url = ''https://'' @ rf_Hostname r' @ uri,
        rq_auth = (if rf_BearerToken r = [] then BasicAuth (rf_Username r) (rf_Password r)
                   else BearerAuth (rf_BearerToken r)),
        rq_accept = ''application/json''\<rparr>]
    \<and> ((\<exists>p. res = Ok p) \<or> (\<exists>e. res = Err e))
    \<and> rf_Hostname r' = (if rf_IsIPv6 r = 0 \<and> 2 < length (split_on (CHR '':'') (rf_Hostname r))
                         then ''['' @ rf_Hostname r @ '']'' else rf_Hostname r)
    \<and> rf_Hostname (fst (GetUri srv2 uri2 r')) = rf_Hostname r'"
proof -
  from GetUri_client [OF assms] have r': "r' = (fix_host r)\<lparr>rf_log := rf_log r @ [\<lparr>rq_url = ''https://'' @ rf_Hostname (fix_host r) @ uri,
        rq_auth = addAuthToRequest r, rq_accept = ''application/json''\<rparr>]\<rparr>"
    and res: "(\<exists>p. res = Ok p) \<or> (\<exists>e. res = Err e)" by blast+
  obtain r2 res2 where r2: "GetUri srv2 uri2 r' = (r2, res2)" by (cases "GetUri srv2 uri2 r'")
  from GetUri_client [OF r2] have "rf_Hostname r2 = rf_Hostname (fix_host r')" by simp
  also have "\<dots> = rf_Hostname r'" by (simp add: r' fix_host_again)
  finally have "rf_Hostname r2 = rf_Hostname r'" .
  with r' res r2 show ?thesis by (simp add: addAuthToRequest_def) (simp add: fix_host_def)
qed

theorem GetUri_request_witness:
  "\<exists>r' res. GetUri (\<lambda>h q. NetErr ''down'') ''/redfish/v1'' (new_client IDRACClient ''fe80::1'' ''root'' ''calvin'' []) = (r', res)
     \<and> rf_Hostname r' = ''[fe80::1]''
     \<and> rf_log r' = [\<lparr>rq_url = ''https://[fe80::1]/redfish/v1'', rq_auth = BasicAuth ''root'' ''calvin'', rq_accept = ''application/json''\<rparr>]"
proof -
  obtain r' res where g: "GetUri (\<lambda>h q. NetErr ''down'') ''/redfish/v1'' (new_client IDRACClient ''fe80::1'' ''root'' ''calvin'' []) = (r', res)"
    by (cases "GetUri (\<lambda>h q. NetErr ''down'') ''/redfish/v1'' (new_client IDRACClient ''fe80::1'' ''root'' ''calvin'' [])")
  from GetUri_request [OF g] have "rf_Hostname r' = ''[fe80::1]''" by (simp add: new_client_def)
  with GetUri_request [OF g] g show ?thesis by (simp add: new_client_def)
qed

text \<open>C6: metric reports are delivered: when the event stream answers with some events and
  then ends, the listener's loop sends on every event whose data is a JSON object, in
  order, with its id and exactly that object, skips the others, and ends with one error
  event, which says whether the stream was idle for an hour or the connection broke.\<close>

theorem metric_reports_delivered:
  assumes "\<forall>ev\<in>set evs. event_ok ev"
  shows "snd (StartSSE srv [ok_response evs EOF] (replicate (length evs) (False, False) @ (False, idle) # turns) r)
    = Ok ([\<lparr>re_Err = None, re_ID = sse_ID ev, re_Payload = Some (object_payload ms)\<rparr>.
             (ev, ms) \<leftarrow> map (\<lambda>ev. (ev, case parse_object (sse_Data ev) of Ok ms \<Rightarrow> ms | _ \<Rightarrow> []))
                          (filter (\<lambda>ev. is_ok (parse_object (sse_Data ev))) evs)]
           @ [\<lparr>re_Err = Some (if idle then ''sse idle timeout'' else ''connection error''), re_ID = [], re_Payload = None\<rparr>],
         LoopReturned None)"
proof -
  let ?ts = "replicate (length evs) (False, False) @ (False, idle) # turns"
  let ?src = "(createEventSource 5000000000 10)\<lparr>es_requests := [[]],
        es_current := Some (NewReadCloser (concat (map Encode evs)) EOF None)\<rparr>"
  have "es_current ?src = Some (NewReadCloser (concat (map Encode evs)) EOF None)" by simp
  then have loop: "sse_loop ?ts [] ?src = (concat (map data_event evs)
      @ [error_event (if idle then ''sse idle timeout'' else ''connection error'')], LoopReturned None)"
    using assms
    by (intro sse_loop_events [of _ "NewReadCloser (concat (map Encode evs)) EOF None"])
       (simp_all add: NewReadCloser_def createEventSource_def)
  have data: "concat (map data_event evs) = [\<lparr>re_Err = None, re_ID = sse_ID ev, re_Payload = Some (object_payload ms)\<rparr>.
             (ev, ms) \<leftarrow> map (\<lambda>ev. (ev, case parse_object (sse_Data ev) of Ok ms \<Rightarrow> ms | _ \<Rightarrow> []))
                          (filter (\<lambda>ev. is_ok (parse_object (sse_Data ev))) evs)]"
    by (induction evs) (auto simp: data_event_def is_ok_iff split: outcome.splits)
  obtain r' res where g: "GetUri srv ''/redfish/v1/Managers/iDRAC.Embedded.1?$select=FirmwareVersion'' r = (r', res)"
    by (cases "GetUri srv ''/redfish/v1/Managers/iDRAC.Embedded.1?$select=FirmwareVersion'' r")
  from GetUri_client [OF g] have "(\<exists>p. res = Ok p) \<or> (\<exists>e. res = Err e)" by blast
  with g loop show ?thesis
    by (auto simp: StartSSE_def tryS_def liftS_def Let_def sse_start_def Connect_ok_response data error_event_def)
qed

theorem metric_reports_delivered_witness:
  "\<exists>report. snd (StartSSE (\<lambda>h q. NetErr ''down'')
       [ok_response [\<lparr>sse_ID = ''9'', sse_Name = [], sse_Data = json_print (JObj [(''Id'', JStr ''PowerMetrics'')]), sse_Retry = 0\<rparr>] EOF]
       [(False, False), (False, True)] (new_client IDRACClient ''h'' [] [] []))
   = Ok ([report, \<lparr>re_Err = Some ''sse idle timeout'', re_ID = [], re_Payload = None\<rparr>], LoopReturned None)
   \<and> re_Payload report = Some (object_payload [(''Id'', JStr ''PowerMetrics'')])"
proof -
  let ?j = "JObj [(''Id'', JStr ''PowerMetrics'')]"
  let ?ev = "\<lparr>sse_ID = ''9'', sse_Name = [], sse_Data = json_print ?j, sse_Retry = 0\<rparr>"
  have "event_ok ?ev"
    by (simp add: event_ok_def line_ok_def special_chars int64_min_def int64_max_def quote_str_def esc_char_def)
  moreover have "parse_object (json_print ?j) = Ok [(''Id'', JStr ''PowerMetrics'')]"
    unfolding parse_object_def by (subst json_parse_print) simp_all
  ultimately show ?thesis
    using metric_reports_delivered [of "[?ev]" "\<lambda>h q. NetErr ''down''" True "[]" "new_client IDRACClient ''h'' [] [] []"]
    by simp
qed

text \<open>The life-cycle and alert stream loops do not end with their stream: however long
  the loop is watched after the server has ended the stream, it has sent on the stream's
  events and is still running, although its log says that it breaks out of the loop.\<close>

theorem lce_loop_outlives_stream:
  assumes "\<forall>ev\<in>set evs. event_ok ev"
  shows "GetLceSSE [ok_response evs EOF] (replicate (length evs + n) False) = (concat (map data_event evs), LoopRunning)
    \<and> GetEventsSSE [ok_response evs EOF] (replicate (length evs + n) False) = (concat (map data_event evs), LoopRunning)"
proof -
  have "events_loop (replicate (length evs + n) False) []
      ((createEventSource 0 m)\<lparr>es_requests := [[]], es_current := Some (NewReadCloser (concat (map Encode evs)) EOF None)\<rparr>)
      = (concat (map data_event evs), LoopRunning)" for m
    using assms
    by (intro events_loop_events [of _ "NewReadCloser (concat (map Encode evs)) EOF None"])
       (simp_all add: NewReadCloser_def createEventSource_def)
  then show ?thesis by (simp add: GetLceSSE_def GetEventsSSE_def sse_start_def Connect_ok_response)
qed

theorem lce_loop_outlives_stream_witness:
  "GetLceSSE [ok_response [\<lparr>sse_ID = [], sse_Name = [], sse_Data = ''x'', sse_Retry = 0\<rparr>] EOF] (replicate 100 False)
     = (data_event \<lparr>sse_ID = [], sse_Name = [], sse_Data = ''x'', sse_Retry = 0\<rparr>, LoopRunning)"
proof -
  have "\<forall>ev\<in>set [\<lparr>sse_ID = [], sse_Name = [], sse_Data = ''x'', sse_Retry = 0\<rparr>]. event_ok ev"
    by (simp add: event_ok_def line_ok_def special_chars int64_min_def int64_max_def)
  from lce_loop_outlives_stream [OF this, of 99] show ?thesis by simp
qed

text \<open>The system id: when the service root has a service tag under \<open>Oem/Dell\<close>, that tag is
  the id, found with a single request.\<close>

theorem GetSystemId_service_tag:
  assumes "rf_kind r \<noteq> IRCClient" and "GetUri srv ''/redfish/v1'' r = (r', Ok root)"
    and "oem_service_tag root = Ok (Some tag)"
  shows "GetSystemId srv r = (r', Ok tag) \<and> length (rf_log r') = length (rf_log r) + 1"
  using assms GetUri_client [OF assms(2)]
  by (simp add: GetSystemId_def base_GetSystemId_def bindS_def liftS_def)

theorem GetSystemId_service_tag_witness:
  "\<exists>r'. GetSystemId (\<lambda>h q. Reply 200 (json_print (JObj [(''Oem'', JObj [(''Dell'', JObj [(''ServiceTag'', JStr ''ABC123'')])])])))
       (new_client IDRACClient ''h'' [] [] []) = (r', Ok ''ABC123'')"
proof -
  let ?ms = "[(''Oem'', JObj [(''Dell'', JObj [(''ServiceTag'', JStr ''ABC123'')])])]"
  have "parse_object (json_print (JObj ?ms)) = Ok ?ms"
    unfolding parse_object_def by (subst json_parse_print) simp_all
  then obtain r' where "GetUri (\<lambda>h q. Reply 200 (json_print (JObj ?ms))) ''/redfish/v1'' (new_client IDRACClient ''h'' [] [] []) = (r', Ok (object_payload ?ms))"
    by (simp add: GetUri_def http_do_def Let_def del: json_print.simps)
  moreover have "oem_service_tag (object_payload ?ms) = Ok (Some ''ABC123'')"
    by (simp add: oem_service_tag_def object_payload_def nonnil_def obj_get_def valueToPayload_def as_string_def)
  moreover have "rf_kind (new_client IDRACClient ''h'' [] [] []) \<noteq> IRCClient" by (simp add: new_client_def)
  ultimately show ?thesis using GetSystemId_service_tag by blast
qed

end
