(* ===== verification/Databus.thy ===== *)
theory Databus
  imports Auth GoTime
begin

text \<open>
  \<^verbatim>\<open>internal/databus/databus.go\<close> and \<^verbatim>\<open>pkg/databus/databus.go\<close>: the data groups that
  carry telemetry values and events, their JSON form, the service that broadcasts them to
  its subscribers, the client that subscribes and receives, and the table of latest groups.

  A slice that may be nil is an optional list, since nil and empty slices have different
  JSON forms.
\<close>

subsection \<open>Data\<close>

record DataValue =
  dv_ID :: string
  dv_Context :: string
  dv_Label :: string
  dv_Value :: string
  dv_System :: string
  dv_HostName :: string
  dv_Timestamp :: string

record EventValue =
  ev_EventType :: string
  ev_EventId :: string
  ev_EventTimestamp :: string
  ev_MemberId :: string
  ev_MessageSeverity :: string
  ev_Message :: string
  ev_MessageId :: string
  ev_MessageArgs :: "string list option"
  ev_OriginOfCondition :: string

record DataGroup =
  dg_HostID :: string
  dg_ID :: string
  dg_Label :: string
  dg_Sequence :: string
  dg_System :: string
  dg_HostName :: string
  dg_Model :: string
  dg_SKU :: string
  dg_FQDN :: string
  dg_FwVer :: string
  dg_ImgID :: string
  dg_Timestamp :: string
  dg_Values :: "DataValue list option"
  dg_Events :: "EventValue list option"

record DataProducer =
  dp_Hostname :: string
  dp_Username :: string
  dp_State :: string
  dp_LastEvent :: gotime

definition zero_value :: DataValue where
  "zero_value = \<lparr>dv_ID = [], dv_Context = [], dv_Label = [], dv_Value = [], dv_System = [],
     dv_HostName = [], dv_Timestamp = []\<rparr>"

definition zero_event :: EventValue where
  "zero_event = \<lparr>ev_EventType = [], ev_EventId = [], ev_EventTimestamp = [], ev_MemberId = [],
     ev_MessageSeverity = [], ev_Message = [], ev_MessageId = [], ev_MessageArgs = None,
     ev_OriginOfCondition = []\<rparr>"

definition zero_group :: DataGroup where
  "zero_group = \<lparr>dg_HostID = [], dg_ID = [], dg_Label = [], dg_Sequence = [], dg_System = [],
     dg_HostName = [], dg_Model = [], dg_SKU = [], dg_FQDN = [], dg_FwVer = [], dg_ImgID = [],
     dg_Timestamp = [], dg_Values = None, dg_Events = None\<rparr>"

definition zero_producer :: DataProducer where
  "zero_producer = \<lparr>dp_Hostname = [], dp_Username = [], dp_State = [], dp_LastEvent = zero_time\<rparr>"

text \<open>Ranging over a slice: a nil slice has no elements.\<close>

definition elems :: "'a list option \<Rightarrow> 'a list" where
  "elems s = (case s of None \<Rightarrow> [] | Some xs \<Rightarrow> xs)"

subsection \<open>Constants\<close>

definition databus_GET :: string where "databus_GET = ''get''"
definition databus_SUBSCRIBE :: string where "databus_SUBSCRIBE = ''subscribe''"
definition databus_GETPRODUCERS :: string where "databus_GETPRODUCERS = ''getproducers''"
definition databus_DELETEPRODUCER :: string where "databus_DELETEPRODUCER = ''deleteproducers''"
definition databus_TERMINATE :: string where "databus_TERMINATE = ''terminate''"
definition DATAGROUP :: string where "DATAGROUP = ''datagroup''"
definition databus_CommandQueue :: string where "databus_CommandQueue = ''/queue/databus/command''"
definition databus_ReplyPrefix :: string where "databus_ReplyPrefix = ''/queue/databus/reply.''"

subsection \<open>JSON form\<close>

definition enc_slice :: "('a \<Rightarrow> json) \<Rightarrow> 'a list option \<Rightarrow> json" where
  "enc_slice e s = (case s of None \<Rightarrow> JNull | Some xs \<Rightarrow> JArr (map e xs))"

definition dec_slice :: "'a dec \<Rightarrow> 'a \<Rightarrow> 'a list option dec" where
  "dec_slice d z j old =
     (case j of
        JArr js \<Rightarrow> (case dec_elems d z js of (xs, ok) \<Rightarrow> (Some xs, ok))
      | JNull \<Rightarrow> (None, True)
      | _ \<Rightarrow> (old, False))"

definition enc_value :: "DataValue \<Rightarrow> json" where
  "enc_value v =
     JObj [(''ID'', JStr (dv_ID v)), (''Context'', JStr (dv_Context v)), (''Label'', JStr (dv_Label v)),
           (''Value'', JStr (dv_Value v)), (''System'', JStr (dv_System v)),
           (''HostName'', JStr (dv_HostName v)), (''Timestamp'', JStr (dv_Timestamp v))]"

definition value_field :: "string \<Rightarrow> DataValue dec" where
  "value_field key =
     (let k = to_lower key in
      if k = ''id'' then dec_field dec_string dv_ID (\<lambda>v. dv_ID_update (\<lambda>_. v))
      else if k = ''context'' then dec_field dec_string dv_Context (\<lambda>v. dv_Context_update (\<lambda>_. v))
      else if k = ''label'' then dec_field dec_string dv_Label (\<lambda>v. dv_Label_update (\<lambda>_. v))
      else if k = ''value'' then dec_field dec_string dv_Value (\<lambda>v. dv_Value_update (\<lambda>_. v))
      else if k = ''system'' then dec_field dec_string dv_System (\<lambda>v. dv_System_update (\<lambda>_. v))
      else if k = ''hostname'' then dec_field dec_string dv_HostName (\<lambda>v. dv_HostName_update (\<lambda>_. v))
      else if k = ''timestamp'' then dec_field dec_string dv_Timestamp (\<lambda>v. dv_Timestamp_update (\<lambda>_. v))
      else (\<lambda>j x. (x, True)))"

definition dec_value :: "DataValue dec" where
  "dec_value = dec_struct value_field"

definition enc_event :: "EventValue \<Rightarrow> json" where
  "enc_event e =
     JObj [(''EventType'', JStr (ev_EventType e)), (''EventId'', JStr (ev_EventId e)),
           (''EventTimestamp'', JStr (ev_EventTimestamp e)), (''MemberId'', JStr (ev_MemberId e)),
           (''MessageSeverity'', JStr (ev_MessageSeverity e)), (''Message'', JStr (ev_Message e)),
           (''MessageId'', JStr (ev_MessageId e)), (''MessageArgs'', enc_slice JStr (ev_MessageArgs e)),
           (''OriginOfCondition'', JStr (ev_OriginOfCondition e))]"

definition event_field :: "string \<Rightarrow> EventValue dec" where
  "event_field key =
     (let k = to_lower key in
      if k = ''eventtype'' then dec_field dec_string ev_EventType (\<lambda>v. ev_EventType_update (\<lambda>_. v))
      else if k = ''eventid'' then dec_field dec_string ev_EventId (\<lambda>v. ev_EventId_update (\<lambda>_. v))
      else if k = ''eventtimestamp'' then
        dec_field dec_string ev_EventTimestamp (\<lambda>v. ev_EventTimestamp_update (\<lambda>_. v))
      else if k = ''memberid'' then dec_field dec_string ev_MemberId (\<lambda>v. ev_MemberId_update (\<lambda>_. v))
      else if k = ''messageseverity'' then
        dec_field dec_string ev_MessageSeverity (\<lambda>v. ev_MessageSeverity_update (\<lambda>_. v))
      else if k = ''message'' then dec_field dec_string ev_Message (\<lambda>v. ev_Message_update (\<lambda>_. v))
      else if k = ''messageid'' then dec_field dec_string ev_MessageId (\<lambda>v. ev_MessageId_update (\<lambda>_. v))
      else if k = ''messageargs'' then
        dec_field (dec_slice dec_string []) ev_MessageArgs (\<lambda>v. ev_MessageArgs_update (\<lambda>_. v))
      else if k = ''originofcondition'' then
        dec_field dec_string ev_OriginOfCondition (\<lambda>v. ev_OriginOfCondition_update (\<lambda>_. v))
      else (\<lambda>j x. (x, True)))"

definition dec_event :: "EventValue dec" where
  "dec_event = dec_struct event_field"

definition enc_group :: "DataGroup \<Rightarrow> json" where
  "enc_group g =
     JObj [(''HostID'', JStr (dg_HostID g)), (''ID'', JStr (dg_ID g)), (''Label'', JStr (dg_Label g)),
           (''Sequence'', JStr (dg_Sequence g)), (''System'', JStr (dg_System g)),
           (''HostName'', JStr (dg_HostName g)), (''Model'', JStr (dg_Model g)), (''SKU'', JStr (dg_SKU g)),
           (''FQDN'', JStr (dg_FQDN g)), (''FwVer'', JStr (dg_FwVer g)), (''ImgID'', JStr (dg_ImgID g)),
           (''Timestamp'', JStr (dg_Timestamp g)), (''Values'', enc_slice enc_value (dg_Values g)),
           (''Events'', enc_slice enc_event (dg_Events g))]"

definition group_field :: "string \<Rightarrow> DataGroup dec" where
  "group_field key =
     (let k = to_lower key in
      if k = ''hostid'' then dec_field dec_string dg_HostID (\<lambda>v. dg_HostID_update (\<lambda>_. v))
      else if k = ''id'' then dec_field dec_string dg_ID (\<lambda>v. dg_ID_update (\<lambda>_. v))
      else if k = ''label'' then dec_field dec_string dg_Label (\<lambda>v. dg_Label_update (\<lambda>_. v))
      else if k = ''sequence'' then dec_field dec_string dg_Sequence (\<lambda>v. dg_Sequence_update (\<lambda>_. v))
      else if k = ''system'' then dec_field dec_string dg_System (\<lambda>v. dg_System_update (\<lambda>_. v))
      else if k = ''hostname'' then dec_field dec_string dg_HostName (\<lambda>v. dg_HostName_update (\<lambda>_. v))
      else if k = ''model'' then dec_field dec_string dg_Model (\<lambda>v. dg_Model_update (\<lambda>_. v))
      else if k = ''sku'' then dec_field dec_string dg_SKU (\<lambda>v. dg_SKU_update (\<lambda>_. v))
      else if k = ''fqdn'' then dec_field dec_string dg_FQDN (\<lambda>v. dg_FQDN_update (\<lambda>_. v))
      else if k = ''fwver'' then dec_field dec_string dg_FwVer (\<lambda>v. dg_FwVer_update (\<lambda>_. v))
      else if k = ''imgid'' then dec_field dec_string dg_ImgID (\<lambda>v. dg_ImgID_update (\<lambda>_. v))
      else if k = ''timestamp'' then dec_field dec_string dg_Timestamp (\<lambda>v. dg_Timestamp_update (\<lambda>_. v))
      else if k = ''values'' then
        dec_field (dec_slice dec_value zero_value) dg_Values (\<lambda>v. dg_Values_update (\<lambda>_. v))
      else if k = ''events'' then
        dec_field (dec_slice dec_event zero_event) dg_Events (\<lambda>v. dg_Events_update (\<lambda>_. v))
      else (\<lambda>j x. (x, True)))"

definition dec_group :: "DataGroup dec" where
  "dec_group = dec_struct group_field"

text \<open>A \<open>time.Time\<close> is a string; \<open>None\<close> is the error of \<open>MarshalJSON\<close>.\<close>

definition dec_time :: "gotime dec" where
  "dec_time j old =
     (case j of
        JNull \<Rightarrow> (old, True)
      | JStr s \<Rightarrow> (case parse_rfc3339 s of None \<Rightarrow> (old, False) | Some t \<Rightarrow> (t, True))
      | _ \<Rightarrow> (old, False))"

definition enc_producer :: "DataProducer \<Rightarrow> json option" where
  "enc_producer p =
     (case marshal_time (dp_LastEvent p) of
        None \<Rightarrow> None
      | Some t \<Rightarrow>
          Some (JObj [(''Hostname'', JStr (dp_Hostname p)), (''Username'', JStr (dp_Username p)),
                      (''State'', JStr (dp_State p)), (''LastEvent'', JStr t)]))"

definition producer_field :: "string \<Rightarrow> DataProducer dec" where
  "producer_field key =
     (let k = to_lower key in
      if k = ''hostname'' then dec_field dec_string dp_Hostname (\<lambda>v. dp_Hostname_update (\<lambda>_. v))
      else if k = ''username'' then dec_field dec_string dp_Username (\<lambda>v. dp_Username_update (\<lambda>_. v))
      else if k = ''state'' then dec_field dec_string dp_State (\<lambda>v. dp_State_update (\<lambda>_. v))
      else if k = ''lastevent'' then dec_field dec_time dp_LastEvent (\<lambda>v. dp_LastEvent_update (\<lambda>_. v))
      else (\<lambda>j x. (x, True)))"

definition dec_producer :: "DataProducer dec" where
  "dec_producer = dec_struct producer_field"

subsection \<open>The service\<close>

record 'b DataBusService =
  db_Base :: "'b BaseService"
  db_Recievers :: "string list"

definition NewDataBusService :: "'b \<Rightarrow> 'b DataBusService" where
  "NewDataBusService bus = \<lparr>db_Base = NewBaseService bus databus_CommandQueue, db_Recievers = []\<rparr>"

definition SendGroupToQueue :: "'b bus_ops \<Rightarrow> 'b \<Rightarrow> DataGroup \<Rightarrow> string \<Rightarrow> 'b \<times> unit outcome" where
  "SendGroupToQueue ops b grp queue = service_SendTo ops b queue DATAGROUP (PVal (enc_group grp))"

text \<open>The loop over the receivers goes on after an error; only a panic or an exit ends it.\<close>

fun send_to_all :: "'b bus_ops \<Rightarrow> DataGroup \<Rightarrow> string list \<Rightarrow> 'b \<Rightarrow> 'b \<times> unit outcome" where
  "send_to_all ops grp [] b = (b, Ok ())"
| "send_to_all ops grp (queue # queues) b =
     (case SendGroupToQueue ops b grp queue of
        (b', Ok u) \<Rightarrow> send_to_all ops grp queues b'
      | (b', Err e) \<Rightarrow> send_to_all ops grp queues b'
      | (b', Panic w) \<Rightarrow> (b', Panic w)
      | (b', Exit n) \<Rightarrow> (b', Exit n))"

definition SendGroup ::
  "'b bus_ops \<Rightarrow> 'b DataBusService \<Rightarrow> DataGroup \<Rightarrow> 'b DataBusService \<times> unit outcome" where
  "SendGroup ops d grp =
     (case send_to_all ops grp (db_Recievers d) (bs_Bus (db_Base d)) of
        (b, r) \<Rightarrow> (d\<lparr>db_Base := (db_Base d)\<lparr>bs_Bus := b\<rparr>\<rparr>, r))"

definition HandleSubscribeEnvelope :: "Envelope \<Rightarrow> 'b DataBusService \<Rightarrow> 'b DataBusService" where
  "HandleSubscribeEnvelope env d =
     (let queue = env_reply_to env in
      if queue = [] then d
      else if queue \<in> set (db_Recievers d) then d
      else d\<lparr>db_Recievers := db_Recievers d @ [queue]\<rparr>)"

definition handleEnvelope :: "Envelope \<Rightarrow> 'b DataBusService \<Rightarrow> 'b DataBusService" where
  "handleEnvelope env d = (if env_type env = databus_SUBSCRIBE then HandleSubscribeEnvelope env d else d)"

definition ReceiveEnvelopes ::
  "string list \<Rightarrow> 'b DataBusService \<Rightarrow> 'b DataBusService \<times> Envelope list" where
  "ReceiveEnvelopes messages d = ListenToQueue (Some handleEnvelope) messages d"

subsection \<open>The client\<close>

definition NewDataBusClient :: "'b \<Rightarrow> string \<Rightarrow> 'b BaseClient" where
  "NewDataBusClient bus clientName =
     NewBaseClient bus databus_CommandQueue databus_ReplyPrefix clientName (5 * 1000000000)"

definition databus_Get :: "'b bus_ops \<Rightarrow> 'b BaseClient \<Rightarrow> string \<Rightarrow> 'b BaseClient \<times> unit outcome" where
  "databus_Get ops bc replyQueue = client_SendWithReplyTo ops bc databus_GET PNil replyQueue"

definition Subscribe :: "'b bus_ops \<Rightarrow> 'b BaseClient \<Rightarrow> string \<Rightarrow> 'b BaseClient \<times> unit outcome" where
  "Subscribe ops bc replyQueue = client_SendWithReplyTo ops bc databus_SUBSCRIBE PNil replyQueue"

definition DeleteProducer ::
  "'b bus_ops \<Rightarrow> 'b BaseClient \<Rightarrow> AuthService \<Rightarrow> 'b BaseClient \<times> unit outcome" where
  "DeleteProducer ops bc svc = client_Send ops bc databus_DELETEPRODUCER (PVal (enc_service svc))"

definition GetProducers ::
  "'b bus_ops \<Rightarrow> nat \<Rightarrow> entropy \<Rightarrow> string list \<Rightarrow> 'b BaseClient \<Rightarrow> 'b BaseClient \<times> DataProducer list outcome" where
  "GetProducers ops ch rnd arrivals bc =
     (case Call ops ch rnd arrivals databus_GETPRODUCERS PNil (Some (dec_list dec_producer zero_producer)) [] bc of
        (bc', Ok (producers, None)) \<Rightarrow> (bc', Ok producers)
      | (bc', Ok (producers, Some e)) \<Rightarrow> (bc', Err e)
      | (bc', Err e) \<Rightarrow> (bc', Err e)
      | (bc', Panic w) \<Rightarrow> (bc', Panic w)
      | (bc', Exit n) \<Rightarrow> (bc', Exit n))"

text \<open>\<open>GetGroup\<close> skips payloads that do not decode.\<close>

fun decode_groups :: "Envelope list \<Rightarrow> DataGroup list" where
  "decode_groups [] = []"
| "decode_groups (env # envs) =
     (case DecodePayload (env_payload env) (Some dec_group) zero_group of
        (grp, Some e) \<Rightarrow> decode_groups envs
      | (grp, None) \<Rightarrow> grp # decode_groups envs)"

definition GetGroup ::
  "'b bus_ops \<Rightarrow> nat \<Rightarrow> 'b BaseClient \<Rightarrow> string \<Rightarrow> listen_event list \<Rightarrow> 'b BaseClient \<times> DataGroup list" where
  "GetGroup ops ch bc queue events =
     (case ListenToQueueFiltered ops ch (bc_Bus bc) queue DATAGROUP events of
        (b, envs, closed) \<Rightarrow> (bc\<lparr>bc_Bus := b\<rparr>, decode_groups envs))"

subsection \<open>The table of groups\<close>

text \<open>A Go map of maps: for each system, its latest group of each id.\<close>

type_synonym DataGroups = "(string \<times> (string \<times> DataGroup) list) list"

definition NewDataGroupsMap :: DataGroups where
  "NewDataGroupsMap = []"

definition AddDataGroup :: "string \<Rightarrow> DataGroup \<Rightarrow> DataGroups \<Rightarrow> DataGroups" where
  "AddDataGroup sysId grp d =
     (let inner = (case map_of d sysId of None \<Rightarrow> [] | Some m \<Rightarrow> m) in
      alist_put sysId (alist_put (dg_ID grp) grp inner) d)"

definition NewDataProducers :: "nat \<Rightarrow> DataProducer option list" where
  "NewDataProducers n = replicate n None"

definition NewDataProducer :: DataProducer where
  "NewDataProducer = zero_producer"

subsection \<open>Round trips of the JSON forms\<close>

lemma lower_eval:
  "to_lower [] = []" "to_lower (c # s) = to_lower_char c # to_lower s"
  by (simp_all add: to_lower_def)

lemma value_field_simps [wire_simps]:
  "value_field ''ID'' = dec_field dec_string dv_ID (\<lambda>v. dv_ID_update (\<lambda>_. v))"
  "value_field ''Context'' = dec_field dec_string dv_Context (\<lambda>v. dv_Context_update (\<lambda>_. v))"
  "value_field ''Label'' = dec_field dec_string dv_Label (\<lambda>v. dv_Label_update (\<lambda>_. v))"
  "value_field ''Value'' = dec_field dec_string dv_Value (\<lambda>v. dv_Value_update (\<lambda>_. v))"
  "value_field ''System'' = dec_field dec_string dv_System (\<lambda>v. dv_System_update (\<lambda>_. v))"
  "value_field ''HostName'' = dec_field dec_string dv_HostName (\<lambda>v. dv_HostName_update (\<lambda>_. v))"
  "value_field ''Timestamp'' = dec_field dec_string dv_Timestamp (\<lambda>v. dv_Timestamp_update (\<lambda>_. v))"
  by (simp_all add: value_field_def lower_eval to_lower_char_def)

lemma event_field_simps [wire_simps]:
  "event_field ''EventType'' = dec_field dec_string ev_EventType (\<lambda>v. ev_EventType_update (\<lambda>_. v))"
  "event_field ''EventId'' = dec_field dec_string ev_EventId (\<lambda>v. ev_EventId_update (\<lambda>_. v))"
  "event_field ''EventTimestamp'' = dec_field dec_string ev_EventTimestamp (\<lambda>v. ev_EventTimestamp_update (\<lambda>_. v))"
  "event_field ''MemberId'' = dec_field dec_string ev_MemberId (\<lambda>v. ev_MemberId_update (\<lambda>_. v))"
  "event_field ''MessageSeverity'' = dec_field dec_string ev_MessageSeverity (\<lambda>v. ev_MessageSeverity_update (\<lambda>_. v))"
  "event_field ''Message'' = dec_field dec_string ev_Message (\<lambda>v. ev_Message_update (\<lambda>_. v))"
  "event_field ''MessageId'' = dec_field dec_string ev_MessageId (\<lambda>v. ev_MessageId_update (\<lambda>_. v))"
  "event_field ''MessageArgs'' = dec_field (dec_slice dec_string []) ev_MessageArgs (\<lambda>v. ev_MessageArgs_update (\<lambda>_. v))"
  "event_field ''OriginOfCondition'' = dec_field dec_string ev_OriginOfCondition (\<lambda>v. ev_OriginOfCondition_update (\<lambda>_. v))"
  by (simp_all add: event_field_def lower_eval to_lower_char_def)

lemma group_field_simps [wire_simps]:
  "group_field ''HostID'' = dec_field dec_string dg_HostID (\<lambda>v. dg_HostID_update (\<lambda>_. v))"
  "group_field ''ID'' = dec_field dec_string dg_ID (\<lambda>v. dg_ID_update (\<lambda>_. v))"
  "group_field ''Label'' = dec_field dec_string dg_Label (\<lambda>v. dg_Label_update (\<lambda>_. v))"
  "group_field ''Sequence'' = dec_field dec_string dg_Sequence (\<lambda>v. dg_Sequence_update (\<lambda>_. v))"
  "group_field ''System'' = dec_field dec_string dg_System (\<lambda>v. dg_System_update (\<lambda>_. v))"
  "group_field ''HostName'' = dec_field dec_string dg_HostName (\<lambda>v. dg_HostName_update (\<lambda>_. v))"
  "group_field ''Model'' = dec_field dec_string dg_Model (\<lambda>v. dg_Model_update (\<lambda>_. v))"
  "group_field ''SKU'' = dec_field dec_string dg_SKU (\<lambda>v. dg_SKU_update (\<lambda>_. v))"
  "group_field ''FQDN'' = dec_field dec_string dg_FQDN (\<lambda>v. dg_FQDN_update (\<lambda>_. v))"
  "group_field ''FwVer'' = dec_field dec_string dg_FwVer (\<lambda>v. dg_FwVer_update (\<lambda>_. v))"
  "group_field ''ImgID'' = dec_field dec_string dg_ImgID (\<lambda>v. dg_ImgID_update (\<lambda>_. v))"
  "group_field ''Timestamp'' = dec_field dec_string dg_Timestamp (\<lambda>v. dg_Timestamp_update (\<lambda>_. v))"
  "group_field ''Values'' = dec_field (dec_slice dec_value zero_value) dg_Values (\<lambda>v. dg_Values_update (\<lambda>_. v))"
  "group_field ''Events'' = dec_field (dec_slice dec_event zero_event) dg_Events (\<lambda>v. dg_Events_update (\<lambda>_. v))"
  by (simp_all add: group_field_def lower_eval to_lower_char_def)

lemma producer_field_simps [wire_simps]:
  "producer_field ''Hostname'' = dec_field dec_string dp_Hostname (\<lambda>v. dp_Hostname_update (\<lambda>_. v))"
  "producer_field ''Username'' = dec_field dec_string dp_Username (\<lambda>v. dp_Username_update (\<lambda>_. v))"
  "producer_field ''State'' = dec_field dec_string dp_State (\<lambda>v. dp_State_update (\<lambda>_. v))"
  "producer_field ''LastEvent'' = dec_field dec_time dp_LastEvent (\<lambda>v. dp_LastEvent_update (\<lambda>_. v))"
  by (simp_all add: producer_field_def lower_eval to_lower_char_def)

lemma dec_enc_slice:
  "(\<And>x. d (e x) z = (x, True)) \<Longrightarrow> dec_slice d z (enc_slice e s) None = (s, True)"
  by (cases s) (simp_all add: dec_slice_def enc_slice_def dec_elems_map)

lemma json_ok_enc_slice [wire_simps]: "(\<And>x. json_ok (e x)) \<Longrightarrow> json_ok (enc_slice e s)"
  by (cases s) (simp_all add: enc_slice_def list_all_iff)

lemma dec_enc_value [wire_simps]: "dec_value (enc_value v) zero_value = (v, True)"
  by (simp add: dec_value_def dec_struct_def enc_value_def dec_field_def wire_simps zero_value_def)

lemma dec_enc_event [wire_simps]: "dec_event (enc_event e) zero_event = (e, True)"
proof -
  have "dec_slice dec_string [] (enc_slice JStr (ev_MessageArgs e)) None = (ev_MessageArgs e, True)"
    by (rule dec_enc_slice) (simp add: wire_simps)
  then show ?thesis
    by (simp add: dec_event_def dec_struct_def enc_event_def dec_field_def wire_simps zero_event_def)
qed

lemma dec_enc_group [wire_simps]: "dec_group (enc_group g) zero_group = (g, True)"
proof -
  have "dec_slice dec_value zero_value (enc_slice enc_value (dg_Values g)) None = (dg_Values g, True)"
    by (rule dec_enc_slice) (simp add: wire_simps)
  moreover have "dec_slice dec_event zero_event (enc_slice enc_event (dg_Events g)) None = (dg_Events g, True)"
    by (rule dec_enc_slice) (simp add: wire_simps)
  ultimately show ?thesis
    by (simp add: dec_group_def dec_struct_def enc_group_def dec_field_def wire_simps zero_group_def)
qed

lemma json_ok_group [wire_simps]: "json_ok (enc_value v)" "json_ok (enc_event e)" "json_ok (enc_group g)"
  by (simp_all add: enc_value_def enc_event_def enc_group_def wire_simps)

lemma dec_enc_producer [wire_simps]:
  assumes "enc_producer p = Some j" and "t_nsec (dp_LastEvent p) < 1000000000"
    and "t_off (dp_LastEvent p) mod 60 = 0"
  shows "dec_producer j zero_producer = (p, True)"
proof -
  from assms(1) obtain t where t: "marshal_time (dp_LastEvent p) = Some t"
    by (auto simp: enc_producer_def split: option.splits)
  with parse_format_rfc3339 [OF t assms(2,3)] assms(1) show ?thesis
    by (auto simp: enc_producer_def dec_producer_def dec_struct_def dec_field_def wire_simps
        dec_time_def zero_producer_def)
qed

subsection \<open>Broadcasting\<close>

definition group_envelope :: "DataGroup \<Rightarrow> Envelope" where
  "group_envelope g = empty_envelope\<lparr>env_type := DATAGROUP, env_payload := json_print (enc_group g)\<rparr>"

lemma group_envelope_fields:
  "env_type (group_envelope g) = DATAGROUP"
  "DecodePayload (env_payload (group_envelope g)) (Some dec_group) zero_group = (g, None)"
  using DecodePayload_print [of "enc_group g" dec_group zero_group g]
  by (simp_all add: group_envelope_def wire_simps)

lemma received_groups:
  "\<forall>m\<in>set ms. DecodeEnvelope m = (group_envelope g, None) \<Longrightarrow>
     decode_groups (fst (listen_filtered DATAGROUP (map Message ms))) = replicate (length ms) g"
  by (induction ms) (simp_all add: case_prod_beta group_envelope_fields)

context partial_bus begin

text \<open>Every address gets one copy for each reachable receiver it stands for.\<close>

lemma send_to_all_sent:
  "\<exists>b'. send_to_all ops g qs b = (b', Ok ()) \<and> up b' = up b \<and>
     (\<forall>a. \<exists>ms. sent b' a = sent b a @ ms \<and> length ms = length (filter (\<lambda>q. addr q = a \<and> up b q) qs)
        \<and> (\<forall>m\<in>set ms. DecodeEnvelope m = (group_envelope g, None)))"
proof (induction qs arbitrary: b)
  case (Cons q qs)
  show ?case
  proof (cases "up b q")
    case True
    with service_SendTo_up [of "enc_group g" b q DATAGROUP] obtain b1 m where
      b1: "SendGroupToQueue ops b g q = (b1, Ok ())" "up b1 = up b"
        "sent b1 = (sent b)(addr q := sent b (addr q) @ [m])"
      and m: "DecodeEnvelope m = (group_envelope g, None)"
      by (auto simp: SendGroupToQueue_def group_envelope_def wire_simps)
    from Cons [of b1] obtain b' where b': "send_to_all ops g qs b1 = (b', Ok ())" "up b' = up b1"
      and ms: "\<forall>a. \<exists>ms. sent b' a = sent b1 a @ ms
        \<and> length ms = length (filter (\<lambda>q. addr q = a \<and> up b1 q) qs)
        \<and> (\<forall>m\<in>set ms. DecodeEnvelope m = (group_envelope g, None))" by blast
    have "\<exists>ms. sent b' a = sent b a @ ms \<and> length ms = length (filter (\<lambda>q. addr q = a \<and> up b q) (q # qs))
        \<and> (\<forall>m\<in>set ms. DecodeEnvelope m = (group_envelope g, None))" for a
    proof -
      from ms obtain ms where ms: "sent b' a = sent b1 a @ ms"
        "length ms = length (filter (\<lambda>q. addr q = a \<and> up b1 q) qs)"
        "\<forall>m\<in>set ms. DecodeEnvelope m = (group_envelope g, None)" by blast
      with b1 m True show ?thesis
        by (intro exI [of _ "(if addr q = a then [m] else []) @ ms"]) auto
    qed
    with b1 b' show ?thesis by auto
  next
    case False
    with service_SendTo_down [of "enc_group g" b q DATAGROUP] obtain b1 e where
      b1: "SendGroupToQueue ops b g q = (b1, Err e)" "up b1 = up b" "sent b1 = sent b"
      by (auto simp: SendGroupToQueue_def wire_simps)
    with Cons [of b1] False show ?thesis by auto
  qed
qed simp

end

lemma listen_message_state:
  "fst (listen_message (Some h) m st) =
     (case DecodeEnvelope m of (env, None) \<Rightarrow> h env (fst st) | (env, Some e) \<Rightarrow> fst st)"
  by (auto simp: listen_message_def split: prod.splits option.splits)

lemma receivers_fold:
  fixes d :: "'b DataBusService" and envs :: "Envelope list"
  defines "st ms \<equiv> fold (listen_message (Some handleEnvelope)) ms (d, envs)"
  shows "db_Base (fst (st ms)) = db_Base d
    \<and> (distinct (db_Recievers d) \<and> [] \<notin> set (db_Recievers d) \<longrightarrow>
        distinct (db_Recievers (fst (st ms))) \<and> [] \<notin> set (db_Recievers (fst (st ms))))
    \<and> set (db_Recievers (fst (st ms))) = set (db_Recievers d) \<union>
        {env_reply_to env | env. \<exists>m\<in>set ms. DecodeEnvelope m = (env, None)
           \<and> env_type env = databus_SUBSCRIBE \<and> env_reply_to env \<noteq> []}"
  unfolding st_def
proof (induction ms arbitrary: d envs)
  case (Cons m ms)
  obtain env r where e: "DecodeEnvelope m = (env, r)" by (cases "DecodeEnvelope m")
  obtain d' envs' where step: "listen_message (Some handleEnvelope) m (d, envs) = (d', envs')"
    by (cases "listen_message (Some handleEnvelope) m (d, envs)")
  have d': "d' = (if r = None then handleEnvelope env d else d)"
    using step e by (auto simp: listen_message_def split: option.splits)
  have hyp: "db_Base d' = db_Base d"
    "distinct (db_Recievers d) \<and> [] \<notin> set (db_Recievers d) \<Longrightarrow>
       distinct (db_Recievers d') \<and> [] \<notin> set (db_Recievers d')"
    "set (db_Recievers d') = set (db_Recievers d) \<union>
       (if r = None \<and> env_type env = databus_SUBSCRIBE \<and> env_reply_to env \<noteq> [] then {env_reply_to env} else {})"
    by (auto simp: d' handleEnvelope_def HandleSubscribeEnvelope_def Let_def)
  from Cons [of d' envs'] hyp e step show ?case by (auto split: if_splits)
qed auto

lemma SendGroup_mock:
  assumes "mb_sendError (bs_Bus (db_Base d)) = None" and "distinct (db_Recievers d)"
  shows "\<exists>d'. SendGroup mock_ops d g = (d', Ok ()) \<and> db_Recievers d' = db_Recievers d \<and>
    (\<forall>q. \<exists>ms. mb_queueMsgs (bs_Bus (db_Base d')) q = mb_queueMsgs (bs_Bus (db_Base d)) q @ ms
       \<and> length ms = (if q \<in> set (db_Recievers d) then 1 else 0)
       \<and> decode_groups (fst (listen_filtered DATAGROUP (map Message ms)))
           = (if q \<in> set (db_Recievers d) then [g] else []))"
proof -
  have count: "length (filter (\<lambda>x. x = q) qs) = (if q \<in> set qs then 1 else 0)" if "distinct qs" for q and qs :: "string list"
    using that by (induction qs) auto
  from mock.send_to_all_sent [of g "db_Recievers d" "bs_Bus (db_Base d)"] assms obtain b' where
    b': "send_to_all mock_ops g (db_Recievers d) (bs_Bus (db_Base d)) = (b', Ok ())"
    and ms: "\<forall>q. \<exists>ms. mb_queueMsgs b' q = mb_queueMsgs (bs_Bus (db_Base d)) q @ ms
      \<and> length ms = length (filter (\<lambda>x. x = q) (db_Recievers d))
      \<and> (\<forall>m\<in>set ms. DecodeEnvelope m = (group_envelope g, None))" by auto
  let ?d = "d\<lparr>db_Base := (db_Base d)\<lparr>bs_Bus := b'\<rparr>\<rparr>"
  have "\<exists>ms. mb_queueMsgs b' q = mb_queueMsgs (bs_Bus (db_Base d)) q @ ms
       \<and> length ms = (if q \<in> set (db_Recievers d) then 1 else 0)
       \<and> decode_groups (fst (listen_filtered DATAGROUP (map Message ms)))
           = (if q \<in> set (db_Recievers d) then [g] else [])" for q
  proof -
    from ms obtain ms where "mb_queueMsgs b' q = mb_queueMsgs (bs_Bus (db_Base d)) q @ ms"
      "length ms = (if q \<in> set (db_Recievers d) then 1 else 0)"
      "\<forall>m\<in>set ms. DecodeEnvelope m = (group_envelope g, None)"
      using count [OF assms(2), of q] by metis
    with received_groups [of ms g] show ?thesis by (intro exI [of _ ms]) simp
  qed
  with b' show ?thesis by (intro exI [of _ ?d]) (simp add: SendGroup_def)
qed

subsection \<open>Properties\<close>

text \<open>C5: the telemetry broadcast: when the service sends a group, every subscribed queue
  gets exactly one new message, from which the client's \<open>GetGroup\<close> reads back exactly that
  group; no other queue gets anything.\<close>

theorem SendGroup_reaches_receivers:
  assumes "mb_sendError (bs_Bus (db_Base d)) = None" and "distinct (db_Recievers d)"
  shows "\<exists>d'. SendGroup mock_ops d g = (d', Ok ()) \<and> db_Recievers d' = db_Recievers d \<and>
    (\<forall>q. \<exists>ms. mb_queueMsgs (bs_Bus (db_Base d')) q = mb_queueMsgs (bs_Bus (db_Base d)) q @ ms
       \<and> length ms = (if q \<in> set (db_Recievers d) then 1 else 0)
       \<and> decode_groups (fst (listen_filtered DATAGROUP (map Message ms)))
           = (if q \<in> set (db_Recievers d) then [g] else []))"
  using SendGroup_mock [OF assms] .

theorem SendGroup_reaches_receivers_witness:
  "\<exists>d'. SendGroup mock_ops ((NewDataBusService NewMockMessageBus)\<lparr>db_Recievers := [''/kafka'', ''/splunk'']\<rparr>)
       (zero_group\<lparr>dg_ID := ''PowerMetrics''\<rparr>) = (d', Ok ())
     \<and> (\<exists>ms. mb_queueMsgs (bs_Bus (db_Base d')) ''/splunk'' = ms
          \<and> decode_groups (fst (listen_filtered DATAGROUP (map Message ms)))
              = [zero_group\<lparr>dg_ID := ''PowerMetrics''\<rparr>])"
proof -
  let ?d = "(NewDataBusService NewMockMessageBus)\<lparr>db_Recievers := [''/kafka'', ''/splunk'']\<rparr>"
  have "mb_sendError (bs_Bus (db_Base ?d)) = None" "distinct (db_Recievers ?d)"
    "mb_queueMsgs (bs_Bus (db_Base ?d)) ''/splunk'' = []"
    by (simp_all add: NewDataBusService_def NewBaseService_def NewMockMessageBus_def)
  with SendGroup_reaches_receivers [of ?d "zero_group\<lparr>dg_ID := ''PowerMetrics''\<rparr>"] show ?thesis
    by fastforce
qed

text \<open>The receivers of the service, whatever messages arrive on its command queue: no
  queue is listed twice, the empty name is never listed, and a queue is listed exactly when
  some \<open>subscribe\<close> envelope asked for it; the bus is left alone.\<close>

theorem ReceiveEnvelopes_receivers:
  "let d = fst (ReceiveEnvelopes messages (NewDataBusService bus)) in
     distinct (db_Recievers d) \<and> [] \<notin> set (db_Recievers d)
     \<and> db_Base d = db_Base (NewDataBusService bus)
     \<and> set (db_Recievers d) =
         {env_reply_to env | env. \<exists>m\<in>set messages. DecodeEnvelope m = (env, None)
            \<and> env_type env = databus_SUBSCRIBE \<and> env_reply_to env \<noteq> []}"
  using receivers_fold [of messages "NewDataBusService bus" "[]"]
  by (simp add: ReceiveEnvelopes_def ListenToQueue_def NewDataBusService_def Let_def)

text \<open>C16: from subscription to delivery: a client whose \<open>Subscribe\<close> succeeds has put one
  message on the command queue; once the service has taken it, its next broadcast puts one
  message on the client's queue, and \<open>GetGroup\<close> gives the client that group.\<close>

theorem subscriber_gets_group:
  assumes "Subscribe mock_ops bc q = (bc', Ok ())" and "q \<noteq> []"
    and "distinct (db_Recievers d)" and "mb_sendError (bs_Bus (db_Base d)) = None"
  shows "\<exists>m d1 envs d2 ms.
    mb_queueMsgs (bc_Bus bc') (bc_CommandQueue bc) = mb_queueMsgs (bc_Bus bc) (bc_CommandQueue bc) @ [m]
    \<and> ReceiveEnvelopes [m] d = (d1, envs) \<and> SendGroup mock_ops d1 g = (d2, Ok ())
    \<and> mb_queueMsgs (bs_Bus (db_Base d2)) q = mb_queueMsgs (bs_Bus (db_Base d)) q @ ms
    \<and> decode_groups (fst (listen_filtered DATAGROUP (map Message ms))) = [g]"
proof -
  let ?e = "empty_envelope\<lparr>env_type := databus_SUBSCRIBE, env_reply_to := q\<rparr>"
  from assms(1) obtain b where s: "send_envelope mock_ops (bc_Bus bc) (bc_CommandQueue bc) ?e = (b, Ok ())"
    and b: "bc' = bc\<lparr>bc_Bus := b\<rparr>"
    by (auto simp: Subscribe_def client_SendWithReplyTo_def client_SendToWithReplyTo_def NewEnvelope_def
        EncodePayload_def send_new_def empty_envelope_def split: prod.splits)
  have "raw_ok (env_payload ?e)" by (simp add: empty_envelope_def)
  from mock.send_envelope_sent [OF this s] obtain m where
    m: "mb_queueMsgs b = (mb_queueMsgs (bc_Bus bc))(bc_CommandQueue bc := mb_queueMsgs (bc_Bus bc) (bc_CommandQueue bc) @ [m])"
      "DecodeEnvelope m = (?e, None)" by blast
  define d1 where "d1 = fst (ReceiveEnvelopes [m] d)"
  have d1: "d1 = HandleSubscribeEnvelope ?e d" "q \<in> set (db_Recievers d1)" "distinct (db_Recievers d1)"
    "db_Base d1 = db_Base d"
    using assms(2,3) m(2)
    by (auto simp: d1_def ReceiveEnvelopes_def ListenToQueue_def listen_message_def handleEnvelope_def
        HandleSubscribeEnvelope_def Let_def)
  obtain envs where envs: "ReceiveEnvelopes [m] d = (d1, envs)" by (cases "ReceiveEnvelopes [m] d") (simp add: d1_def)
  from SendGroup_mock [of d1 g] d1 assms(4) obtain d2 where d2: "SendGroup mock_ops d1 g = (d2, Ok ())"
    and all: "\<forall>q. \<exists>ms. mb_queueMsgs (bs_Bus (db_Base d2)) q = mb_queueMsgs (bs_Bus (db_Base d1)) q @ ms
       \<and> length ms = (if q \<in> set (db_Recievers d1) then 1 else 0)
       \<and> decode_groups (fst (listen_filtered DATAGROUP (map Message ms)))
           = (if q \<in> set (db_Recievers d1) then [g] else [])" by auto
  from all d1 obtain ms where "mb_queueMsgs (bs_Bus (db_Base d2)) q = mb_queueMsgs (bs_Bus (db_Base d)) q @ ms"
    "decode_groups (fst (listen_filtered DATAGROUP (map Message ms))) = [g]" by metis
  with m b envs d2 show ?thesis by auto
qed

theorem subscriber_gets_group_witness:
  "\<exists>bc' m d1 envs d2 ms.
     Subscribe mock_ops (NewDataBusClient NewMockMessageBus ''kafka'') ''/kafka'' = (bc', Ok ())
     \<and> ReceiveEnvelopes [m] (NewDataBusService NewMockMessageBus) = (d1, envs)
     \<and> SendGroup mock_ops d1 (zero_group\<lparr>dg_ID := ''PowerMetrics''\<rparr>) = (d2, Ok ())
     \<and> mb_queueMsgs (bs_Bus (db_Base d2)) ''/kafka'' = ms
     \<and> decode_groups (fst (listen_filtered DATAGROUP (map Message ms))) = [zero_group\<lparr>dg_ID := ''PowerMetrics''\<rparr>]"
proof -
  let ?bc = "NewDataBusClient NewMockMessageBus ''kafka''" and ?d = "NewDataBusService NewMockMessageBus"
  let ?e = "empty_envelope\<lparr>env_type := databus_SUBSCRIBE, env_reply_to := ''/kafka''\<rparr>"
  obtain b' where "send_envelope mock_ops (bc_Bus ?bc) databus_CommandQueue ?e = (b', Ok ())"
    using mock_send_envelope_ok [of ?e "bc_Bus ?bc"]
    by (auto simp: empty_envelope_def NewDataBusClient_def NewBaseClient_def NewMockMessageBus_def)
  then have s: "Subscribe mock_ops ?bc ''/kafka'' = (?bc\<lparr>bc_Bus := b'\<rparr>, Ok ())"
    by (simp add: Subscribe_def client_SendWithReplyTo_def client_SendToWithReplyTo_def NewEnvelope_def
        EncodePayload_def send_new_def empty_envelope_def NewDataBusClient_def NewBaseClient_def)
  have "distinct (db_Recievers ?d)" "mb_sendError (bs_Bus (db_Base ?d)) = None"
    and e: "mb_queueMsgs (bs_Bus (db_Base ?d)) ''/kafka'' = []"
    by (simp_all add: NewDataBusService_def NewBaseService_def NewMockMessageBus_def)
  from subscriber_gets_group [OF s _ this(1,2), of "zero_group\<lparr>dg_ID := ''PowerMetrics''\<rparr>"] s e
  show ?thesis by fastforce
qed

end
