(* ===== verification/Reports.thy ===== *)
theory Reports
  imports RedfishStreams Databus
begin

text \<open>
  The parsing half of \<^verbatim>\<open>pkg/redfishread/redfishdevice.go\<close>: how a metric report or an alert
  that has arrived from a device becomes a data group. Reading a payload may follow links,
  so the functions run in the state of the device's Redfish client.

  \<open>clock j\<close> is what \<open>time.Now()\<close> returns for the \<open>j\<close>-th value of a report.
\<close>

subsection \<open>Devices\<close>

text \<open>
  \<open>rd_Redfish\<close> is \<open>None\<close> for a nil client, also for the nil \<open>*RedfishClient\<close> inside the
  interface that a failed \<open>InitBearer\<close> leaves: any use of it panics. The channels of a device
  are the lists of events its listeners receive.
\<close>

record RedfishDevice =
  rd_HasChildren :: bool
  rd_Redfish :: "RedfishClient option"
  rd_SystemID :: string
  rd_HostName :: string
  rd_Model :: string
  rd_SKU :: string
  rd_FwVer :: string
  rd_FQDN :: string
  rd_ImgID :: string
  rd_ChildDevices :: "(int \<times> string) list option"
  rd_State :: string
  rd_LastEvent :: gotime
  rd_cancelled :: bool

definition zero_device :: RedfishDevice where
  "zero_device = \<lparr>rd_HasChildren = False, rd_Redfish = None, rd_SystemID = [], rd_HostName = [],
     rd_Model = [], rd_SKU = [], rd_FwVer = [], rd_FQDN = [], rd_ImgID = [], rd_ChildDevices = None,
     rd_State = [], rd_LastEvent = zero_time, rd_cancelled = False\<rparr>"

text \<open>What every group says about the system it comes from.\<close>

definition device_group :: "RedfishDevice \<Rightarrow> DataGroup" where
  "device_group d = zero_group\<lparr>dg_HostName := rd_HostName d, dg_FQDN := rd_FQDN d,
     dg_System := rd_SystemID d, dg_Model := rd_Model d, dg_SKU := rd_SKU d,
     dg_FwVer := rd_FwVer d, dg_ImgID := rd_ImgID d\<rparr>"

text \<open>A slice that has only been appended to is nil as long as it is empty.\<close>

definition slice :: "'a list \<Rightarrow> 'a list option" where
  "slice xs = (if xs = [] then None else Some xs)"

text \<open>A type assertion with a comma: the empty string for anything but a string.\<close>

definition str_or_empty :: "string \<Rightarrow> (string \<times> json) list \<Rightarrow> string" where
  "str_or_empty k ms = (case obj_get k ms of Some (JStr s) \<Rightarrow> s | _ \<Rightarrow> [])"

subsection \<open>Metric reports\<close>

definition metric_id :: "RedfishPayload \<Rightarrow> string outcome" where
  "metric_id p =
     (case nonnil ''MetricId'' (pl_Object p) of
        None \<Rightarrow> Ok []
      | Some v \<Rightarrow>
          outcome_bind (as_string (Some v)) (\<lambda>mid.
            (case nonnil ''MetricProperty'' (pl_Object p) of
               Some w \<Rightarrow>
                 (if mid = [] then
                    outcome_bind (as_string (Some w)) (\<lambda>mp. Ok (replace_char (CHR ''#'') ''_'' (after_slash mp)))
                  else Ok mid)
             | None \<Rightarrow> Ok mid)))"

definition getValueIdContextAndLabel :: "RedfishPayload \<Rightarrow> int \<Rightarrow> (string \<times> string \<times> string) outcome" where
  "getValueIdContextAndLabel p i =
     outcome_bind (metric_id p) (\<lambda>mid.
       let vid = (if mid = [] then ''Metric'' @ int_dec i else mid) in
       (case nonnil ''Oem'' (pl_Object p) of
          None \<Rightarrow> Ok (vid, [], vid)
        | Some v \<Rightarrow>
            outcome_bind (as_map (Some v)) (\<lambda>oem.
              (case nonnil ''Dell'' oem of
                 None \<Rightarrow> Ok (vid, [], vid)
               | Some w \<Rightarrow>
                   outcome_bind (as_map (Some w)) (\<lambda>dell.
                     (case (nonnil ''ContextID'' dell, nonnil ''Label'' dell) of
                        (Some c, Some l) \<Rightarrow>
                          outcome_bind (as_string (Some c)) (\<lambda>ctx.
                          outcome_bind (as_string (Some l)) (\<lambda>lbl. Ok (vid, ctx, lbl)))
                      | _ \<Rightarrow> Ok (vid, [], vid)))))))"

text \<open>One metric value: nothing when it has no \<open>MetricValue\<close>.\<close>

definition metric_data :: "gotime \<Rightarrow> RedfishDevice \<Rightarrow> int \<Rightarrow> RedfishPayload \<Rightarrow> DataValue option outcome" where
  "metric_data now d j p =
     (case nonnil ''MetricValue'' (pl_Object p) of
        None \<Rightarrow> Ok None
      | Some v \<Rightarrow>
          outcome_bind (getValueIdContextAndLabel p j) (\<lambda>(vid, ctx, lbl).
          outcome_bind (as_string (Some v)) (\<lambda>val.
          outcome_bind (case nonnil ''Timestamp'' (pl_Object p) of
                          None \<Rightarrow> Ok (format_plain_zone now)
                        | Some t \<Rightarrow> as_string (Some t)) (\<lambda>ts.
            Ok (Some \<lparr>dv_ID = vid, dv_Context = ctx, dv_Label = lbl, dv_Value = val,
                      dv_System = rd_SystemID d, dv_HostName = rd_HostName d, dv_Timestamp = ts\<rparr>)))))"

text \<open>The loop over the values: one that cannot be read is passed over.\<close>

fun metric_loop ::
  "http_server \<Rightarrow> (nat \<Rightarrow> gotime) \<Rightarrow> RedfishDevice \<Rightarrow> RedfishPayload \<Rightarrow> nat list \<Rightarrow> (RedfishClient, DataValue list) go" where
  "metric_loop srv clock d values [] = liftS (Ok [])"
| "metric_loop srv clock d values (j # js) =
     tryS (GetPropertyByIndex srv (int j) values)
       (\<lambda>p. bindS (liftS (metric_data (clock j) d (int j) p))
          (\<lambda>v. bindS (metric_loop srv clock d values js)
             (\<lambda>vs. liftS (Ok ((case v of None \<Rightarrow> [] | Some x \<Rightarrow> [x]) @ vs)))))
       (\<lambda>e. metric_loop srv clock d values js)"

text \<open>The group a metric report becomes; \<open>None\<close> when the report has no metric values.\<close>

definition report_group ::
  "http_server \<Rightarrow> (nat \<Rightarrow> gotime) \<Rightarrow> RedfishDevice \<Rightarrow> RedfishPayload \<Rightarrow> (RedfishClient, DataGroup option) go" where
  "report_group srv clock d report =
     tryS (GetPropertyByName srv ''MetricValues'' report)
       (\<lambda>values.
          bindS (liftS (as_string (obj_get ''Id'' (pl_Object report)))) (\<lambda>gid.
          bindS (liftS (as_string (obj_get ''Name'' (pl_Object report)))) (\<lambda>lbl.
          bindS (liftS (as_string (obj_get ''Timestamp'' (pl_Object report)))) (\<lambda>ts.
          bindS (metric_loop srv clock d values [0..<nat (GetArraySize values)]) (\<lambda>vs.
            liftS (Ok (Some ((device_group d)\<lparr>dg_ID := gid, dg_Label := lbl, dg_Timestamp := ts,
              dg_Values := slice vs\<rparr>))))))))
       (\<lambda>e. liftS (Ok None))"

subsection \<open>Alerts\<close>

fun strings_of :: "json list \<Rightarrow> string list outcome" where
  "strings_of [] = Ok []"
| "strings_of (v # vs) =
     outcome_bind (as_string (Some v)) (\<lambda>s. outcome_bind (strings_of vs) (\<lambda>ss. Ok (s # ss)))"

definition message_args :: "(string \<times> json) list \<Rightarrow> string list outcome" where
  "message_args ms =
     (case nonnil ''MessageArgs'' ms of
        None \<Rightarrow> Ok []
      | Some v \<Rightarrow> outcome_bind (as_array (Some v)) strings_of)"

text \<open>One alert: nothing when it has no \<open>EventId\<close>. Its origin is a link, which is followed
  to read the address the linked resource gives for itself.\<close>

definition alert_data :: "http_server \<Rightarrow> RedfishPayload \<Rightarrow> (RedfishClient, EventValue option) go" where
  "alert_data srv p =
     (let ms = pl_Object p in
      case nonnil ''EventId'' ms of
        None \<Rightarrow> liftS (Ok None)
      | Some v \<Rightarrow>
          bindS (tryS (GetPropertyByName srv ''OriginOfCondition'' p)
                   (\<lambda>o'. liftS (as_string (obj_get ''@odata.id'' (pl_Object o'))))
                   (\<lambda>e. liftS (Ok [])))
            (\<lambda>origin. bindS (liftS (message_args ms))
              (\<lambda>args. liftS (Ok (Some
                \<lparr>ev_EventType = str_or_empty ''EventType'' ms, ev_EventId = str_or_empty ''EventId'' ms,
                 ev_EventTimestamp = str_or_empty ''EventTimestamp'' ms,
                 ev_MemberId = str_or_empty ''MemberId'' ms,
                 ev_MessageSeverity = str_or_empty ''MessageSeverity'' ms,
                 ev_Message = str_or_empty ''Message'' ms, ev_MessageId = str_or_empty ''MessageId'' ms,
                 ev_MessageArgs = slice args, ev_OriginOfCondition = origin\<rparr>)))))"

text \<open>The loop over the alerts: one that cannot be read ends the whole function, and nothing
  is sent (\<open>None\<close>).\<close>

fun alert_loop ::
  "http_server \<Rightarrow> RedfishPayload \<Rightarrow> nat list \<Rightarrow> (RedfishClient, EventValue list option) go" where
  "alert_loop srv events [] = liftS (Ok (Some []))"
| "alert_loop srv events (j # js) =
     tryS (GetEventByIndex srv (int j) events)
       (\<lambda>p. bindS (alert_data srv p)
          (\<lambda>v. bindS (alert_loop srv events js)
             (\<lambda>vs. liftS (Ok (map_option (\<lambda>l. (case v of None \<Rightarrow> [] | Some x \<Rightarrow> [x]) @ l) vs)))))
       (\<lambda>e. liftS (Ok None))"

definition alert_group ::
  "http_server \<Rightarrow> RedfishDevice \<Rightarrow> RedfishPayload \<Rightarrow> (RedfishClient, DataGroup option) go" where
  "alert_group srv d events =
     tryS (GetPropertyByName srv ''Events'' events)
       (\<lambda>eventData c.
          bindS (alert_loop srv events [0..<nat (GetArraySize eventData)]) (\<lambda>vs.
            liftS (Ok (map_option
              (\<lambda>l. (device_group d)\<lparr>dg_HostID := rf_Hostname c, dg_ID := str_or_empty ''Id'' (pl_Object events),
                  dg_Events := slice l\<rparr>) vs))) c)
       (\<lambda>e. liftS (Ok None))"

subsection \<open>Well-typed metric values\<close>

text \<open>What the schema says of a metric value: strings where the code expects strings, objects
  where it expects objects, and more than the lone key that makes an object a link.\<close>

definition string_field :: "string \<Rightarrow> (string \<times> json) list \<Rightarrow> bool" where
  "string_field k ms = (case obj_get k ms of None \<Rightarrow> True | Some JNull \<Rightarrow> True | Some (JStr s) \<Rightarrow> True | _ \<Rightarrow> False)"

definition no_link :: "(string \<times> json) list \<Rightarrow> bool" where
  "no_link ms = (length (remdups (map fst ms)) \<noteq> 1)"

definition oem_dell :: "(string \<times> json) list \<Rightarrow> (string \<times> json) list" where
  "oem_dell ms =
     (case nonnil ''Oem'' ms of
        Some (JObj oem) \<Rightarrow> (case nonnil ''Dell'' oem of Some (JObj dell) \<Rightarrow> dell | _ \<Rightarrow> [])
      | _ \<Rightarrow> [])"

definition oem_field :: "(string \<times> json) list \<Rightarrow> bool" where
  "oem_field ms =
     (case nonnil ''Oem'' ms of
        None \<Rightarrow> True
      | Some (JObj oem) \<Rightarrow>
          (case nonnil ''Dell'' oem of
             None \<Rightarrow> True
           | Some (JObj dell) \<Rightarrow> string_field ''ContextID'' dell \<and> string_field ''Label'' dell
           | _ \<Rightarrow> False)
      | _ \<Rightarrow> False)"

definition metric_ok :: "(string \<times> json) list \<Rightarrow> bool" where
  "metric_ok ms \<longleftrightarrow> no_link ms \<and> oem_field ms
     \<and> (\<forall>k\<in>set [''MetricId'', ''MetricProperty'', ''MetricValue'', ''Timestamp'']. string_field k ms)"

text \<open>What such a value stands for, read off its fields. A metric property is only used when
  there is an empty metric id; the label is the id unless Dell gives both context and label.\<close>

definition metric_name :: "int \<Rightarrow> (string \<times> json) list \<Rightarrow> string" where
  "metric_name j ms =
     (let mid = str_or_empty ''MetricId'' ms;
          prop_name = replace_char (CHR ''#'') ''_'' (after_slash (str_or_empty ''MetricProperty'' ms)) in
      if mid \<noteq> [] then mid
      else if nonnil ''MetricId'' ms \<noteq> None \<and> prop_name \<noteq> [] then prop_name
      else ''Metric'' @ int_dec j)"

definition metric_spec :: "gotime \<Rightarrow> RedfishDevice \<Rightarrow> int \<Rightarrow> (string \<times> json) list \<Rightarrow> DataValue list" where
  "metric_spec now d j ms =
     (let dell = oem_dell ms;
          labelled = (nonnil ''ContextID'' dell \<noteq> None \<and> nonnil ''Label'' dell \<noteq> None) in
      if nonnil ''MetricValue'' ms = None then []
      else [\<lparr>dv_ID = metric_name j ms,
             dv_Context = (if labelled then str_or_empty ''ContextID'' dell else []),
             dv_Label = (if labelled then str_or_empty ''Label'' dell else metric_name j ms),
             dv_Value = str_or_empty ''MetricValue'' ms,
             dv_System = rd_SystemID d, dv_HostName = rd_HostName d,
             dv_Timestamp = (if nonnil ''Timestamp'' ms = None then format_plain_zone now
                             else str_or_empty ''Timestamp'' ms)\<rparr>])"

lemma string_field_cases:
  "string_field k ms \<Longrightarrow>
     nonnil k ms = None \<and> str_or_empty k ms = [] \<or> nonnil k ms = Some (JStr (str_or_empty k ms))"
  by (auto simp: string_field_def nonnil_def str_or_empty_def split: option.splits json.splits)

lemma as_string_JStr [simp]: "as_string (Some (JStr s)) = Ok s"
  by (simp add: as_string_def)

lemma as_map_JObj [simp]: "as_map (Some (JObj ms)) = Ok ms"
  by (simp add: as_map_def)

lemma object_payload_Object [simp]: "pl_Object (object_payload ms) = ms"
  by (simp add: object_payload_def empty_payload_def)

lemma after_slash_Nil [simp]: "after_slash [] = []"
  by (simp add: after_slash_def)

lemma replace_char_Nil [simp]: "replace_char c n [] = []"
  by (simp add: replace_char_def)

lemma metric_id_ok:
  assumes "string_field ''MetricId'' ms" and "string_field ''MetricProperty'' ms"
  shows "\<exists>mid. metric_id (object_payload ms) = Ok mid \<and>
    (if mid = [] then ''Metric'' @ int_dec j else mid) = metric_name j ms"
  using string_field_cases [OF assms(1)] string_field_cases [OF assms(2)]
  by (elim disjE conjE) (simp_all add: metric_id_def metric_name_def Let_def)

lemma label_ok:
  assumes "metric_ok ms"
  shows "getValueIdContextAndLabel (object_payload ms) j =
    (let dell = oem_dell ms;
         labelled = (nonnil ''ContextID'' dell \<noteq> None \<and> nonnil ''Label'' dell \<noteq> None) in
     Ok (metric_name j ms, if labelled then str_or_empty ''ContextID'' dell else [],
         if labelled then str_or_empty ''Label'' dell else metric_name j ms))"
proof -
  from assms metric_id_ok [of ms j] obtain mid where mid: "metric_id (object_payload ms) = Ok mid"
    "(if mid = [] then ''Metric'' @ int_dec j else mid) = metric_name j ms" by (auto simp: metric_ok_def)
  have oem: "oem_field ms" using assms by (simp add: metric_ok_def)
  have none: "nonnil k [] = None" for k by (simp add: nonnil_def obj_get_def)
  show ?thesis
  proof (cases "nonnil ''Oem'' ms")
    case None
    with mid none show ?thesis by (simp add: getValueIdContextAndLabel_def oem_dell_def Let_def)
  next
    case (Some v)
    with oem obtain oem where v: "v = JObj oem" by (auto simp: oem_field_def split: json.splits)
    show ?thesis
    proof (cases "nonnil ''Dell'' oem")
      case None
      with Some v mid none show ?thesis by (simp add: getValueIdContextAndLabel_def oem_dell_def Let_def)
    next
      case (Some w)
      with \<open>nonnil ''Oem'' ms = Some v\<close> v oem obtain dell where w: "w = JObj dell"
        "string_field ''ContextID'' dell" "string_field ''Label'' dell"
        by (auto simp: oem_field_def split: json.splits)
      with \<open>nonnil ''Oem'' ms = Some v\<close> v Some mid
        string_field_cases [OF w(2)] string_field_cases [OF w(3)] show ?thesis
        by (auto simp: getValueIdContextAndLabel_def oem_dell_def Let_def split: option.splits)
    qed
  qed
qed

lemma metric_data_ok:
  assumes "metric_ok ms"
  shows "\<exists>v. metric_data now d j (object_payload ms) = Ok v
    \<and> (case v of None \<Rightarrow> [] | Some x \<Rightarrow> [x]) = metric_spec now d j ms"
proof -
  have "string_field ''MetricValue'' ms" "string_field ''Timestamp'' ms"
    using assms by (simp_all add: metric_ok_def)
  from string_field_cases [OF this(1)] string_field_cases [OF this(2)] show ?thesis
    by (auto simp: metric_data_def metric_spec_def label_ok [OF assms] Let_def)
qed

text \<open>Reading a value of an array needs no request unless it is a link.\<close>

lemma GetPropertyByIndex_object:
  assumes "j < length mss" and "no_link (mss ! j)"
  shows "GetPropertyByIndex srv (int j) (empty_payload\<lparr>pl_Array := Some (map JObj mss)\<rparr>) c
    = (c, Ok (object_payload (mss ! j)))"
  using assms
  by (simp add: GetPropertyByIndex_def by_index_def IsCollection_def empty_payload_def obj_get_def
      GetArraySize_def index_of_def follow_def getUriFromValue_def no_link_def bindS_def liftS_def
      valueToPayload_def)

lemma metric_loop_ok:
  assumes "\<forall>j\<in>set js. j < length mss \<and> metric_ok (mss ! j)"
  shows "metric_loop srv clock d (empty_payload\<lparr>pl_Array := Some (map JObj mss)\<rparr>) js c
    = (c, Ok (concat (map (\<lambda>j. metric_spec (clock j) d (int j) (mss ! j)) js)))"
  using assms
proof (induction js)
  case (Cons j js)
  then have j: "j < length mss" "metric_ok (mss ! j)" by simp_all
  from metric_data_ok [OF j(2), of "clock j" d "int j"] obtain v where
    v: "metric_data (clock j) d (int j) (object_payload (mss ! j)) = Ok v"
      "(case v of None \<Rightarrow> [] | Some x \<Rightarrow> [x]) = metric_spec (clock j) d (int j) (mss ! j)" by blast
  have link: "no_link (mss ! j)" using j(2) by (simp add: metric_ok_def)
  from Cons v show ?case
    by (simp add: tryS_def GetPropertyByIndex_object [OF j(1) link] bindS_def liftS_def)
qed (simp add: liftS_def)

text \<open>The group a well-typed report stands for.\<close>

definition report_spec ::
  "(nat \<Rightarrow> gotime) \<Rightarrow> RedfishDevice \<Rightarrow> (string \<times> json) list \<Rightarrow> (string \<times> json) list list \<Rightarrow> DataGroup" where
  "report_spec clock d obj mss =
     (device_group d)\<lparr>dg_ID := str_or_empty ''Id'' obj, dg_Label := str_or_empty ''Name'' obj,
       dg_Timestamp := str_or_empty ''Timestamp'' obj,
       dg_Values := slice (concat (map (\<lambda>j. metric_spec (clock j) d (int j) (mss ! j)) [0..<length mss]))\<rparr>"

lemma report_group_ok:
  assumes "obj_get ''Id'' obj = Some (JStr rid)" and "obj_get ''Name'' obj = Some (JStr name)"
    and "obj_get ''Timestamp'' obj = Some (JStr ts)"
    and "obj_get ''MetricValues'' obj = Some (JArr (map JObj mss))" and "\<forall>ms\<in>set mss. metric_ok ms"
  shows "report_group srv clock d (object_payload obj) c = (c, Ok (Some (report_spec clock d obj mss)))"
proof -
  have "metric_loop srv clock d (empty_payload\<lparr>pl_Array := Some (map JObj mss)\<rparr>) [0..<length mss] c
    = (c, Ok (concat (map (\<lambda>j. metric_spec (clock j) d (int j) (mss ! j)) [0..<length mss])))"
    using assms(5) by (intro metric_loop_ok) simp
  then show ?thesis
    using assms(1-4)
    by (simp add: report_group_def tryS_def bindS_def liftS_def GetPropertyByName_def follow_def
        getUriFromValue_def valueToPayload_def GetArraySize_def report_spec_def str_or_empty_def
        device_group_def)
qed

end
