(* ===== verification/Readers.thy ===== *)
theory Readers
  imports Reports
begin

text \<open>
  \<^verbatim>\<open>pkg/redfishread/\<close> and \<^verbatim>\<open>cmd/redfishread/redfishread.go\<close>: the program that reads telemetry
  from the devices and broadcasts it. It keeps a device for every address it has been given,
  monitors each with up to two listeners, publishes what they receive, and answers commands.

  Devices are shared by pointer between the table, the monitors and the listeners, so they
  live in a store (\<open>rr_mem\<close>) and a pointer is an index into it. Goroutines that have been
  started are entries of \<open>rr_monitors\<close> and \<open>rr_started\<close>. \<open>rr_actions\<close> records, for each
  device, when a listener (re)starts its stream and when it sleeps.
\<close>

subsection \<open>State\<close>

datatype listener = AlertListener | MetricListener

datatype listen_action = Listen listener | SleepMinutes nat

record 'b reader =
  rr_service :: "'b DataBusService"
  rr_auth :: "'b BaseClient"
  rr_groups :: "DataGroups option"
  rr_mem :: "RedfishDevice list"
  rr_devices :: "(string \<times> nat) list option"
  rr_monitors :: "nat list"
  rr_started :: "(nat \<times> listener) list"
  rr_actions :: "(nat \<times> listen_action) list"

definition device :: "nat \<Rightarrow> 'b reader \<Rightarrow> RedfishDevice" where
  "device i s = rr_mem s ! i"

definition set_device :: "nat \<Rightarrow> (RedfishDevice \<Rightarrow> RedfishDevice) \<Rightarrow> ('b reader, unit) go" where
  "set_device i f s = (s\<lparr>rr_mem := (rr_mem s)[i := f (device i s)]\<rparr>, Ok ())"

text \<open>A call of a method of the device's Redfish client.\<close>

definition on_client :: "nat \<Rightarrow> (RedfishClient, 'a) go \<Rightarrow> ('b reader, 'a) go" where
  "on_client i m s =
     (case rd_Redfish (device i s) of
        None \<Rightarrow> (s, Panic ''nil pointer dereference'')
      | Some c \<Rightarrow>
          (case m c of (c', r) \<Rightarrow>
             (s\<lparr>rr_mem := (rr_mem s)[i := (device i s)\<lparr>rd_Redfish := Some c'\<rparr>]\<rparr>, r)))"

definition log_action :: "nat \<Rightarrow> listen_action \<Rightarrow> ('b reader, unit) go" where
  "log_action i a s = (s\<lparr>rr_actions := rr_actions s @ [(i, a)]\<rparr>, Ok ())"

definition find_device :: "string \<Rightarrow> 'b reader \<Rightarrow> nat option" where
  "find_device ip s = (case rr_devices s of None \<Rightarrow> None | Some m \<Rightarrow> map_of m ip)"

definition InitNewDataGroupsMap :: "'b reader \<Rightarrow> 'b reader" where
  "InitNewDataGroupsMap s = s\<lparr>rr_groups := Some NewDataGroupsMap\<rparr>"

text \<open>\<open>SendGroup\<close>, whose error is dropped, then \<open>DataGroupsMap.AddDataGroup\<close>.\<close>

definition publish :: "'b bus_ops \<Rightarrow> nat \<Rightarrow> DataGroup \<Rightarrow> ('b reader, unit) go" where
  "publish ops i g s =
     (case SendGroup ops (rr_service s) g of
        (svc, Panic w) \<Rightarrow> (s\<lparr>rr_service := svc\<rparr>, Panic w)
      | (svc, Exit n) \<Rightarrow> (s\<lparr>rr_service := svc\<rparr>, Exit n)
      | (svc, _) \<Rightarrow>
          (case rr_groups s of
             None \<Rightarrow> (s\<lparr>rr_service := svc\<rparr>, Panic ''nil pointer dereference'')
           | Some t \<Rightarrow>
               (s\<lparr>rr_service := svc, rr_groups := Some (AddDataGroup (rd_SystemID (device i s)) g t)\<rparr>, Ok ())))"

definition publish_option :: "'b bus_ops \<Rightarrow> nat \<Rightarrow> DataGroup option \<Rightarrow> ('b reader, unit) go" where
  "publish_option ops i g = (case g of None \<Rightarrow> liftS (Ok ()) | Some g' \<Rightarrow> publish ops i g')"

definition parseReport ::
  "'b bus_ops \<Rightarrow> http_server \<Rightarrow> (nat \<Rightarrow> gotime) \<Rightarrow> RedfishPayload \<Rightarrow> nat \<Rightarrow> ('b reader, unit) go" where
  "parseReport ops srv clock report i s =
     bindS (on_client i (report_group srv clock (device i s) report)) (publish_option ops i) s"

definition parseRedfishEvents ::
  "'b bus_ops \<Rightarrow> http_server \<Rightarrow> RedfishPayload \<Rightarrow> nat \<Rightarrow> ('b reader, unit) go" where
  "parseRedfishEvents ops srv events i s =
     bindS (on_client i (alert_group srv (device i s) events)) (publish_option ops i) s"

subsection \<open>Listeners\<close>

definition RestartAlertListener :: "nat \<Rightarrow> ('b reader, unit) go" where
  "RestartAlertListener i =
     bindS (on_client i (liftS (Ok ()))) (\<lambda>u. log_action i (Listen AlertListener))"

definition RestartMetricListener :: "nat \<Rightarrow> ('b reader, unit) go" where
  "RestartMetricListener i =
     bindS (on_client i (liftS (Ok ()))) (\<lambda>u. log_action i (Listen MetricListener))"

text \<open>After a lost connection the listener waits five minutes for a reboot of the device.\<close>

definition stream_error :: "('b reader, unit) go \<Rightarrow> nat \<Rightarrow> gerror \<Rightarrow> ('b reader, unit) go" where
  "stream_error restart i e =
     bindS (if contains e ''connection error'' then log_action i (SleepMinutes 5) else liftS (Ok ()))
       (\<lambda>u. restart)"

text \<open>One turn of each listener's loop; \<open>None\<close> is a nil event. \<open>clock 0\<close> is the time the event
  arrives, the rest of the clock is for the values of its report.\<close>

definition alert_event ::
  "'b bus_ops \<Rightarrow> http_server \<Rightarrow> (nat \<Rightarrow> gotime) \<Rightarrow> nat \<Rightarrow> RedfishEvent option \<Rightarrow> ('b reader, unit) go" where
  "alert_event ops srv clock i event =
     (case event of
        None \<Rightarrow> liftS (Ok ())
      | Some e \<Rightarrow>
          (case re_Err e of
             Some err \<Rightarrow> stream_error (RestartAlertListener i) i err
           | None \<Rightarrow>
               bindS (set_device i (rd_LastEvent_update (\<lambda>_. clock 0))) (\<lambda>u.
                 (case re_Payload e of
                    None \<Rightarrow> liftS (Ok ())
                  | Some p \<Rightarrow>
                      (case obj_get ''@odata.type'' (pl_Object p) of
                         Some (JStr ot) \<Rightarrow>
                           (if contains ot ''.Event'' then parseRedfishEvents ops srv p i
                            else liftS (Ok ()))
                       | _ \<Rightarrow> liftS (Ok ()))))))"

definition metric_event ::
  "'b bus_ops \<Rightarrow> http_server \<Rightarrow> (nat \<Rightarrow> gotime) \<Rightarrow> nat \<Rightarrow> RedfishEvent option \<Rightarrow> ('b reader, unit) go" where
  "metric_event ops srv clock i event =
     (case event of
        None \<Rightarrow> liftS (Ok ())
      | Some e \<Rightarrow>
          (case re_Err e of
             Some err \<Rightarrow> stream_error (RestartMetricListener i) i err
           | None \<Rightarrow>
               bindS (set_device i (rd_LastEvent_update (\<lambda>_. clock 0))) (\<lambda>u.
                 (case re_Payload e of
                    None \<Rightarrow> liftS (Ok ())
                  | Some p \<Rightarrow>
                      (case obj_get ''@odata.type'' (pl_Object p) of
                         Some (JStr ot) \<Rightarrow>
                           (if contains ot ''.MetricReport'' then
                              bindS (liftS (as_string (obj_get ''@odata.id'' (pl_Object p)))) (\<lambda>rid.
                                parseReport ops srv (\<lambda>j. clock (Suc j)) p i)
                            else liftS (Ok ()))
                       | _ \<Rightarrow> liftS (Ok ()))))))"

text \<open>A listener starts its stream and then takes the events it is sent, each with its clock.\<close>

fun each_event :: "('e \<Rightarrow> ('s, unit) go) \<Rightarrow> 'e list \<Rightarrow> ('s, unit) go" where
  "each_event f [] = liftS (Ok ())"
| "each_event f (e # es) = bindS (f e) (\<lambda>u. each_event f es)"

definition StartAlertListener ::
  "'b bus_ops \<Rightarrow> http_server \<Rightarrow> ((nat \<Rightarrow> gotime) \<times> RedfishEvent option) list \<Rightarrow> nat \<Rightarrow> ('b reader, unit) go" where
  "StartAlertListener ops srv events i =
     bindS (RestartAlertListener i) (\<lambda>u. each_event (\<lambda>(clock, e). alert_event ops srv clock i e) events)"

definition StartMetricListener ::
  "'b bus_ops \<Rightarrow> http_server \<Rightarrow> ((nat \<Rightarrow> gotime) \<times> RedfishEvent option) list \<Rightarrow> nat \<Rightarrow> ('b reader, unit) go" where
  "StartMetricListener ops srv events i =
     bindS (RestartMetricListener i) (\<lambda>u. each_event (\<lambda>(clock, e). metric_event ops srv clock i e) events)"

subsection \<open>Taking on a device\<close>

text \<open>An unknown authentication type leaves a nil client and no error.\<close>

definition connect_device :: "http_server \<Rightarrow> AuthService \<Rightarrow> (RedfishClient option \<times> gerror option) outcome" where
  "connect_device srv svc =
     (if svc_AuthType svc = AuthTypeUsernamePassword then
        (case redfish_Init srv (svc_Ip svc) (auth_entry svc ''username'') (auth_entry svc ''password'')
                (svc_ServiceType svc) of
           (c, Ok p) \<Rightarrow> Ok (Some c, None)
         | (c, Err e) \<Rightarrow> Ok (Some c, Some e)
         | (c, Panic w) \<Rightarrow> Panic w
         | (c, Exit n) \<Rightarrow> Exit n)
      else if svc_AuthType svc = AuthTypeBearerToken then
        (case InitBearer srv (svc_Ip svc) (auth_entry svc ''token'') of
           Ok c \<Rightarrow> Ok (Some c, None)
         | Err e \<Rightarrow> Ok (None, Some e)
         | Panic w \<Rightarrow> Panic w
         | Exit n \<Rightarrow> Exit n)
      else Ok (None, None))"

text \<open>A device whose connection has failed is kept in the table all the same. A nil table is
  replaced in the function only, the caller's stays nil.\<close>

definition ValidateAndAddDevice ::
  "http_server \<Rightarrow> AuthService \<Rightarrow> ('b reader, nat option \<times> gerror option) go" where
  "ValidateAndAddDevice srv svc s =
     (if svc_Ip svc = [] then (s, Ok (None, Some ''ServiceIP is empty''))
      else if find_device (svc_Ip svc) s \<noteq> None then
        (s, Ok (None, Some (''Device with IP '' @ svc_Ip svc @ '' already exists'')))
      else
        (case connect_device srv svc of
           Ok (client, err) \<Rightarrow>
             (let d = zero_device\<lparr>rd_State := (if err = None then STARTING else CONNFAILED),
                        rd_Redfish := client, rd_HasChildren := (svc_ServiceType svc = MSM)\<rparr>;
                  i = length (rr_mem s) in
              (s\<lparr>rr_mem := rr_mem s @ [d],
                 rr_devices := map_option (alist_put (svc_Ip svc) i) (rr_devices s)\<rparr>, Ok (Some i, err)))
         | Err e \<Rightarrow> (s, Err e)
         | Panic w \<Rightarrow> (s, Panic w)
         | Exit n \<Rightarrow> (s, Exit n)))"

definition child_entry :: "RedfishPayload \<Rightarrow> (int \<times> string) option outcome" where
  "child_entry p =
     outcome_bind (as_string (obj_get ''ChassisType'' (pl_Object p))) (\<lambda>type.
       (case nonnil ''SKU'' (pl_Object p) of
          Some sku \<Rightarrow>
            (if type \<noteq> ''Enclosure'' then
               outcome_bind (as_string (obj_get ''Name'' (pl_Object p))) (\<lambda>name.
                 if has_prefix name ''Sled-'' then
                   outcome_bind (index_of (split_on (CHR ''-'') name) 1) (\<lambda>slot.
                   outcome_bind (as_string (Some sku)) (\<lambda>tag.
                     Ok (Some (fst (parse_int64 slot), tag))))
                 else Ok None)
             else Ok None)
        | None \<Rightarrow> Ok None))"

fun child_loop ::
  "http_server \<Rightarrow> RedfishPayload \<Rightarrow> nat list \<Rightarrow> (int \<times> string) list \<Rightarrow> (RedfishClient, (int \<times> string) list) go" where
  "child_loop srv collection [] m = liftS (Ok m)"
| "child_loop srv collection (j # js) m =
     tryS (GetPropertyByIndex srv (int j) collection)
       (\<lambda>chassis. bindS (liftS (child_entry chassis))
          (\<lambda>entry. child_loop srv collection js
             (case entry of None \<Rightarrow> m | Some (k, tag) \<Rightarrow> alist_put k tag m)))
       (\<lambda>e. child_loop srv collection js m)"

text \<open>The children of a chassis, starting from the empty map.\<close>

definition populateChildChassis :: "http_server \<Rightarrow> RedfishPayload \<Rightarrow> (RedfishClient, (int \<times> string) list) go" where
  "populateChildChassis srv serviceRoot =
     tryS (GetPropertyByName srv ''Chassis'' serviceRoot)
       (\<lambda>collection.
          bindS (liftS (GetCollectionSize collection)) (\<lambda>size. child_loop srv collection [0..<nat size] []))
       (\<lambda>e. liftS (Ok []))"

subsection \<open>Monitoring\<close>

text \<open>The authorization client and the data bus service share one bus. The address reported is
  the host name of the Redfish client.\<close>

definition report_state :: "'b bus_ops \<Rightarrow> string \<Rightarrow> nat \<Rightarrow> ('b reader, unit) go" where
  "report_state ops state i s =
     (case rd_Redfish (device i s) of
        None \<Rightarrow> (s, Panic ''nil pointer dereference'')
      | Some c \<Rightarrow>
          (let svc = rr_service s;
               (ac, err) = UpdateServiceState ops ((rr_auth s)\<lparr>bc_Bus := bs_Bus (db_Base svc)\<rparr>) state (rf_Hostname c) in
           (s\<lparr>rr_auth := ac, rr_service := svc\<lparr>db_Base := (db_Base svc)\<lparr>bs_Bus := bc_Bus ac\<rparr>\<rparr>\<rparr>, Ok ())))"

definition start_listener :: "nat \<Rightarrow> listener \<Rightarrow> ('b reader, unit) go" where
  "start_listener i l s = (s\<lparr>rr_started := rr_started s @ [(i, l)]\<rparr>, Ok ())"

definition getTelemetry :: "nat \<Rightarrow> ('b reader, unit) go" where
  "getTelemetry i =
     bindS (set_device i (rd_State_update (\<lambda>_. RUNNING))) (\<lambda>u. start_listener i MetricListener)"

definition getAlerts :: "(string \<Rightarrow> string) \<Rightarrow> nat \<Rightarrow> ('b reader, unit) go" where
  "getAlerts env i =
     (if env ''INCLUDE_ALERTS'' \<noteq> ''true'' then liftS (Ok ())
      else bindS (set_device i (rd_State_update (\<lambda>_. RUNNING))) (\<lambda>u. start_listener i AlertListener))"

definition monitor_children :: "http_server \<Rightarrow> RedfishPayload \<Rightarrow> nat \<Rightarrow> ('b reader, unit) go" where
  "monitor_children srv root i s =
     (if rd_HasChildren (device i s) then
        bindS (set_device i (rd_ChildDevices_update (\<lambda>_. Some []))) (\<lambda>u.
        bindS (on_client i (populateChildChassis srv root)) (\<lambda>m.
          set_device i (rd_ChildDevices_update (\<lambda>_. Some m)))) s
      else (s, Ok ()))"

definition monitor_root ::
  "'b bus_ops \<Rightarrow> http_server \<Rightarrow> (string \<Rightarrow> string) \<Rightarrow> nat \<Rightarrow> RedfishPayload \<Rightarrow> ('b reader, unit) go" where
  "monitor_root ops srv env i root =
     bindS (monitor_children srv root i) (\<lambda>u.
       tryS (on_client i (GetPropertyByName srv ''TelemetryService'' root))
         (\<lambda>p. bindS (report_state ops RUNNING i) (\<lambda>u.
              bindS (getTelemetry i) (\<lambda>u. getAlerts env i)))
         (\<lambda>e. bindS (set_device i (rd_State_update (\<lambda>_. RUNNINGWOTEL))) (\<lambda>u.
              bindS (report_state ops MONITORING i) (\<lambda>u. getAlerts env i))))"

definition identify :: "string \<Rightarrow> SysInfo \<Rightarrow> gerror option \<Rightarrow> RedfishDevice \<Rightarrow> RedfishDevice" where
  "identify systemID info err d =
     d\<lparr>rd_SystemID := systemID,
       rd_HostName := (if err \<noteq> None \<or> in_hostname info = [] then systemID else in_hostname info),
       rd_SKU := in_sku info, rd_Model := in_model info, rd_FwVer := in_fwver info,
       rd_FQDN := in_fqdn info, rd_ImgID := in_imgid info\<rparr>"

definition monitor_identified ::
  "'b bus_ops \<Rightarrow> http_server \<Rightarrow> (string \<Rightarrow> string) \<Rightarrow> nat \<Rightarrow> string \<Rightarrow> ('b reader, unit) go" where
  "monitor_identified ops srv env i systemID =
     bindS (on_client i (GetSysInfo srv)) (\<lambda>(info, err).
     bindS (set_device i (identify systemID info err)) (\<lambda>u.
     bindS (on_client i (\<lambda>c. (SetFwVer (in_fwver info) c, Ok ()))) (\<lambda>u.
     tryS (on_client i (GetUri srv ''/redfish/v1'')) (monitor_root ops srv env i) (\<lambda>e. liftS (Ok ())))))"

definition RedfishMonitorStart ::
  "'b bus_ops \<Rightarrow> http_server \<Rightarrow> (string \<Rightarrow> string) \<Rightarrow> nat \<Rightarrow> ('b reader, unit) go" where
  "RedfishMonitorStart ops srv env i =
     tryS (on_client i (GetSystemId srv))
       (\<lambda>systemID.
          if systemID = [] then report_state ops CONNFAILED i
          else monitor_identified ops srv env i systemID)
       (\<lambda>e. report_state ops CONNFAILED i)"

text \<open>One turn of \<open>handleAuthServiceChannel\<close>: the monitor of an accepted device is started.\<close>

definition auth_service :: "http_server \<Rightarrow> AuthService \<Rightarrow> ('b reader, unit) go" where
  "auth_service srv svc =
     bindS (ValidateAndAddDevice srv svc)
       (\<lambda>(i, err) s.
          (case (i, err) of
             (Some j, None) \<Rightarrow> (s\<lparr>rr_monitors := rr_monitors s @ [j]\<rparr>, Ok ())
           | _ \<Rightarrow> (s, Ok ())))"

subsection \<open>The main loop\<close>

text \<open>The error of a reply is dropped.\<close>

definition reader_Reply :: "'b bus_ops \<Rightarrow> Envelope \<Rightarrow> payload \<Rightarrow> ('b reader, unit) go" where
  "reader_Reply ops env p s =
     (let svc = rr_service s in
      case service_Reply ops (bs_Bus (db_Base svc)) env p of
        (b, r) \<Rightarrow>
          (s\<lparr>rr_service := svc\<lparr>db_Base := (db_Base svc)\<lparr>bs_Bus := b\<rparr>\<rparr>\<rparr>,
           (case r of Panic w \<Rightarrow> Panic w | Exit n \<Rightarrow> Exit n | _ \<Rightarrow> Ok ())))"

definition device_producer :: "RedfishDevice \<Rightarrow> DataProducer outcome" where
  "device_producer d =
     (case rd_Redfish d of
        None \<Rightarrow> Panic ''nil pointer dereference''
      | Some c \<Rightarrow> Ok \<lparr>dp_Hostname = rf_Hostname c, dp_Username = rf_Username c,
                      dp_State = rd_State d, dp_LastEvent = rd_LastEvent d\<rparr>)"

fun producers :: "RedfishDevice list \<Rightarrow> DataProducer list outcome" where
  "producers [] = Ok []"
| "producers (d # ds) =
     outcome_bind (device_producer d) (\<lambda>p. outcome_bind (producers ds) (\<lambda>ps. Ok (p # ps)))"

text \<open>The producers as a payload: a time that cannot be written makes the whole of it fail.\<close>

fun enc_producers :: "DataProducer list \<Rightarrow> json list option" where
  "enc_producers [] = Some []"
| "enc_producers (p # ps) =
     (case (enc_producer p, enc_producers ps) of (Some j, Some js) \<Rightarrow> Some (j # js) | _ \<Rightarrow> None)"

definition producers_payload :: "DataProducer list \<Rightarrow> payload" where
  "producers_payload ps =
     (case enc_producers ps of None \<Rightarrow> PBad ''Time.MarshalJSON'' | Some js \<Rightarrow> PVal (JArr js))"

definition device_table :: "'b reader \<Rightarrow> (string \<times> nat) list" where
  "device_table s = (case rr_devices s of None \<Rightarrow> [] | Some m \<Rightarrow> m)"

definition redfishread_command :: "'b bus_ops \<Rightarrow> Envelope \<Rightarrow> ('b reader, unit) go" where
  "redfishread_command ops env s =
     (if env_type env = databus_GET then
        (case rr_groups s of
           None \<Rightarrow> (s, Panic ''nil pointer dereference'')
         | Some t \<Rightarrow>
             each_event (\<lambda>g. reader_Reply ops env (PVal (enc_group g)))
               (concat (map (\<lambda>(sys, gs). map snd gs) t)) s)
      else if env_type env = databus_GETPRODUCERS then
        (case producers (map (\<lambda>(ip, i). device i s) (device_table s)) of
           Ok ps \<Rightarrow> reader_Reply ops env (producers_payload ps) s
         | Err e \<Rightarrow> (s, Err e)
         | Panic w \<Rightarrow> (s, Panic w)
         | Exit n \<Rightarrow> (s, Exit n))
      else if env_type env = databus_DELETEPRODUCER then
        (case DecodePayload (env_payload env) (Some dec_service) zero_service of
           (svc, Some e) \<Rightarrow> (s, Ok ())
         | (svc, None) \<Rightarrow>
             (case find_device (svc_Ip svc) s of
                None \<Rightarrow> (s, Panic ''nil pointer dereference'')
              | Some i \<Rightarrow>
                  bindS (set_device i (rd_cancelled_update (\<lambda>_. True)))
                    (\<lambda>u s. (s\<lparr>rr_devices := map_option (alist_del (svc_Ip svc)) (rr_devices s)\<rparr>, Ok ())) s))
      else if env_type env = TERMINATE then (s, Exit 0)
      else (s, Ok ()))"

text \<open>A message on the command queue: \<open>ReceiveEnvelopes\<close> takes subscriptions itself and then
  hands every envelope to the loop.\<close>

definition redfishread_message :: "'b bus_ops \<Rightarrow> string \<Rightarrow> ('b reader, unit) go" where
  "redfishread_message ops message s =
     (case ReceiveEnvelopes [message] (rr_service s) of
        (svc, envs) \<Rightarrow> each_event (redfishread_command ops) envs (s\<lparr>rr_service := svc\<rparr>))"

definition redfishread_defaults :: "(string \<times> string) list" where
  "redfishread_defaults = [(''mbhost'', ''activemq''), (''mbport'', ''61613''),
     (''inventoryurl'', ''/redfish/v1/Chassis/System.Embedded.1'')]"

definition redfishread_settings :: "(string \<Rightarrow> string) \<Rightarrow> (string \<times> string) list" where
  "redfishread_settings env =
     (let override = (\<lambda>k v m. if env v \<noteq> [] then alist_put k (env v) m else m) in
      override ''mbport'' ''MESSAGEBUS_PORT'' (override ''mbhost'' ''MESSAGEBUS_HOST''
        redfishread_defaults))"

text \<open>The program once its bus is connected: it asks for all services and starts its loops.\<close>

definition redfishread_start :: "'b bus_ops \<Rightarrow> 'b \<Rightarrow> 'b reader" where
  "redfishread_start ops bus =
     (let ac = ResendAll ops (NewAuthorizationClient bus ''redfishread'') in
      \<lparr>rr_service = NewDataBusService (bc_Bus ac), rr_auth = ac, rr_groups = None, rr_mem = [],
       rr_devices = Some [], rr_monitors = [], rr_started = [], rr_actions = []\<rparr>)"

subsection \<open>The program as steps\<close>

text \<open>
  One step is one goroutine doing its next piece of work: the authorization channel's
  goroutine initialising the table of groups and taking services, a monitor running through,
  a listener taking an event, the main loop taking a message. Devices, events and messages
  are arbitrary. A panic or an exit ends the program, so only regular results are steps.
\<close>

inductive reader_step :: "'b bus_ops \<Rightarrow> (string \<Rightarrow> string) \<Rightarrow> 'b reader \<Rightarrow> 'b reader \<Rightarrow> bool"
  for ops :: "'b bus_ops" and env :: "string \<Rightarrow> string" where
  init: "rr_groups s = None \<Longrightarrow> reader_step ops env s (InitNewDataGroupsMap s)"
| service: "rr_groups s \<noteq> None \<Longrightarrow> auth_service srv svc s = (s', Ok ()) \<Longrightarrow> reader_step ops env s s'"
| monitor:
    "rr_monitors s = before @ i # after \<Longrightarrow>
     RedfishMonitorStart ops srv env i (s\<lparr>rr_monitors := before @ after\<rparr>) = (s', Ok ()) \<Longrightarrow>
     reader_step ops env s s'"
| alert:
    "(i, AlertListener) \<in> set (rr_started s) \<Longrightarrow>
     StartAlertListener ops srv [] i s = (s', Ok ()) \<Longrightarrow> reader_step ops env s s'"
| metric:
    "(i, MetricListener) \<in> set (rr_started s) \<Longrightarrow>
     StartMetricListener ops srv [] i s = (s', Ok ()) \<Longrightarrow> reader_step ops env s s'"
| alert_turn:
    "(i, AlertListener) \<in> set (rr_started s) \<Longrightarrow>
     alert_event ops srv clock i e s = (s', Ok ()) \<Longrightarrow> reader_step ops env s s'"
| metric_turn:
    "(i, MetricListener) \<in> set (rr_started s) \<Longrightarrow>
     metric_event ops srv clock i e s = (s', Ok ()) \<Longrightarrow> reader_step ops env s s'"
| message: "redfishread_message ops m s = (s', Ok ()) \<Longrightarrow> reader_step ops env s s'"

inductive reader_reachable :: "'b bus_ops \<Rightarrow> (string \<Rightarrow> string) \<Rightarrow> 'b \<Rightarrow> 'b reader \<Rightarrow> bool"
  for ops :: "'b bus_ops" and env :: "string \<Rightarrow> string" and bus :: 'b where
  start: "reader_reachable ops env bus (redfishread_start ops bus)"
| step: "reader_reachable ops env bus s \<Longrightarrow> reader_step ops env s s' \<Longrightarrow> reader_reachable ops env bus s'"

text \<open>
  The invariant: the table lists each address and each device once; a device is in one of
  four states; listeners belong to devices with a client; and in the table of groups every
  group is filed under its own system and id.
\<close>

definition groups_ok :: "DataGroups \<Rightarrow> bool" where
  "groups_ok t \<longleftrightarrow> distinct (map fst t) \<and>
     (\<forall>(sys, gs)\<in>set t. distinct (map fst gs) \<and> (\<forall>(k, g)\<in>set gs. dg_ID g = k \<and> dg_System g = sys))"

definition table_ok :: "'b reader \<Rightarrow> bool" where
  "table_ok s \<longleftrightarrow> distinct (map fst (device_table s)) \<and> distinct (map snd (device_table s))
     \<and> (\<forall>i\<in>set (map snd (device_table s)) \<union> set (rr_monitors s) \<union> fst ` set (rr_started s). i < length (rr_mem s))"

definition has_client :: "nat \<Rightarrow> 'b reader \<Rightarrow> bool" where
  "has_client i s \<longleftrightarrow> i < length (rr_mem s) \<and> rd_Redfish (device i s) \<noteq> None"

definition reader_inv :: "'b reader \<Rightarrow> bool" where
  "reader_inv s \<longleftrightarrow> table_ok s
     \<and> (\<forall>d\<in>set (rr_mem s). rd_State d \<in> {STARTING, CONNFAILED, RUNNING, RUNNINGWOTEL})
     \<and> (\<forall>i\<in>fst ` set (rr_started s). has_client i s)
     \<and> (case rr_groups s of None \<Rightarrow> True | Some t \<Rightarrow> groups_ok t)"

subsection \<open>Keeping the invariant\<close>

definition monitored_inv :: "nat \<Rightarrow> 'b reader \<Rightarrow> bool" where
  "monitored_inv i s \<longleftrightarrow> reader_inv s \<and> has_client i s"

lemma groups_ok_Add:
  assumes "groups_ok t" and "dg_System g = sys"
  shows "groups_ok (AddDataGroup sys g t)"
proof -
  have put: "set (alist_put k v xs) \<subseteq> insert (k, v) (set xs)" for k :: 'k and v :: 'v and xs
    by (induction k v xs rule: alist_put.induct) auto
  define inner where "inner = (case map_of t sys of None \<Rightarrow> [] | Some m \<Rightarrow> m)"
  have inner: "distinct (map fst inner)" "\<forall>(k, g)\<in>set inner. dg_ID g = k \<and> dg_System g = sys"
    using assms(1) by (auto simp: groups_ok_def inner_def split: option.splits dest!: map_of_SomeD)
  let ?new = "alist_put (dg_ID g) g inner"
  have new: "distinct (map fst ?new)" "\<forall>(k, h)\<in>set ?new. dg_ID h = k \<and> dg_System h = sys"
    using inner assms(2) put [of "dg_ID g" g inner] by auto
  show ?thesis
    unfolding groups_ok_def AddDataGroup_def Let_def inner_def [symmetric]
  proof (intro conjI ballI)
    show "distinct (map fst (alist_put sys ?new t))" using assms(1) by (simp add: groups_ok_def)
    fix e assume "e \<in> set (alist_put sys ?new t)"
    then have "e = (sys, ?new) \<or> e \<in> set t" using put [of sys ?new t] by auto
    then show "case e of (sys, gs) \<Rightarrow> distinct (map fst gs) \<and> (\<forall>(k, g)\<in>set gs. dg_ID g = k \<and> dg_System g = sys)"
      using new assms(1) by (auto simp: groups_ok_def)
  qed
qed

lemma device_update [simp]: "i < length (rr_mem s) \<Longrightarrow> device i (s\<lparr>rr_mem := (rr_mem s)[i := d]\<rparr>) = d"
  by (simp add: device_def)

lemma device_other [simp]:
  "device i (s\<lparr>rr_groups := g\<rparr>) = device i s" "device i (s\<lparr>rr_service := v\<rparr>) = device i s"
  "device i (s\<lparr>rr_auth := a\<rparr>) = device i s" "device i (s\<lparr>rr_actions := x\<rparr>) = device i s"
  "device i (s\<lparr>rr_started := y\<rparr>) = device i s" "device i (s\<lparr>rr_monitors := z\<rparr>) = device i s"
  "device i (s\<lparr>rr_devices := w\<rparr>) = device i s"
  by (simp_all add: device_def)

text \<open>A change of one device that keeps a client and a known state.\<close>

lemma monitored_inv_device:
  assumes "monitored_inv i s" and "rd_Redfish d \<noteq> None"
    and "rd_State d \<in> {STARTING, CONNFAILED, RUNNING, RUNNINGWOTEL}"
  shows "monitored_inv i (s\<lparr>rr_mem := (rr_mem s)[i := d]\<rparr>)"
proof -
  let ?s = "s\<lparr>rr_mem := (rr_mem s)[i := d]\<rparr>"
  have client: "has_client k ?s" if "has_client k s" for k
    using that assms(2) by (cases "k = i") (simp_all add: has_client_def device_def)
  have "set ((rr_mem s)[i := d]) \<subseteq> insert d (set (rr_mem s))" by (rule set_update_subset_insert)
  with assms client show ?thesis
    unfolding monitored_inv_def reader_inv_def
    by (auto simp: table_ok_def device_table_def)
qed

lemma keeps_on_client [keeps_intros]: "keeps (monitored_inv i) (on_client i m)"
  unfolding keeps_def
proof (intro allI impI)
  fix s s' r assume s: "monitored_inv i s" and m: "on_client i m s = (s', r)"
  have st: "rd_State (device i s) \<in> {STARTING, CONNFAILED, RUNNING, RUNNINGWOTEL}"
    using s by (simp add: monitored_inv_def reader_inv_def has_client_def device_def)
  from s obtain c where c: "rd_Redfish (device i s) = Some c" by (auto simp: monitored_inv_def has_client_def)
  obtain c' x where "m c = (c', x)" by (cases "m c")
  with m c monitored_inv_device [OF s, of "(device i s)\<lparr>rd_Redfish := Some c'\<rparr>"] st
  show "monitored_inv i s'" by (simp add: on_client_def)
qed

lemma keeps_set_device [keeps_intros]:
  assumes "\<And>d. rd_Redfish (f d) = rd_Redfish d"
    and "\<And>d. rd_State (f d) = rd_State d \<or> rd_State (f d) \<in> {RUNNING, RUNNINGWOTEL}"
  shows "keeps (monitored_inv i) (set_device i f)"
  unfolding keeps_def
proof (intro allI impI)
  fix s s' r assume s: "monitored_inv i s" and m: "set_device i f s = (s', r)"
  have "rd_State (device i s) \<in> {STARTING, CONNFAILED, RUNNING, RUNNINGWOTEL}" "rd_Redfish (device i s) \<noteq> None"
    using s by (simp_all add: monitored_inv_def reader_inv_def has_client_def device_def)
  with assms(2) [of "device i s"] m show "monitored_inv i s'"
    using monitored_inv_device [OF s, of "f (device i s)"] by (auto simp: set_device_def assms(1))
qed

lemma keeps_log_action [keeps_intros]: "keeps (monitored_inv i) (log_action k a)"
  by (auto simp: keeps_def log_action_def monitored_inv_def reader_inv_def table_ok_def device_table_def
      has_client_def)

lemma keeps_start_listener [keeps_intros]: "keeps (monitored_inv i) (start_listener i l)"
  by (auto simp: keeps_def start_listener_def monitored_inv_def reader_inv_def table_ok_def
      device_table_def has_client_def)

text \<open>The bus, the clients and the record of actions are no part of the invariant.\<close>

lemma reader_inv_frame [simp]:
  "reader_inv (s\<lparr>rr_service := v\<rparr>) = reader_inv s" "reader_inv (s\<lparr>rr_auth := a\<rparr>) = reader_inv s"
  by (simp_all add: reader_inv_def table_ok_def device_table_def has_client_def)

lemma monitored_inv_frame [simp]:
  "monitored_inv i (s\<lparr>rr_service := v\<rparr>) = monitored_inv i s"
  "monitored_inv i (s\<lparr>rr_auth := a\<rparr>) = monitored_inv i s"
  by (simp_all add: monitored_inv_def has_client_def)

lemma reader_inv_groups:
  "reader_inv s \<Longrightarrow> groups_ok t \<Longrightarrow> reader_inv (s\<lparr>rr_groups := Some t\<rparr>)"
  by (simp add: reader_inv_def table_ok_def device_table_def has_client_def)

lemma monitored_inv_groups:
  "monitored_inv i s \<Longrightarrow> groups_ok t \<Longrightarrow> monitored_inv i (s\<lparr>rr_groups := Some t\<rparr>)"
  by (simp add: monitored_inv_def reader_inv_groups has_client_def)

lemma keeps_report_state [keeps_intros]: "keeps (monitored_inv i) (report_state ops state k)"
  unfolding keeps_def
proof (intro allI impI)
  fix s s' r assume s: "monitored_inv i s" and m: "report_state ops state k s = (s', r)"
  then have "s' = s \<or> (\<exists>v a. s' = s\<lparr>rr_auth := a, rr_service := v\<rparr>)"
    by (auto simp: report_state_def Let_def split: option.splits prod.splits)
  with s show "monitored_inv i s'" by auto
qed

text \<open>What \<open>publish\<close> does to the state.\<close>

lemma publish_cases:
  assumes "publish ops i g s = (s', r)"
  obtains (sent) svc t where "rr_groups s = Some t" "r = Ok ()"
      "s' = s\<lparr>rr_service := svc, rr_groups := Some (AddDataGroup (rd_SystemID (device i s)) g t)\<rparr>"
    | (stopped) svc where "s' = s\<lparr>rr_service := svc\<rparr>" "r \<noteq> Ok ()"
proof -
  obtain svc x where "SendGroup ops (rr_service s) g = (svc, x)" by (cases "SendGroup ops (rr_service s) g")
  with assms that show ?thesis by (cases x; cases "rr_groups s") (auto simp: publish_def)
qed

lemma publish_inv:
  assumes "monitored_inv i s" and "dg_System g = rd_SystemID (device i s)" and "publish ops i g s = (s', r)"
  shows "monitored_inv i s'"
  using assms(3)
proof (cases rule: publish_cases)
  case (sent svc t)
  from assms(1) sent(1) have "groups_ok t" by (simp add: monitored_inv_def reader_inv_def)
  with assms(1,2) sent(3) show ?thesis
    using monitored_inv_groups [of i "s\<lparr>rr_service := svc\<rparr>"] by (simp add: groups_ok_Add)
qed (use assms(1) in simp)

lemma report_group_system:
  "report_group srv clock d p c = (c', Ok (Some g)) \<Longrightarrow> dg_System g = rd_SystemID d"
  unfolding report_group_def go_Ok by (elim disjE exE conjE) (auto simp: device_group_def)

lemma alert_group_system:
  "alert_group srv d p c = (c', Ok (Some g)) \<Longrightarrow> dg_System g = rd_SystemID d"
  unfolding alert_group_def go_Ok by (elim disjE exE conjE) (auto simp: device_group_def)

text \<open>Publishing what was read of the device it was read from.\<close>

lemma keeps_read_publish:
  assumes "\<And>d c c' g. m d c = (c', Ok (Some g)) \<Longrightarrow> dg_System g = rd_SystemID d"
  shows "keeps (monitored_inv i) (\<lambda>s. bindS (on_client i (m (device i s))) (publish_option ops i) s)"
  unfolding keeps_def
proof (intro allI impI)
  fix s s' r
  assume s: "monitored_inv i s" and m: "bindS (on_client i (m (device i s))) (publish_option ops i) s = (s', r)"
  obtain s1 x where x: "on_client i (m (device i s)) s = (s1, x)" by (cases "on_client i (m (device i s)) s")
  have s1: "monitored_inv i s1" using keepsD [OF keeps_on_client x s] .
  show "monitored_inv i s'"
  proof (cases "\<exists>g. x = Ok (Some g)")
    case True
    then obtain g where g: "x = Ok (Some g)" by blast
    with x s have "dg_System g = rd_SystemID (device i s1)"
      by (auto simp: on_client_def monitored_inv_def has_client_def split: option.splits prod.splits dest: assms)
    with m x g publish_inv [OF s1 this] show ?thesis by (simp add: bindS_def publish_option_def)
  next
    case False
    with m x s1 show ?thesis by (cases x) (auto simp: bindS_def publish_option_def liftS_def split: option.splits)
  qed
qed

lemma keeps_parseReport [keeps_intros]: "keeps (monitored_inv i) (parseReport ops srv clock p i)"
  unfolding parseReport_def by (rule keeps_read_publish) (rule report_group_system)

lemma keeps_parseRedfishEvents [keeps_intros]: "keeps (monitored_inv i) (parseRedfishEvents ops srv p i)"
  unfolding parseRedfishEvents_def by (rule keeps_read_publish) (rule alert_group_system)

lemma keeps_if [keeps_intros]: "keeps I m \<Longrightarrow> keeps I n \<Longrightarrow> keeps I (if b then m else n)"
  by simp

lemma keeps_restart [keeps_intros]:
  "keeps (monitored_inv i) (RestartAlertListener i)" "keeps (monitored_inv i) (RestartMetricListener i)"
  unfolding RestartAlertListener_def RestartMetricListener_def by (intro keeps_intros)+

lemma keeps_stream_error [keeps_intros]:
  "keeps (monitored_inv i) restart \<Longrightarrow> keeps (monitored_inv i) (stream_error restart i e)"
  unfolding stream_error_def by (intro keeps_intros)

lemma keeps_LastEvent [keeps_intros]:
  "keeps (monitored_inv i) (set_device i (rd_LastEvent_update f))"
  by (rule keeps_set_device) simp_all

lemma keeps_alert_event [keeps_intros]: "keeps (monitored_inv i) (alert_event ops srv clock i e)"
  unfolding alert_event_def
  by (auto intro!: keeps_intros split: option.split json.split)

lemma keeps_metric_event [keeps_intros]: "keeps (monitored_inv i) (metric_event ops srv clock i e)"
  unfolding metric_event_def
  by (auto intro!: keeps_intros split: option.split json.split)

lemma keeps_each_event [keeps_intros]: "(\<And>e. keeps I (f e)) \<Longrightarrow> keeps I (each_event f es)"
  by (induction es) (auto intro!: keeps_intros)

lemma keeps_listeners [keeps_intros]:
  "keeps (monitored_inv i) (StartAlertListener ops srv events i)"
  "keeps (monitored_inv i) (StartMetricListener ops srv events i)"
  unfolding StartAlertListener_def StartMetricListener_def
  by (auto intro!: keeps_intros split: prod.split)

lemma keeps_getTelemetry [keeps_intros]: "keeps (monitored_inv i) (getTelemetry i)"
  unfolding getTelemetry_def by (intro keeps_intros) simp_all

lemma keeps_getAlerts [keeps_intros]: "keeps (monitored_inv i) (getAlerts env i)"
  unfolding getAlerts_def by (intro keeps_intros) simp_all

lemma keeps_monitor_children [keeps_intros]: "keeps (monitored_inv i) (monitor_children srv root i)"
proof -
  have "keeps (monitored_inv i)
    (bindS (set_device i (rd_ChildDevices_update (\<lambda>_. Some []))) (\<lambda>u.
     bindS (on_client i (populateChildChassis srv root)) (\<lambda>m.
       set_device i (rd_ChildDevices_update (\<lambda>_. Some m)))))"
    by (intro keeps_intros) simp_all
  then show ?thesis by (auto simp: keeps_def monitor_children_def)
qed

lemma keeps_monitor_root [keeps_intros]: "keeps (monitored_inv i) (monitor_root ops srv env i root)"
  unfolding monitor_root_def by (intro keeps_intros) simp_all

lemma keeps_monitor_identified [keeps_intros]:
  "keeps (monitored_inv i) (monitor_identified ops srv env i sid)"
  unfolding monitor_identified_def
  by (auto intro!: keeps_intros simp: identify_def split: prod.split)

lemma reader_inv_monitor:
  assumes "reader_inv s" and "i < length (rr_mem s)" and "RedfishMonitorStart ops srv env i s = (s', r)"
  shows "reader_inv s'"
proof (cases "rd_Redfish (device i s)")
  case None
  with assms(1,3) show ?thesis by (simp add: RedfishMonitorStart_def tryS_def on_client_def)
next
  case (Some c)
  have "keeps (monitored_inv i) (RedfishMonitorStart ops srv env i)"
    unfolding RedfishMonitorStart_def by (intro keeps_intros)
  from keepsD [OF this assms(3)] Some assms(1,2) show ?thesis by (simp add: monitored_inv_def has_client_def)
qed

text \<open>Taking on a device adds one entry for it.\<close>

lemma ValidateAndAddDevice_cases:
  assumes "ValidateAndAddDevice srv svc s = (s', r)"
  obtains (same) "s' = s" "\<And>i. r \<noteq> Ok (Some i, None)"
    | (added) d err where "r = Ok (Some (length (rr_mem s)), err)" "find_device (svc_Ip svc) s = None"
        "s' = s\<lparr>rr_mem := rr_mem s @ [d],
                rr_devices := map_option (alist_put (svc_Ip svc) (length (rr_mem s))) (rr_devices s)\<rparr>"
        "rd_State d = (if err = None then STARTING else CONNFAILED)" "rd_HasChildren d = (svc_ServiceType svc = MSM)"
        "connect_device srv svc = Ok (rd_Redfish d, err)"
proof (cases "svc_Ip svc = [] \<or> find_device (svc_Ip svc) s \<noteq> None \<or> \<not> is_ok (connect_device srv svc)")
  case True
  with assms show ?thesis
    by (intro same) (cases "connect_device srv svc"; auto simp: ValidateAndAddDevice_def split: if_splits)+
next
  case False
  then obtain client err where c: "connect_device srv svc = Ok (client, err)" by (auto simp: is_ok_iff)
  show ?thesis
    by (rule added [of err "zero_device\<lparr>rd_State := (if err = None then STARTING else CONNFAILED),
                        rd_Redfish := client, rd_HasChildren := (svc_ServiceType svc = MSM)\<rparr>"])
       (use False c assms in \<open>auto simp: ValidateAndAddDevice_def Let_def\<close>)
qed

lemma reader_inv_added:
  assumes "reader_inv s" and "find_device ip s = None" and "rd_State d \<in> {STARTING, CONNFAILED}"
  shows "reader_inv (s\<lparr>rr_mem := rr_mem s @ [d],
    rr_devices := map_option (alist_put ip (length (rr_mem s))) (rr_devices s)\<rparr>)"
    (is "reader_inv ?s")
proof -
  have client: "has_client k ?s" if "has_client k s" for k
    using that by (simp add: has_client_def device_def nth_append)
  have table: "device_table ?s = device_table s \<or> device_table ?s = device_table s @ [(ip, length (rr_mem s))]"
    using assms(2)
    by (cases "rr_devices s")
       (simp_all add: device_table_def find_device_def alist_put_fresh map_of_eq_None_iff)
  have fresh: "ip \<notin> fst ` set (device_table s)"
    using assms(2) by (cases "rr_devices s") (simp_all add: device_table_def find_device_def map_of_eq_None_iff)
  have "table_ok s" using assms(1) by (simp add: reader_inv_def)
  then have "length (rr_mem s) \<notin> snd ` set (device_table s)" by (force simp: table_ok_def)
  with \<open>table_ok s\<close> table fresh have "table_ok ?s"
    unfolding table_ok_def by (elim disjE) (auto intro: less_SucI)
  with assms(1,3) client show ?thesis by (auto simp: reader_inv_def)
qed

lemma reader_inv_device:
  assumes "reader_inv s" and "i < length (rr_mem s)" and "rd_Redfish d = rd_Redfish (device i s)"
    and "rd_State d = rd_State (device i s)"
  shows "reader_inv (s\<lparr>rr_mem := (rr_mem s)[i := d]\<rparr>)"
proof -
  let ?s = "s\<lparr>rr_mem := (rr_mem s)[i := d]\<rparr>"
  have client: "has_client k ?s = has_client k s" for k
    using assms(2,3) by (cases "k = i") (simp_all add: has_client_def device_def)
  have "rd_State d \<in> {STARTING, CONNFAILED, RUNNING, RUNNINGWOTEL}"
    using assms(1,2,4) by (simp add: reader_inv_def device_def)
  moreover have "set ((rr_mem s)[i := d]) \<subseteq> insert d (set (rr_mem s))" by (rule set_update_subset_insert)
  ultimately show ?thesis
    using assms(1) client unfolding reader_inv_def by (auto simp: table_ok_def device_table_def)
qed

lemma reader_inv_deleted:
  assumes "reader_inv s"
  shows "reader_inv (s\<lparr>rr_devices := map_option (alist_del ip) (rr_devices s)\<rparr>)" (is "reader_inv ?s")
proof -
  have sub: "device_table ?s = filter (\<lambda>p. fst p \<noteq> ip) (device_table s)"
    by (cases "rr_devices s") (simp_all add: device_table_def alist_del_def)
  have dist: "distinct (map f (filter P xs))" if "distinct (map f xs)" for f :: "string \<times> nat \<Rightarrow> 'x" and P xs
    using that by (induction xs) auto
  have client: "has_client k ?s = has_client k s" for k by (simp add: has_client_def)
  from assms have "table_ok ?s" unfolding reader_inv_def table_ok_def sub by (auto intro: dist)
  with assms client show ?thesis by (simp add: reader_inv_def)
qed

lemma find_device_bound: "reader_inv s \<Longrightarrow> find_device ip s = Some i \<Longrightarrow> i < length (rr_mem s)"
  by (cases "rr_devices s")
     (force simp: reader_inv_def table_ok_def device_table_def find_device_def dest!: map_of_SomeD)+

lemma keeps_reader_Reply: "keeps reader_inv (reader_Reply ops env p)"
  by (simp add: keeps_def reader_Reply_def Let_def split: prod.split)

lemma keeps_command: "keeps reader_inv (redfishread_command ops env)"
  unfolding keeps_def
proof (intro allI impI)
  fix s s' r
  assume s: "reader_inv s" and m: "redfishread_command ops env s = (s', r)"
  have replies: "keeps reader_inv (each_event (\<lambda>g. reader_Reply ops env (PVal (enc_group g))) gs)" for gs
    by (intro keeps_intros keeps_reader_Reply)
  consider (get) t where "env_type env = databus_GET" "rr_groups s = Some t"
    | (producers) ps where "env_type env \<noteq> databus_GET" "env_type env = databus_GETPRODUCERS"
        "producers (map (\<lambda>(ip, i). device i s) (device_table s)) = Ok ps"
    | (delete) i svc where "env_type env \<noteq> databus_GET" "env_type env \<noteq> databus_GETPRODUCERS"
        "env_type env = databus_DELETEPRODUCER"
        "DecodePayload (env_payload env) (Some dec_service) zero_service = (svc, None)"
        "find_device (svc_Ip svc) s = Some i"
    | (other) "s' = s"
    using m by (auto simp: redfishread_command_def split: if_splits option.splits outcome.splits prod.splits)
  then show "reader_inv s'"
  proof cases
    case get
    with m keepsD [OF replies _ s] show ?thesis by (simp add: redfishread_command_def)
  next
    case producers
    with m keepsD [OF keeps_reader_Reply _ s] show ?thesis by (simp add: redfishread_command_def)
  next
    case (delete i svc)
    let ?s = "s\<lparr>rr_mem := (rr_mem s)[i := (device i s)\<lparr>rd_cancelled := True\<rparr>]\<rparr>"
    have "reader_inv ?s" using find_device_bound [OF s delete(5)] s by (intro reader_inv_device) simp_all
    from reader_inv_deleted [OF this, of "svc_Ip svc"] delete m show ?thesis
      by (auto simp: redfishread_command_def bindS_def set_device_def)
  qed (simp add: s)
qed

lemma reader_step_inv: "reader_step ops env s s' \<Longrightarrow> reader_inv s \<Longrightarrow> reader_inv s'"
proof (induction rule: reader_step.induct)
  case (init s)
  then show ?case
    by (simp add: InitNewDataGroupsMap_def NewDataGroupsMap_def reader_inv_groups groups_ok_def)
next
  case (service s srv svc s')
  from service(2) obtain s1 i err where v: "ValidateAndAddDevice srv svc s = (s1, Ok (i, err))"
    and s': "s' = (case (i, err) of (Some j, None) \<Rightarrow> s1\<lparr>rr_monitors := rr_monitors s1 @ [j]\<rparr> | _ \<Rightarrow> s1)"
    by (auto simp: auth_service_def bindS_Ok) (simp split: option.splits)
  from v show ?case
  proof (cases rule: ValidateAndAddDevice_cases)
    case same
    with service.prems s' show ?thesis by (auto split: option.splits)
  next
    case (added d e)
    from reader_inv_added [OF service.prems added(2), of d] added(4) have s1: "reader_inv s1"
      by (simp add: added(3))
    moreover have "reader_inv (s1\<lparr>rr_monitors := rr_monitors s1 @ [length (rr_mem s)]\<rparr>)"
      using s1 added(3) by (auto simp: reader_inv_def table_ok_def device_table_def has_client_def)
    ultimately show ?thesis using s' added(1) by (auto split: option.splits)
  qed
next
  case (monitor s before i after srv s')
  have "reader_inv (s\<lparr>rr_monitors := before @ after\<rparr>)" "i < length (rr_mem s)"
    using monitor(1,3) by (auto simp: reader_inv_def table_ok_def device_table_def has_client_def)
  with reader_inv_monitor [OF _ _ monitor(2)] show ?case by simp
next
  case (message m s s')
  obtain svc envs where e: "ReceiveEnvelopes [m] (rr_service s) = (svc, envs)"
    by (cases "ReceiveEnvelopes [m] (rr_service s)")
  have "keeps reader_inv (each_event (redfishread_command ops) envs)" by (intro keeps_intros keeps_command)
  from keepsD [OF this, of "s\<lparr>rr_service := svc\<rparr>"] message e show ?case by (auto simp: redfishread_message_def)
next
  case (alert i s srv s')
  from alert(1,3) have "monitored_inv i s" by (force simp: monitored_inv_def reader_inv_def)
  from keepsD [OF keeps_listeners(1) alert(2) this] show ?case by (simp add: monitored_inv_def)
next
  case (metric i s srv s')
  from metric(1,3) have "monitored_inv i s" by (force simp: monitored_inv_def reader_inv_def)
  from keepsD [OF keeps_listeners(2) metric(2) this] show ?case by (simp add: monitored_inv_def)
next
  case (alert_turn i s srv clock e s')
  from alert_turn(1,3) have "monitored_inv i s" by (force simp: monitored_inv_def reader_inv_def)
  from keepsD [OF keeps_alert_event alert_turn(2) this] show ?case by (simp add: monitored_inv_def)
next
  case (metric_turn i s srv clock e s')
  from metric_turn(1,3) have "monitored_inv i s" by (force simp: monitored_inv_def reader_inv_def)
  from keepsD [OF keeps_metric_event metric_turn(2) this] show ?case by (simp add: monitored_inv_def)
qed

lemma reader_reachable_inv: "reader_reachable ops env bus s \<Longrightarrow> reader_inv s"
proof (induction rule: reader_reachable.induct)
  case start
  then show ?case
    by (simp add: redfishread_start_def Let_def reader_inv_def table_ok_def device_table_def)
next
  case (step s s')
  from step(2,3) show ?case by (rule reader_step_inv)
qed

end
