(* ===== verification/ReaderProps.thy ===== *)
theory ReaderProps
  imports Readers
begin

text \<open>
  What the reading program guarantees: well-typed reports and alerts reach every subscriber
  and the table of groups, lost connections are taken up again, the device table keeps its
  invariant, and commands do what they say.
\<close>

subsection \<open>Well-typed alerts\<close>

text \<open>An alert without origin, or with a link as its origin; arguments that are strings.\<close>

definition origin_of :: "(string \<times> json) list \<Rightarrow> string option" where
  "origin_of ms =
     (case obj_get ''OriginOfCondition'' ms of
        Some (JObj [(k, JStr u)]) \<Rightarrow> (if k = ''@odata.id'' then Some u else None)
      | _ \<Rightarrow> None)"

definition args_of :: "(string \<times> json) list \<Rightarrow> string list option" where
  "args_of ms =
     (case nonnil ''MessageArgs'' ms of
        None \<Rightarrow> Some []
      | Some (JArr vs) \<Rightarrow> (case strings_of vs of Ok ss \<Rightarrow> Some ss | _ \<Rightarrow> None)
      | _ \<Rightarrow> None)"

definition alert_ok :: "(string \<times> json) list \<Rightarrow> bool" where
  "alert_ok ms \<longleftrightarrow> no_link ms \<and> args_of ms \<noteq> None
     \<and> (case obj_get ''OriginOfCondition'' ms of
          None \<Rightarrow> True
        | Some v \<Rightarrow> (case origin_of ms of Some u \<Rightarrow> has_prefix u ''/'' | None \<Rightarrow> False))"

definition alert_spec :: "(string \<times> json) list \<Rightarrow> EventValue list" where
  "alert_spec ms =
     (if nonnil ''EventId'' ms = None then []
      else [\<lparr>ev_EventType = str_or_empty ''EventType'' ms, ev_EventId = str_or_empty ''EventId'' ms,
             ev_EventTimestamp = str_or_empty ''EventTimestamp'' ms,
             ev_MemberId = str_or_empty ''MemberId'' ms,
             ev_MessageSeverity = str_or_empty ''MessageSeverity'' ms,
             ev_Message = str_or_empty ''Message'' ms, ev_MessageId = str_or_empty ''MessageId'' ms,
             ev_MessageArgs = slice (case args_of ms of None \<Rightarrow> [] | Some ss \<Rightarrow> ss),
             ev_OriginOfCondition = (case origin_of ms of None \<Rightarrow> [] | Some u \<Rightarrow> u)\<rparr>])"

text \<open>A server on which every resource gives its own address.\<close>

definition url_path :: "string \<Rightarrow> string" where
  "url_path url = dropWhile (\<lambda>c. c \<noteq> CHR ''/'') (drop (length ''https://'') url)"

definition self_describing :: "http_server \<Rightarrow> bool" where
  "self_describing srv \<longleftrightarrow> (\<forall>h rq. \<exists>body ms. srv h rq = Reply 200 body \<and> parse_object body = Ok ms
     \<and> obj_get ''@odata.id'' ms = Some (JStr (url_path (rq_url rq))))"

definition plain_host :: "RedfishClient \<Rightarrow> bool" where
  "plain_host c \<longleftrightarrow> CHR ''/'' \<notin> set (rf_Hostname c)"

lemma url_path_host:
  assumes "CHR ''/'' \<notin> set host" and "has_prefix u ''/''"
  shows "url_path (''https://'' @ host @ u) = u"
proof -
  from assms(2) obtain r where u: "u = CHR ''/'' # r" by (auto simp: has_prefix_iff)
  have "\<forall>x\<in>set host. x \<noteq> CHR ''/''" using assms(1) by blast
  from dropWhile_append_stop [OF this, of u] u show ?thesis by (simp add: url_path_def)
qed

lemma plain_host_fix [simp]: "plain_host (fix_host c) = plain_host c"
  by (auto simp: plain_host_def fix_host_def)

lemma plain_host_log [simp]: "plain_host (c\<lparr>rf_log := l\<rparr>) = plain_host c"
  by (simp add: plain_host_def)

lemma GetUri_self_describing:
  assumes "self_describing srv" and "plain_host c" and "has_prefix u ''/''"
  shows "\<exists>c' ms. GetUri srv u c = (c', Ok (object_payload ms)) \<and> plain_host c'
    \<and> rf_Hostname c' = rf_Hostname (fix_host c) \<and> obj_get ''@odata.id'' ms = Some (JStr u)"
proof -
  obtain r' res where g: "GetUri srv u c = (r', res)" by (cases "GetUri srv u c")
  let ?rq = "\<lparr>rq_url = ''https://'' @ rf_Hostname (fix_host c) @ u, rq_auth = addAuthToRequest (fix_host c),
    rq_accept = ''application/json''\<rparr>"
  from assms(1) obtain body ms where "srv (rf_log (fix_host c)) ?rq = Reply 200 body" "parse_object body = Ok ms"
    "obj_get ''@odata.id'' ms = Some (JStr (url_path (rq_url ?rq)))" unfolding self_describing_def by blast
  moreover have "url_path (rq_url ?rq) = u"
    using assms(2,3) url_path_host [of "rf_Hostname (fix_host c)" u]
    by (simp add: plain_host_def [symmetric])
  ultimately show ?thesis
    using assms(2)
    by (intro exI [of _ "(fix_host c)\<lparr>rf_log := rf_log (fix_host c) @ [?rq]\<rparr>"] exI [of _ ms])
       (simp add: GetUri_def http_do_def Let_def)
qed

lemma GetEventByIndex_object:
  assumes "obj_get ''Events'' obj = Some (JArr (map JObj mss))" and "j < length mss" and "no_link (mss ! j)"
  shows "GetEventByIndex srv (int j) (object_payload obj) c = (c, Ok (object_payload (mss ! j)))"
  using assms
  by (simp add: GetEventByIndex_def by_index_def IsEventCollection_def as_array_def
      index_of_def follow_def getUriFromValue_def no_link_def bindS_def liftS_def valueToPayload_def)

lemma message_args_ok: "args_of ms = Some ss \<Longrightarrow> message_args ms = Ok ss"
  by (auto simp: args_of_def message_args_def as_array_def split: option.splits json.splits outcome.splits)

lemma origin_read:
  assumes "self_describing srv" and "plain_host c" and "alert_ok ms"
  shows "\<exists>c'. tryS (GetPropertyByName srv ''OriginOfCondition'' (object_payload ms))
      (\<lambda>o'. liftS (as_string (obj_get ''@odata.id'' (pl_Object o')))) (\<lambda>e. liftS (Ok [])) c
    = (c', Ok (case origin_of ms of None \<Rightarrow> [] | Some u \<Rightarrow> u)) \<and> plain_host c'
    \<and> rf_Hostname c' \<in> {rf_Hostname c, rf_Hostname (fix_host c)}"
proof (cases "obj_get ''OriginOfCondition'' ms")
  case None
  with assms(2) show ?thesis by (simp add: tryS_def GetPropertyByName_def liftS_def origin_of_def)
next
  case (Some v)
  with assms(3) obtain u where u: "origin_of ms = Some u" "has_prefix u ''/''"
    by (auto simp: alert_ok_def split: option.splits)
  with Some have v: "v = JObj [(''@odata.id'', JStr u)]"
    by (auto simp: origin_of_def split: json.splits list.splits if_splits)
  from GetUri_self_describing [OF assms(1,2) u(2)] obtain c' ms' where
    "GetUri srv u c = (c', Ok (object_payload ms'))" "plain_host c'"
    "rf_Hostname c' = rf_Hostname (fix_host c)" "obj_get ''@odata.id'' ms' = Some (JStr u)" by blast
  moreover have "u \<noteq> []" using u(2) by auto
  ultimately show ?thesis
    using Some v u(1)
    by (simp add: tryS_def GetPropertyByName_def follow_def getUriFromValue_def bindS_def liftS_def obj_get_def)
qed

lemma alert_data_ok:
  assumes "self_describing srv" and "plain_host c" and "alert_ok ms"
  shows "\<exists>c' v. alert_data srv (object_payload ms) c = (c', Ok v) \<and> plain_host c'
    \<and> (case v of None \<Rightarrow> [] | Some x \<Rightarrow> [x]) = alert_spec ms"
proof (cases "nonnil ''EventId'' ms")
  case None
  with assms(2) show ?thesis by (simp add: alert_data_def liftS_def alert_spec_def)
next
  case (Some e)
  from assms(3) obtain ss where "args_of ms = Some ss" by (auto simp: alert_ok_def)
  with Some origin_read [OF assms] show ?thesis
    by (auto simp: alert_data_def Let_def bindS_def liftS_def message_args_ok alert_spec_def)
qed

lemma alert_loop_ok:
  assumes "self_describing srv" and "plain_host c"
    and "obj_get ''Events'' obj = Some (JArr (map JObj mss))"
    and "\<forall>j\<in>set js. j < length mss \<and> alert_ok (mss ! j)"
  shows "\<exists>c'. alert_loop srv (object_payload obj) js c
    = (c', Ok (Some (concat (map (\<lambda>j. alert_spec (mss ! j)) js)))) \<and> plain_host c'"
  using assms(2,4)
proof (induction js arbitrary: c)
  case (Cons j js)
  then have j: "j < length mss" "alert_ok (mss ! j)" "no_link (mss ! j)" by (simp_all add: alert_ok_def)
  from alert_data_ok [OF assms(1) Cons.prems(1) j(2)] obtain c1 v where
    v: "alert_data srv (object_payload (mss ! j)) c = (c1, Ok v)" "plain_host c1"
      "(case v of None \<Rightarrow> [] | Some x \<Rightarrow> [x]) = alert_spec (mss ! j)" by blast
  from Cons.IH [OF v(2)] Cons.prems(2) obtain c2 where
    "alert_loop srv (object_payload obj) js c1 = (c2, Ok (Some (concat (map (\<lambda>j. alert_spec (mss ! j)) js))))"
    "plain_host c2" by auto
  with v show ?case
    by (simp add: tryS_def GetEventByIndex_object [OF assms(3) j(1,3)] bindS_def liftS_def)
qed (simp add: liftS_def)

text \<open>The group a well-typed collection of alerts stands for.\<close>

definition alerts_spec ::
  "RedfishDevice \<Rightarrow> string \<Rightarrow> (string \<times> json) list \<Rightarrow> (string \<times> json) list list \<Rightarrow> DataGroup" where
  "alerts_spec d host obj mss =
     (device_group d)\<lparr>dg_HostID := host, dg_ID := str_or_empty ''Id'' obj,
       dg_Events := slice (concat (map alert_spec mss))\<rparr>"

lemma alert_group_ok:
  assumes "self_describing srv" and "plain_host c"
    and "obj_get ''Events'' obj = Some (JArr (map JObj mss))" and "\<forall>ms\<in>set mss. alert_ok ms"
  shows "\<exists>c'. alert_group srv d (object_payload obj) c
    = (c', Ok (Some (alerts_spec d (rf_Hostname c) obj mss))) \<and> plain_host c'"
proof -
  have all: "concat (map (\<lambda>j. alert_spec (mss ! j)) [0..<length mss]) = concat (map alert_spec mss)"
    by (rule arg_cong [of _ _ concat], rule nth_equalityI) simp_all
  have "\<forall>j\<in>set [0..<length mss]. j < length mss \<and> alert_ok (mss ! j)" using assms(4) by simp
  from alert_loop_ok [OF assms(1-3) this] obtain c' where
    "alert_loop srv (object_payload obj) [0..<length mss] c = (c', Ok (Some (concat (map alert_spec mss))))"
    "plain_host c'" unfolding all by blast
  moreover have "GetPropertyByName srv ''Events'' (object_payload obj) c
    = (c, Ok (empty_payload\<lparr>pl_Array := Some (map JObj mss)\<rparr>))"
    using assms(3)
    by (simp add: GetPropertyByName_def follow_def getUriFromValue_def valueToPayload_def bindS_def liftS_def)
  moreover have "nat (GetArraySize (empty_payload\<lparr>pl_Array := Some (map JObj mss)\<rparr>)) = length mss"
    by (simp add: GetArraySize_def)
  ultimately show ?thesis
    by (intro exI [of _ c']) (simp add: alert_group_def tryS_def bindS_def liftS_def alerts_spec_def)
qed

subsection \<open>Publishing\<close>

text \<open>One broadcast: every subscribed queue has got one more group, the others nothing.\<close>

definition delivered :: "DataGroup \<Rightarrow> MockMessageBus DataBusService \<Rightarrow> MockMessageBus DataBusService \<Rightarrow> bool" where
  "delivered g d d' \<longleftrightarrow> db_Recievers d' = db_Recievers d \<and>
     (\<forall>q. \<exists>ms. mb_queueMsgs (bs_Bus (db_Base d')) q = mb_queueMsgs (bs_Bus (db_Base d)) q @ ms
        \<and> decode_groups (fst (listen_filtered DATAGROUP (map Message ms)))
            = (if q \<in> set (db_Recievers d) then [g] else []))"

definition bus_ready :: "MockMessageBus reader \<Rightarrow> bool" where
  "bus_ready s \<longleftrightarrow> mb_sendError (bs_Bus (db_Base (rr_service s))) = None \<and> distinct (db_Recievers (rr_service s))"

lemma publish_delivered:
  assumes "bus_ready s" and "rr_groups s = Some t"
  shows "\<exists>svc. publish mock_ops i g s
      = (s\<lparr>rr_service := svc, rr_groups := Some (AddDataGroup (rd_SystemID (device i s)) g t)\<rparr>, Ok ())
    \<and> delivered g (rr_service s) svc"
proof -
  from assms(1) SendGroup_mock [of "rr_service s" g] obtain d' where
    "SendGroup mock_ops (rr_service s) g = (d', Ok ())" "delivered g (rr_service s) d'"
    unfolding bus_ready_def delivered_def by metis
  with assms(2) show ?thesis by (intro exI [of _ d']) (simp add: publish_def)
qed

text \<open>A reading of a payload in the state of a device's client, published.\<close>

lemma read_publish_delivered:
  assumes "bus_ready s" and "rr_groups s = Some t" and "i < length (rr_mem s)"
    and "rd_Redfish (device i s) = Some c" and "m (device i s) c = (c', Ok (Some g))"
  shows "\<exists>s'. bindS (on_client i (m (device i s))) (publish_option mock_ops i) s = (s', Ok ())
    \<and> delivered g (rr_service s) (rr_service s')
    \<and> rr_groups s' = Some (AddDataGroup (rd_SystemID (device i s)) g t)
    \<and> device i s' = (device i s)\<lparr>rd_Redfish := Some c'\<rparr>"
proof -
  let ?s = "s\<lparr>rr_mem := (rr_mem s)[i := (device i s)\<lparr>rd_Redfish := Some c'\<rparr>]\<rparr>"
  have c: "on_client i (m (device i s)) s = (?s, Ok (Some g))" using assms(4,5) by (simp add: on_client_def)
  have "bus_ready ?s" "rr_groups ?s = Some t" using assms(1,2) by (simp_all add: bus_ready_def)
  from publish_delivered [OF this, of i g] obtain svc where
    "publish mock_ops i g ?s = (?s\<lparr>rr_service := svc,
       rr_groups := Some (AddDataGroup (rd_SystemID (device i ?s)) g t)\<rparr>, Ok ())"
    "delivered g (rr_service s) svc" by auto
  with c assms(3) show ?thesis by (auto simp: bindS_def publish_option_def)
qed

subsection \<open>Properties\<close>

text \<open>The state in which the properties of one event are stated: the program is initialised,
  its bus works, and \<open>i\<close> is a device with the client \<open>c\<close>.\<close>

definition ready :: "MockMessageBus reader \<Rightarrow> nat \<Rightarrow> RedfishClient \<Rightarrow> DataGroups \<Rightarrow> bool" where
  "ready s i c t \<longleftrightarrow> bus_ready s \<and> rr_groups s = Some t \<and> i < length (rr_mem s) \<and> rd_Redfish (device i s) = Some c"

definition payload_event :: "string \<Rightarrow> (string \<times> json) list \<Rightarrow> RedfishEvent option" where
  "payload_event eid obj = Some \<lparr>re_Err = None, re_ID = eid, re_Payload = Some (object_payload obj)\<rparr>"

lemma ready_LastEvent:
  "ready s i c t \<Longrightarrow> ready (s\<lparr>rr_mem := (rr_mem s)[i := (device i s)\<lparr>rd_LastEvent := u\<rparr>]\<rparr>) i c t"
  by (simp add: ready_def bus_ready_def)

lemma spec_LastEvent [simp]:
  "device_group (d\<lparr>rd_LastEvent := u\<rparr>) = device_group d"
  "metric_spec now (d\<lparr>rd_LastEvent := u\<rparr>) j ms = metric_spec now d j ms"
  by (simp_all add: device_group_def metric_spec_def Let_def)

lemma metric_event_published:
  assumes "ready s i c t"
    and "obj_get ''@odata.type'' obj = Some (JStr ot)" and "contains ot ''.MetricReport''"
    and "obj_get ''@odata.id'' obj = Some (JStr rid)"
    and "obj_get ''Id'' obj = Some (JStr gid)" and "obj_get ''Name'' obj = Some (JStr name)"
    and "obj_get ''Timestamp'' obj = Some (JStr ts)"
    and "obj_get ''MetricValues'' obj = Some (JArr (map JObj mss))" and "\<forall>ms\<in>set mss. metric_ok ms"
  shows "\<exists>s'. metric_event mock_ops srv clock i (payload_event eid obj) s = (s', Ok ())
    \<and> (let g = report_spec (\<lambda>j. clock (Suc j)) (device i s) obj mss in
         delivered g (rr_service s) (rr_service s')
         \<and> rr_groups s' = Some (AddDataGroup (rd_SystemID (device i s)) g t))
    \<and> device i s' = (device i s)\<lparr>rd_LastEvent := clock 0\<rparr>"
proof -
  let ?d = "(device i s)\<lparr>rd_LastEvent := clock 0\<rparr>"
  let ?s = "s\<lparr>rr_mem := (rr_mem s)[i := ?d]\<rparr>" and ?m = "\<lambda>d. report_group srv (\<lambda>j. clock (Suc j)) d (object_payload obj)"
  have d: "device i ?s = ?d" and r: "ready ?s i c t"
    using assms(1) ready_LastEvent [OF assms(1)] by (simp_all add: ready_def)
  let ?g = "report_spec (\<lambda>j. clock (Suc j)) (device i s) obj mss"
  have same: "report_spec (\<lambda>j. clock (Suc j)) ?d obj mss = ?g"
    by (simp add: report_spec_def)
  have "?m (device i ?s) c = (c, Ok (Some ?g))"
    using report_group_ok [OF assms(5-9), of srv "\<lambda>j. clock (Suc j)" ?d c] by (simp only: d same)
  with r read_publish_delivered [of ?s t i c ?m c ?g] obtain s' where
    s': "parseReport mock_ops srv (\<lambda>j. clock (Suc j)) (object_payload obj) i ?s = (s', Ok ())"
    and g: "delivered ?g (rr_service s) (rr_service s')"
      "rr_groups s' = Some (AddDataGroup (rd_SystemID (device i s)) ?g t)"
      "device i s' = ?d\<lparr>rd_Redfish := Some c\<rparr>"
    unfolding ready_def parseReport_def by (simp add: d) blast
  moreover have "?d\<lparr>rd_Redfish := Some c\<rparr> = ?d" using assms(1) by (simp add: ready_def)
  moreover have "metric_event mock_ops srv clock i (payload_event eid obj) s = (s', Ok ())"
    using assms(2-4) s' by (simp add: metric_event_def payload_event_def bindS_def set_device_def liftS_def)
  ultimately show ?thesis by (intro exI [of _ s']) (simp add: Let_def)
qed

text \<open>C3: a metric report reaches everyone: when a listener receives a well-typed metric report,
  the loop turn ends normally, every subscribed queue gets exactly one message, from which
  \<open>GetGroup\<close> reads the group the report stands for (its values in order, those without a
  metric value left out, with the names, labels and time stamps the schema gives them), the
  table of groups holds it under the system and its id, the time of the event is recorded,
  and the device is not asked anything.\<close>

theorem metric_report_published:
  assumes "ready s i c t"
    and "obj_get ''@odata.type'' obj = Some (JStr ot)" and "contains ot ''.MetricReport''"
    and "obj_get ''@odata.id'' obj = Some (JStr rid)"
    and "obj_get ''Id'' obj = Some (JStr gid)" and "obj_get ''Name'' obj = Some (JStr name)"
    and "obj_get ''Timestamp'' obj = Some (JStr ts)"
    and "obj_get ''MetricValues'' obj = Some (JArr (map JObj mss))" and "\<forall>ms\<in>set mss. metric_ok ms"
  shows "\<exists>s'. metric_event mock_ops srv clock i (payload_event eid obj) s = (s', Ok ())
    \<and> (let g = report_spec (\<lambda>j. clock (Suc j)) (device i s) obj mss in
         delivered g (rr_service s) (rr_service s')
         \<and> rr_groups s' = Some (AddDataGroup (rd_SystemID (device i s)) g t))
    \<and> device i s' = (device i s)\<lparr>rd_LastEvent := clock 0\<rparr>"
  by (rule metric_event_published [OF assms])

text \<open>C12: alerts reach everyone: when a listener receives a collection of well-typed alerts from
  a device whose resources give their own address, every subscribed queue gets one message
  with the group the alerts stand for (those with an event id, in order, each with the
  address of its origin), and the table of groups holds it.\<close>

theorem alerts_published:
  assumes "ready s i c t" and "self_describing srv" and "plain_host c"
    and "obj_get ''@odata.type'' obj = Some (JStr ot)" and "contains ot ''.Event''"
    and "obj_get ''Events'' obj = Some (JArr (map JObj mss))" and "\<forall>ms\<in>set mss. alert_ok ms"
  shows "\<exists>s' c'. alert_event mock_ops srv clock i (payload_event eid obj) s = (s', Ok ())
    \<and> (let g = alerts_spec (device i s) (rf_Hostname c) obj mss in
         delivered g (rr_service s) (rr_service s')
         \<and> rr_groups s' = Some (AddDataGroup (rd_SystemID (device i s)) g t))
    \<and> device i s' = (device i s)\<lparr>rd_LastEvent := clock 0, rd_Redfish := Some c'\<rparr> \<and> plain_host c'"
proof -
  let ?d = "(device i s)\<lparr>rd_LastEvent := clock 0\<rparr>"
  let ?s = "s\<lparr>rr_mem := (rr_mem s)[i := ?d]\<rparr>" and ?m = "\<lambda>d. alert_group srv d (object_payload obj)"
  have d: "device i ?s = ?d" and r: "ready ?s i c t"
    using assms(1) ready_LastEvent [OF assms(1)] by (simp_all add: ready_def)
  let ?g = "alerts_spec (device i s) (rf_Hostname c) obj mss"
  have same: "alerts_spec ?d (rf_Hostname c) obj mss = ?g" by (simp add: alerts_spec_def)
  from alert_group_ok [OF assms(2,3,6,7), of ?d] obtain c' where
    c': "?m (device i ?s) c = (c', Ok (Some ?g))" "plain_host c'" unfolding d same by blast
  with r read_publish_delivered [of ?s t i c ?m c' ?g] obtain s' where
    s': "parseRedfishEvents mock_ops srv (object_payload obj) i ?s = (s', Ok ())"
    and g: "delivered ?g (rr_service s) (rr_service s')"
      "rr_groups s' = Some (AddDataGroup (rd_SystemID (device i s)) ?g t)"
      "device i s' = ?d\<lparr>rd_Redfish := Some c'\<rparr>"
    unfolding ready_def parseRedfishEvents_def by (simp add: d) blast
  moreover have "alert_event mock_ops srv clock i (payload_event eid obj) s = (s', Ok ())"
    using assms(4,5) s' by (simp add: alert_event_def payload_event_def bindS_def set_device_def)
  ultimately show ?thesis using c'(2) by (intro exI [of _ s'] exI [of _ c']) (simp add: Let_def)
qed

text \<open>A reader with one device and one subscriber, for the examples.\<close>

definition example_reader :: "MockMessageBus reader" where
  "example_reader = \<lparr>rr_service = (NewDataBusService NewMockMessageBus)\<lparr>db_Recievers := [''/kafka'']\<rparr>,
     rr_auth = NewAuthorizationClient NewMockMessageBus ''redfishread'', rr_groups = Some [],
     rr_mem = [zero_device\<lparr>rd_Redfish := Some (new_client IDRACClient ''h'' [] [] []), rd_SystemID := ''S'', rd_State := RUNNING\<rparr>],
     rr_devices = Some [(''h'', 0)], rr_monitors = [], rr_started = [(0, MetricListener)], rr_actions = []\<rparr>"

lemma example_ready: "ready example_reader 0 (new_client IDRACClient ''h'' [] [] []) []"
  by (simp add: ready_def bus_ready_def example_reader_def NewDataBusService_def NewBaseService_def
      NewMockMessageBus_def device_def)

theorem metric_report_published_witness:
  "\<exists>s' g. metric_event mock_ops (\<lambda>h q. NetErr ''down'') (\<lambda>_. zero_time) 0 (payload_event ''1''
       [(''@odata.type'', JStr ''#MetricReport.v1_4_0.MetricReport''), (''@odata.id'', JStr ''/r''),
        (''Id'', JStr ''PowerMetrics''), (''Name'', JStr ''Power''), (''Timestamp'', JStr ''t''),
        (''MetricValues'', JArr [JObj [(''MetricId'', JStr []), (''MetricProperty'', JStr ''/a/b#c''),
           (''MetricValue'', JStr ''12''), (''Timestamp'', JStr ''t'')]])]) example_reader = (s', Ok ())
     \<and> delivered g (rr_service example_reader) (rr_service s')
     \<and> map (\<lambda>v. (dv_ID v, dv_Value v)) (elems (dg_Values g)) = [(''b_c'', ''12'')]"
proof -
  let ?m = "[(''MetricId'', JStr []), (''MetricProperty'', JStr ''/a/b#c''),
    (''MetricValue'', JStr ''12''), (''Timestamp'', JStr ''t'')]"
  let ?o = "[(''@odata.type'', JStr ''#MetricReport.v1_4_0.MetricReport''), (''@odata.id'', JStr ''/r''),
    (''Id'', JStr ''PowerMetrics''), (''Name'', JStr ''Power''), (''Timestamp'', JStr ''t''),
    (''MetricValues'', JArr [JObj ?m])]"
  have m: "metric_ok ?m" by (simp add: metric_ok_def no_link_def oem_field_def string_field_def nonnil_def obj_get_def)
  have spec: "metric_spec now d j ?m = [\<lparr>dv_ID = ''b_c'', dv_Context = [], dv_Label = ''b_c'', dv_Value = ''12'',
      dv_System = rd_SystemID d, dv_HostName = rd_HostName d, dv_Timestamp = ''t''\<rparr>]" for now d j
    by (simp add: metric_spec_def metric_name_def oem_dell_def nonnil_def obj_get_def str_or_empty_def
        after_slash_def replace_char_def Let_def)
  have "contains ''#MetricReport.v1_4_0.MetricReport'' ''.MetricReport''" by simp
  from metric_report_published [OF example_ready _ this, of ?o "''/r''" "''PowerMetrics''" "''Power''" "''t''" "[?m]"
      "\<lambda>h q. NetErr ''down''" "\<lambda>_. zero_time" "''1''"]
  obtain s' where
    "metric_event mock_ops (\<lambda>h q. NetErr ''down'') (\<lambda>_. zero_time) 0 (payload_event ''1'' ?o) example_reader = (s', Ok ())"
    "delivered (report_spec (\<lambda>j. zero_time) (device 0 example_reader) ?o [?m]) (rr_service example_reader) (rr_service s')"
    using m by (auto simp: obj_get_def Let_def)
  then show ?thesis
    by (intro exI [of _ s'] exI [of _ "report_spec (\<lambda>j. zero_time) (device 0 example_reader) ?o [?m]"])
       (simp add: report_spec_def spec slice_def elems_def)
qed

text \<open>C4: the reading program's invariant, whatever devices, events and messages it meets: each
  address and each device is listed once, every device is in one of the states starting,
  connection failed, running or running without telemetry, listeners only run for devices
  that have a Redfish client, and every group in the table of groups is filed under its own
  system and its own id.\<close>

theorem reader_invariant:
  assumes "reader_reachable ops env bus s"
  shows "reader_inv s"
  by (rule reader_reachable_inv [OF assms])

lemma connect_device_total: "\<exists>client err. connect_device srv svc = Ok (client, err)"
proof -
  have init: "\<exists>c p e. redfish_Init srv h u pw t = (c, Ok p) \<or> redfish_Init srv h u pw t = (c, Err e)" for h u pw t
  proof -
    let ?c = "new_client (if t = IRC then IRCClient else if t = IDRAC then IDRACClient else PlainClient) h u pw []"
    obtain r' res where g: "GetUri srv ''/redfish/v1'' ?c = (r', res)" by (cases "GetUri srv ''/redfish/v1'' ?c")
    from GetUri_client [OF g] g show ?thesis by (auto simp: redfish_Init_def)
  qed
  have bearer: "\<exists>c e. InitBearer srv h t = Ok c \<or> InitBearer srv h t = Err e" for h t
  proof -
    obtain r' res where g: "GetUri srv ''/redfish/v1'' (new_client PlainClient h [] [] t) = (r', res)"
      by (cases "GetUri srv ''/redfish/v1'' (new_client PlainClient h [] [] t)")
    from GetUri_client [OF g] g show ?thesis by (auto simp: InitBearer_def)
  qed
  show ?thesis
    using init [of "svc_Ip svc" "auth_entry svc ''username''" "auth_entry svc ''password''" "svc_ServiceType svc"]
      bearer [of "svc_Ip svc" "auth_entry svc ''token''"]
    unfolding connect_device_def by auto
qed

text \<open>Taking on a device never panics: an empty or known address is refused and nothing
  changes; any other address gets a new device, listed under it whether the connection
  worked or not, and the devices there were stay as they are.\<close>

theorem ValidateAndAddDevice_total:
  "case ValidateAndAddDevice srv svc s of (s', r) \<Rightarrow>
     (if svc_Ip svc = [] then s' = s \<and> (\<exists>e. r = Ok (None, Some e))
      else (case find_device (svc_Ip svc) s of
          Some i \<Rightarrow> s' = s \<and> (\<exists>e. r = Ok (None, Some e))
        | None \<Rightarrow> (\<exists>err d. r = Ok (Some (length (rr_mem s)), err) \<and> rr_mem s' = rr_mem s @ [d]
            \<and> connect_device srv svc = Ok (rd_Redfish d, err)
            \<and> rd_State d = (if err = None then STARTING else CONNFAILED)
            \<and> rr_devices s' = map_option (alist_put (svc_Ip svc) (length (rr_mem s))) (rr_devices s))))"
proof -
  from connect_device_total [of srv svc] obtain client err where "connect_device srv svc = Ok (client, err)" by blast
  then show ?thesis by (simp add: ValidateAndAddDevice_def Let_def split: option.split)
qed

theorem reader_invariant_witness:
  "\<exists>s. reader_reachable mock_ops (\<lambda>_. []) NewMockMessageBus s \<and> length (rr_mem s) = 1 \<and> reader_inv s"
proof -
  let ?init = "InitNewDataGroupsMap (redfishread_start mock_ops NewMockMessageBus)"
  let ?svc = "zero_service\<lparr>svc_Ip := ''h''\<rparr>"
  let ?s = "?init\<lparr>rr_mem := [zero_device\<lparr>rd_State := STARTING\<rparr>], rr_devices := Some [(''h'', 0)],
    rr_monitors := [0]\<rparr>"
  have reach: "reader_reachable mock_ops (\<lambda>_. []) NewMockMessageBus ?init"
    by (rule reader_reachable.step [OF reader_reachable.start], rule reader_step.init)
       (simp add: redfishread_start_def Let_def)
  have st: "reader_step mock_ops (\<lambda>_. []) ?init ?s"
    by (rule reader_step.service [of _ "\<lambda>h q. NetErr ''down''" ?svc])
       (simp_all add: auth_service_def bindS_def ValidateAndAddDevice_def InitNewDataGroupsMap_def
          redfishread_start_def Let_def find_device_def connect_device_def zero_service_def
          AuthTypeUsernamePassword_def AuthTypeBearerToken_def zero_device_def MSM_def)
  from reader_reachable.step [OF reach st] reader_invariant [OF reader_reachable.step [OF reach st]]
  show ?thesis by (intro exI [of _ ?s]) simp
qed

lemma producers_nil: "\<exists>d\<in>set ds. rd_Redfish d = None \<Longrightarrow> producers ds = Panic ''nil pointer dereference''"
  by (induction ds) (fastforce simp: device_producer_def split: option.split)+



text \<open>Deleting a producer: a command to delete a listed address cancels its device, takes
  exactly that address out of the table and leaves every other device alone; for an address
  that is not listed the program panics.\<close>

theorem delete_producer:
  assumes "env_type req = databus_DELETEPRODUCER"
    and "DecodePayload (env_payload req) (Some dec_service) zero_service = (svc, None)" and "reader_inv s"
  shows "case find_device (svc_Ip svc) s of
      None \<Rightarrow> redfishread_command ops req s = (s, Panic ''nil pointer dereference'')
    | Some i \<Rightarrow> (\<exists>s'. redfishread_command ops req s = (s', Ok ())
        \<and> device i s' = (device i s)\<lparr>rd_cancelled := True\<rparr> \<and> (\<forall>k. k \<noteq> i \<longrightarrow> device k s' = device k s)
        \<and> (\<forall>ip. find_device ip s' = (if ip = svc_Ip svc then None else find_device ip s)))"
proof (cases "find_device (svc_Ip svc) s")
  case None
  with assms(1,2) show ?thesis
    by (simp add: redfishread_command_def databus_DELETEPRODUCER_def databus_GET_def databus_GETPRODUCERS_def)
next
  case (Some i)
  then obtain m where m: "rr_devices s = Some m" by (auto simp: find_device_def split: option.splits)
  let ?s = "s\<lparr>rr_mem := (rr_mem s)[i := (device i s)\<lparr>rd_cancelled := True\<rparr>],
    rr_devices := Some (alist_del (svc_Ip svc) m)\<rparr>"
  have "redfishread_command ops req s = (?s, Ok ())"
    using assms(1,2) Some m
    by (simp add: redfishread_command_def databus_DELETEPRODUCER_def databus_GET_def databus_GETPRODUCERS_def
        bindS_def set_device_def)
  moreover have "i < length (rr_mem s)" by (rule find_device_bound [OF assms(3) Some])
  ultimately show ?thesis
    using Some m by (auto simp: device_def find_device_def intro!: exI [of _ ?s])
qed

theorem delete_producer_witness:
  "\<exists>s'. redfishread_command mock_ops
      (empty_envelope\<lparr>env_type := ''deleteproducers'', env_payload := json_print (enc_service (zero_service\<lparr>svc_Ip := ''h''\<rparr>))\<rparr>)
      example_reader = (s', Ok ()) \<and> find_device ''h'' s' = None \<and> rd_cancelled (device 0 s')"
proof -
  let ?svc = "zero_service\<lparr>svc_Ip := ''h''\<rparr>"
  let ?req = "empty_envelope\<lparr>env_type := ''deleteproducers'', env_payload := json_print (enc_service ?svc)\<rparr>"
  have "dec_service (enc_service ?svc) zero_service = (?svc, True)"
    by (rule dec_enc_service) (simp add: service_ok_def zero_service_def int64_ok_def int64_min_def int64_max_def)
  then have "DecodePayload (env_payload ?req) (Some dec_service) zero_service = (?svc, None)"
    using DecodePayload_print [of "enc_service ?svc" dec_service zero_service ?svc] by (simp add: wire_simps)
  moreover have "reader_inv example_reader"
    by (simp add: reader_inv_def table_ok_def device_table_def has_client_def example_reader_def device_def
        groups_ok_def)
  ultimately show ?thesis
    using delete_producer [of ?req ?svc example_reader mock_ops]
    by (auto simp: databus_DELETEPRODUCER_def find_device_def example_reader_def)
qed



lemma self_describing_example:
  "self_describing (\<lambda>h rq. Reply 200 (json_print (JObj [(''@odata.id'', JStr (url_path (rq_url rq)))])))"
  unfolding self_describing_def
proof (intro allI)
  fix rq :: http_request
  let ?ms = "[(''@odata.id'', JStr (url_path (rq_url rq)))]"
  have "parse_object (json_print (JObj ?ms)) = Ok ?ms"
    unfolding parse_object_def by (subst json_parse_print) simp_all
  then show "\<exists>body ms. Reply 200 (json_print (JObj ?ms)) = Reply 200 body \<and> parse_object body = Ok ms
     \<and> obj_get ''@odata.id'' ms = Some (JStr (url_path (rq_url rq)))"
    by (intro exI [of _ "json_print (JObj ?ms)"] exI [of _ ?ms]) (simp add: obj_get_def)
qed

theorem alerts_published_witness:
  "\<exists>s' g. alert_event mock_ops (\<lambda>h rq. Reply 200 (json_print (JObj [(''@odata.id'', JStr (url_path (rq_url rq)))])))
       (\<lambda>_. zero_time) 0 (payload_event ''1'' [(''@odata.type'', JStr ''#Event.v1_1_0.Event''), (''Id'', JStr ''9''),
          (''Events'', JArr [JObj [(''EventId'', JStr ''7''), (''OriginOfCondition'', JObj [(''@odata.id'', JStr ''/fan'')])]])])
       example_reader = (s', Ok ())
     \<and> delivered g (rr_service example_reader) (rr_service s')
     \<and> map (\<lambda>e. (ev_EventId e, ev_OriginOfCondition e)) (elems (dg_Events g)) = [(''7'', ''/fan'')]"
proof -
  let ?m = "[(''EventId'', JStr ''7''), (''OriginOfCondition'', JObj [(''@odata.id'', JStr ''/fan'')])]"
  let ?o = "[(''@odata.type'', JStr ''#Event.v1_1_0.Event''), (''Id'', JStr ''9''), (''Events'', JArr [JObj ?m])]"
  let ?g = "alerts_spec (device 0 example_reader) ''h'' ?o [?m]"
  have m: "alert_ok ?m" and o: "origin_of ?m = Some ''/fan''" and e: "nonnil ''EventId'' ?m = Some (JStr ''7'')"
    by (simp_all add: alert_ok_def no_link_def args_of_def origin_of_def nonnil_def obj_get_def)
  have "plain_host (new_client IDRACClient ''h'' [] [] [])" by (simp add: plain_host_def new_client_def)
  moreover have "contains ''#Event.v1_1_0.Event'' ''.Event''" by simp
  ultimately obtain s' where
    "alert_event mock_ops (\<lambda>h rq. Reply 200 (json_print (JObj [(''@odata.id'', JStr (url_path (rq_url rq)))])))
       (\<lambda>_. zero_time) 0 (payload_event ''1'' ?o) example_reader = (s', Ok ())"
    "delivered ?g (rr_service example_reader) (rr_service s')"
    using alerts_published [OF example_ready self_describing_example, of ?o "''#Event.v1_1_0.Event''" "[?m]" "\<lambda>_. zero_time" "''1''"] m
    by (auto simp: obj_get_def Let_def new_client_def)
  moreover have "map (\<lambda>e. (ev_EventId e, ev_OriginOfCondition e)) (elems (dg_Events ?g)) = [(''7'', ''/fan'')]"
    by (simp add: alerts_spec_def alert_spec_def e o slice_def elems_def str_or_empty_def obj_get_def)
  ultimately show ?thesis by (intro exI [of _ s'] exI [of _ ?g]) simp
qed

end
