(* ===== verification/RedfishWalk.thy ===== *)
theory RedfishWalk
  imports RedfishStreams
begin

text \<open>
  \<open>Walk\<close> of \<^verbatim>\<open>internal/redfish/redfish.go\<close>, with \<open>walk\<close> and \<open>walkChild\<close> of
  \<^verbatim>\<open>internal/redfish/payload.go\<close>: the resources of a server, found by following the links from
  its root. The main result is that they are those that can be reached, however the links go
  round.

  The recursion through \<open>walkUri\<close> has fuel; \<open>None\<close> is fuel that did not suffice. The members
  of an object are visited in the order of its text.
\<close>

subsection \<open>Walking\<close>

record walker =
  wa_client :: RedfishClient
  wa_res :: "(string \<times> RedfishPayload) list"

type_synonym walk_step = "walker \<Rightarrow> (walker \<times> unit outcome) option"

definition walk_then :: "walk_step \<Rightarrow> walk_step \<Rightarrow> walk_step" where
  "walk_then a b s =
     (case a s of
        Some (s', Ok u) \<Rightarrow> b s'
      | r \<Rightarrow> r)"

text \<open>\<open>visit\<close> is \<open>walkUri\<close>. An object with an id is a link, whatever else it has; of members with the
  same name the last counts.\<close>

fun walkChild :: "(string \<Rightarrow> walk_step) \<Rightarrow> json \<Rightarrow> walk_step"
  and walkElems :: "(string \<Rightarrow> walk_step) \<Rightarrow> json list \<Rightarrow> walk_step"
  and walkMembers :: "(string \<Rightarrow> walk_step) \<Rightarrow> (string \<times> json) list \<Rightarrow> walk_step" where
  "walkChild visit (JObj ms) s =
     (case obj_get ''@odata.id'' ms of
        Some (JStr i) \<Rightarrow> if map_of (wa_res s) i \<noteq> None then Some (s, Ok ()) else visit i s
      | Some _ \<Rightarrow> Some (s, Panic ''interface conversion'')
      | None \<Rightarrow> walkMembers visit ms s)"
| "walkChild visit (JArr vs) s = walkElems visit vs s"
| "walkChild visit JNull s = Some (s, Ok ())"
| "walkChild visit (JBool b) s = Some (s, Ok ())"
| "walkChild visit (JNum n) s = Some (s, Ok ())"
| "walkChild visit (JStr t) s = Some (s, Ok ())"
| "walkElems visit [] s = Some (s, Ok ())"
| "walkElems visit (v # vs) s = walk_then (walkChild visit v) (walkElems visit vs) s"
| "walkMembers visit [] s = Some (s, Ok ())"
| "walkMembers visit ((k, v) # ms) s =
     (if k \<in> fst ` set ms then walkMembers visit ms s
      else walk_then (walkChild visit v) (walkMembers visit ms) s)"

fun walkUri :: "http_server \<Rightarrow> nat \<Rightarrow> string \<Rightarrow> walk_step" where
  "walkUri srv 0 uri s = None"
| "walkUri srv (Suc n) uri s =
     (case GetUri srv uri (wa_client s) of
        (c, Ok p) \<Rightarrow>
          walkMembers (walkUri srv n) (pl_Object p) \<lparr>wa_client = c, wa_res = alist_put uri p (wa_res s)\<rparr>
      | (c, Err e) \<Rightarrow> Some (s\<lparr>wa_client := c\<rparr>, Ok ())
      | (c, Panic w) \<Rightarrow> Some (s\<lparr>wa_client := c\<rparr>, Panic w)
      | (c, Exit x) \<Rightarrow> Some (s\<lparr>wa_client := c\<rparr>, Exit x))"

definition Walk :: "http_server \<Rightarrow> nat \<Rightarrow> RedfishClient \<Rightarrow> (walker \<times> unit outcome) option" where
  "Walk srv n r = walkUri srv n ''/redfish/v1'' \<lparr>wa_client = r, wa_res = []\<rparr>"

subsection \<open>What there is to be found\<close>

text \<open>The links of a document, and whether all its ids are strings.\<close>

fun links :: "json \<Rightarrow> string set" and links_elems :: "json list \<Rightarrow> string set"
  and links_members :: "(string \<times> json) list \<Rightarrow> string set" where
  "links (JObj ms) =
     (case obj_get ''@odata.id'' ms of
        Some (JStr i) \<Rightarrow> {i}
      | Some _ \<Rightarrow> {}
      | None \<Rightarrow> links_members ms)"
| "links (JArr vs) = links_elems vs"
| "links JNull = {}"
| "links (JBool b) = {}"
| "links (JNum n) = {}"
| "links (JStr t) = {}"
| "links_elems [] = {}"
| "links_elems (v # vs) = links v \<union> links_elems vs"
| "links_members [] = {}"
| "links_members ((k, v) # ms) = (if k \<in> fst ` set ms then {} else links v) \<union> links_members ms"

fun ids_ok :: "json \<Rightarrow> bool" and ids_ok_elems :: "json list \<Rightarrow> bool"
  and ids_ok_members :: "(string \<times> json) list \<Rightarrow> bool" where
  "ids_ok (JObj ms) =
     (case obj_get ''@odata.id'' ms of
        Some (JStr i) \<Rightarrow> True
      | Some _ \<Rightarrow> False
      | None \<Rightarrow> ids_ok_members ms)"
| "ids_ok (JArr vs) = ids_ok_elems vs"
| "ids_ok JNull = True"
| "ids_ok (JBool b) = True"
| "ids_ok (JNum n) = True"
| "ids_ok (JStr t) = True"
| "ids_ok_elems [] = True"
| "ids_ok_elems (v # vs) = (ids_ok v \<and> ids_ok_elems vs)"
| "ids_ok_members [] = True"
| "ids_ok_members ((k, v) # ms) = ((k \<notin> fst ` set ms \<longrightarrow> ids_ok v) \<and> ids_ok_members ms)"

text \<open>A server whose answers depend on the address only, and the document it has at a path.\<close>

definition static :: "(string \<Rightarrow> http_reply) \<Rightarrow> http_server" where
  "static site history rq = site (rq_url rq)"

definition document :: "(string \<Rightarrow> http_reply) \<Rightarrow> string \<Rightarrow> string \<Rightarrow> (string \<times> json) list option" where
  "document site host uri =
     (case site (''https://'' @ host @ uri) of
        Reply code body \<Rightarrow>
          (if code = 200 then (case parse_object body of Ok ms \<Rightarrow> Some ms | _ \<Rightarrow> None) else None)
      | _ \<Rightarrow> None)"

inductive reached :: "(string \<Rightarrow> (string \<times> json) list option) \<Rightarrow> string \<Rightarrow> string \<Rightarrow> bool"
  for doc :: "string \<Rightarrow> (string \<times> json) list option" and root :: string where
  reached_root: "doc root = Some ms \<Longrightarrow> reached doc root root"
| reached_link: "reached doc root u \<Longrightarrow> doc u = Some ms \<Longrightarrow> v \<in> links_members ms \<Longrightarrow> doc v = Some ms' \<Longrightarrow>
     reached doc root v"

subsection \<open>The walk finds it\<close>

abbreviation found :: "walker \<Rightarrow> string set" where
  "found s \<equiv> dom (map_of (wa_res s))"

text \<open>What is recorded is what the server has, and may be found; a step keeps what was recorded, and
  records what a document links to with the document.\<close>

definition walk_good ::
  "(string \<Rightarrow> (string \<times> json) list option) \<Rightarrow> string \<Rightarrow> string set \<Rightarrow> walker \<Rightarrow> bool" where
  "walk_good doc host R s \<longleftrightarrow>
     rf_Hostname (fix_host (wa_client s)) = host \<and> found s \<subseteq> R
     \<and> (\<forall>u p. map_of (wa_res s) u = Some p \<longrightarrow> (\<exists>ms. doc u = Some ms \<and> p = object_payload ms))"

definition walk_visits ::
  "(string \<Rightarrow> (string \<times> json) list option) \<Rightarrow> string \<Rightarrow> string set \<Rightarrow> walker \<Rightarrow> walker \<Rightarrow> bool" where
  "walk_visits doc host R s s' \<longleftrightarrow>
     walk_good doc host R s' \<and> found s \<subseteq> found s'
     \<and> (\<forall>u\<in>found s' - found s. links_members (the (doc u)) \<inter> dom doc \<subseteq> found s')"

lemma walk_visits_refl: "walk_good doc host R s \<Longrightarrow> walk_visits doc host R s s"
  by (simp add: walk_visits_def)

lemma walk_visits_trans:
  assumes "walk_visits doc host R s s1" and "walk_visits doc host R s1 s2"
  shows "walk_visits doc host R s s2"
proof -
  from assms have f: "found s \<subseteq> found s1" "found s1 \<subseteq> found s2" "walk_good doc host R s2"
    by (simp_all add: walk_visits_def)
  have "links_members (the (doc u)) \<inter> dom doc \<subseteq> found s2" if "u \<in> found s2 - found s" for u
  proof (cases "u \<in> found s1")
    case True
    with that assms(1) have "links_members (the (doc u)) \<inter> dom doc \<subseteq> found s1" unfolding walk_visits_def by blast
    with f(2) show ?thesis by blast
  next
    case False
    with that assms(2) show ?thesis unfolding walk_visits_def by blast
  qed
  with f show ?thesis unfolding walk_visits_def by blast
qed

text \<open>A step from \<open>s\<close> that ends and has what there is at the links \<open>l\<close>; and a visitor with fuel for
  \<open>m\<close> documents that are still to be found.\<close>

definition walks ::
  "(string \<Rightarrow> (string \<times> json) list option) \<Rightarrow> string \<Rightarrow> string set \<Rightarrow> string set \<Rightarrow> walk_step \<Rightarrow> walker \<Rightarrow> bool" where
  "walks doc host R l step s \<longleftrightarrow>
     (\<exists>s'. step s = Some (s', Ok ()) \<and> walk_visits doc host R s s' \<and> l \<inter> dom doc \<subseteq> found s')"

definition visitor ::
  "(string \<Rightarrow> (string \<times> json) list option) \<Rightarrow> string \<Rightarrow> string set \<Rightarrow> nat \<Rightarrow> (string \<Rightarrow> walk_step) \<Rightarrow> bool" where
  "visitor doc host R m visit \<longleftrightarrow>
     (\<forall>u s. walk_good doc host R s \<longrightarrow> card (dom doc - found s) < m \<longrightarrow> u \<notin> found s \<longrightarrow> {u} \<inter> dom doc \<subseteq> R \<longrightarrow>
        walks doc host R {u} (visit u) s)"

lemma walks_nothing:
  "walk_good doc host R s \<Longrightarrow> step s = Some (s, Ok ()) \<Longrightarrow> l \<inter> dom doc \<subseteq> found s \<Longrightarrow> walks doc host R l step s"
  by (simp add: walks_def walk_visits_refl)

lemma walks_then:
  assumes "walks doc host R l a s" and "finite (dom doc)" and "card (dom doc - found s) < m"
    and "\<And>s'. walk_good doc host R s' \<Longrightarrow> card (dom doc - found s') < m \<Longrightarrow> walks doc host R l' b s'"
  shows "walks doc host R (l \<union> l') (walk_then a b) s"
proof -
  from assms(1) obtain s1 where s1: "a s = Some (s1, Ok ())" "walk_visits doc host R s s1" "l \<inter> dom doc \<subseteq> found s1"
    unfolding walks_def by blast
  have f1: "walk_good doc host R s1" "found s \<subseteq> found s1" using s1(2) by (simp_all add: walk_visits_def)
  have "card (dom doc - found s1) \<le> card (dom doc - found s)"
    using assms(2) f1(2) by (intro card_mono) auto
  with assms(3) have "card (dom doc - found s1) < m" by simp
  from assms(4) [OF f1(1) this] obtain s2 where
    s2: "b s1 = Some (s2, Ok ())" "walk_visits doc host R s1 s2" "l' \<inter> dom doc \<subseteq> found s2"
    unfolding walks_def by blast
  have "found s1 \<subseteq> found s2" using s2(2) by (simp add: walk_visits_def)
  with s1(3) s2(3) have "(l \<union> l') \<inter> dom doc \<subseteq> found s2" by blast
  moreover have "walk_then a b s = Some (s2, Ok ())" using s1(1) s2(1) by (simp add: walk_then_def)
  ultimately show ?thesis using walk_visits_trans [OF s1(2) s2(2)] unfolding walks_def by blast
qed

lemma walk_children:
  assumes "visitor doc host R m visit" and "finite (dom doc)"
  shows "walk_good doc host R s \<Longrightarrow> card (dom doc - found s) < m \<Longrightarrow> ids_ok v \<Longrightarrow> links v \<inter> dom doc \<subseteq> R \<Longrightarrow>
      walks doc host R (links v) (walkChild visit v) s"
    and "walk_good doc host R s1 \<Longrightarrow> card (dom doc - found s1) < m \<Longrightarrow> ids_ok_elems vs \<Longrightarrow> links_elems vs \<inter> dom doc \<subseteq> R \<Longrightarrow>
      walks doc host R (links_elems vs) (walkElems visit vs) s1"
    and "walk_good doc host R s2 \<Longrightarrow> card (dom doc - found s2) < m \<Longrightarrow> ids_ok_members ms \<Longrightarrow> links_members ms \<inter> dom doc \<subseteq> R \<Longrightarrow>
      walks doc host R (links_members ms) (walkMembers visit ms) s2"
proof (induction v and vs and ms arbitrary: s and s1 and s2 rule: links_links_elems_links_members.induct)
  case (1 ms)
  show ?case
  proof (cases "obj_get ''@odata.id'' ms")
    case None
    with 1 show ?thesis by (simp add: walks_def)
  next
    case (Some j)
    with 1(4) obtain i where i: "j = JStr i" by (cases j) auto
    show ?thesis
    proof (cases "i \<in> found s")
      case True
      then have "walkChild visit (JObj ms) s = Some (s, Ok ())" using Some i by auto
      with 1(2) True Some i show ?thesis by (intro walks_nothing) auto
    next
      case False
      then have "walks doc host R {i} (visit i) s" using 1(2,3,5) Some i assms(1) unfolding visitor_def by simp
      moreover have "walkChild visit (JObj ms) s = visit i s" using False Some i by (simp add: dom_def)
      ultimately show ?thesis using Some i by (simp add: walks_def)
    qed
  qed
next
  case (2 vs)
  then show ?case by (simp add: walks_def)
next
  case (8 v vs)
  have "walks doc host R (links v \<union> links_elems vs) (walk_then (walkChild visit v) (walkElems visit vs)) s1"
  proof (rule walks_then [OF _ assms(2) 8(4)])
    show "walks doc host R (links v) (walkChild visit v) s1" using 8 by (intro 8(1)) auto
  qed (use 8 in auto)
  then show ?case by (simp add: walks_def)
next
  case (10 k v ms)
  show ?case
  proof (cases "k \<in> fst ` set ms")
    case True
    with 10 show ?thesis by (simp add: walks_def)
  next
    case False
    have "walks doc host R (links v \<union> links_members ms) (walk_then (walkChild visit v) (walkMembers visit ms)) s2"
    proof (rule walks_then [OF _ assms(2) 10(4)])
      show "walks doc host R (links v) (walkChild visit v) s2" using 10 False by (intro 10(1)) auto
    qed (use 10 False in auto)
    with False show ?thesis by (simp add: walks_def)
  qed
qed (auto intro!: walks_nothing)

lemma GetUri_static:
  assumes "rf_Hostname (fix_host r) = host" and "GetUri (static site) uri r = (c, x)"
  shows "rf_Hostname (fix_host c) = host
    \<and> (case document site host uri of Some ms \<Rightarrow> x = Ok (object_payload ms) | None \<Rightarrow> \<exists>e. x = Err e)"
proof
  from GetUri_client [OF assms(2)] show "rf_Hostname (fix_host c) = host"
    using assms(1) by (simp add: fix_host_again)
next
  have "parse_object b \<noteq> Panic w" "parse_object b \<noteq> Exit k" for b w k
    by (simp_all add: parse_object_def split: option.split json.split)
  with assms show "case document site host uri of Some ms \<Rightarrow> x = Ok (object_payload ms) | None \<Rightarrow> \<exists>e. x = Err e"
    by (auto simp: GetUri_def document_def http_do_def static_def Let_def
        split: http_reply.splits outcome.splits if_splits)
qed

lemma walkUri_visitor:
  assumes "finite (dom (document site host))"
    and "\<And>u ms. document site host u = Some ms \<Longrightarrow> ids_ok_members ms"
    and "\<And>u ms. u \<in> R \<Longrightarrow> document site host u = Some ms \<Longrightarrow> links_members ms \<inter> dom (document site host) \<subseteq> R"
  shows "visitor (document site host) host R n (walkUri (static site) n)"
proof (induction n)
  case 0
  show ?case by (simp add: visitor_def)
next
  case (Suc n)
  let ?doc = "document site host"
  show ?case
    unfolding visitor_def
  proof (intro allI impI)
    fix u s
    assume good: "walk_good ?doc host R s" and card: "card (dom ?doc - found s) < Suc n"
      and new: "u \<notin> found s" and may: "{u} \<inter> dom ?doc \<subseteq> R"
    obtain c x where g: "GetUri (static site) u (wa_client s) = (c, x)" by fastforce
    have host: "rf_Hostname (fix_host (wa_client s)) = host" using good by (simp add: walk_good_def)
    have c: "rf_Hostname (fix_host c) = host" using GetUri_static [OF host g] by blast
    show "walks ?doc host R {u} (walkUri (static site) (Suc n) u) s"
    proof (cases "?doc u")
      case None
      then obtain e where "x = Err e" using GetUri_static [OF host g] by auto
      with g have "walkUri (static site) (Suc n) u s = Some (s\<lparr>wa_client := c\<rparr>, Ok ())" by simp
      moreover have "walk_visits ?doc host R s (s\<lparr>wa_client := c\<rparr>)"
        using good c by (simp add: walk_visits_def walk_good_def)
      moreover have "{u} \<inter> dom ?doc \<subseteq> found (s\<lparr>wa_client := c\<rparr>)" using None by (simp add: dom_def)
      ultimately show ?thesis unfolding walks_def by blast
    next
      case (Some ms)
      let ?s = "\<lparr>wa_client = c, wa_res = alist_put u (object_payload ms) (wa_res s)\<rparr>"
      have f: "found ?s = insert u (found s)" by simp
      have "x = Ok (object_payload ms)" using GetUri_static [OF host g] Some by simp
      then have w: "walkUri (static site) (Suc n) u s = walkMembers (walkUri (static site) n) ms ?s"
        using g by (simp add: object_payload_def)
      have r: "u \<in> R" using may Some by auto
      have "walk_good ?doc host R ?s"
        using good c Some r f by (simp add: walk_good_def)
      moreover have "card (dom ?doc - found ?s) < n"
      proof -
        have "dom ?doc - found ?s \<subset> dom ?doc - found s" using f new Some by auto
        then have "card (dom ?doc - found ?s) < card (dom ?doc - found s)"
          using assms(1) by (intro psubset_card_mono) auto
        with card show ?thesis by linarith
      qed
      ultimately have "walks ?doc host R (links_members ms) (walkMembers (walkUri (static site) n) ms) ?s"
        using walk_children(3) [OF Suc assms(1)] assms(2) [OF Some] assms(3) [OF r Some] by blast
      then obtain s' where s': "walkMembers (walkUri (static site) n) ms ?s = Some (s', Ok ())"
        "walk_visits ?doc host R ?s s'" "links_members ms \<inter> dom ?doc \<subseteq> found s'" unfolding walks_def by blast
      have "walk_visits ?doc host R s s'"
      proof -
        have "links_members (the (?doc v)) \<inter> dom ?doc \<subseteq> found s'" if "v \<in> found s' - found s" for v
        proof (cases "v = u")
          case True
          with s'(3) Some show ?thesis by simp
        next
          case False
          with that s'(2) show ?thesis unfolding walk_visits_def f by blast
        qed
        with s'(2) show ?thesis unfolding walk_visits_def f by blast
      qed
      moreover have "{u} \<inter> dom ?doc \<subseteq> found s'" using s'(2) unfolding walk_visits_def f by blast
      moreover have "walkUri (static site) (Suc n) u s = Some (s', Ok ())" using w s'(1) by (simp only:)
      ultimately show ?thesis unfolding walks_def by blast
    qed
  qed
qed

subsection \<open>Property\<close>

text \<open>C22: the walk through a server's resources ends and is complete: over a server that answers
  by address alone with finitely many documents, whose ids are strings, it ends without an
  error, however the documents link to each other, and has exactly the documents that can be
  reached from the root through documents that are there; a recursion of one more than the number of
  documents is deep enough.\<close>

theorem walk_finds_reachable:
  assumes "finite (dom (document site (rf_Hostname (fix_host r))))"
    and "\<And>u ms. document site (rf_Hostname (fix_host r)) u = Some ms \<Longrightarrow> ids_ok_members ms"
    and "card (dom (document site (rf_Hostname (fix_host r)))) < n"
  shows "\<exists>s. Walk (static site) n r = Some (s, Ok ())
    \<and> (\<forall>u. map_of (wa_res s) u =
        (if reached (document site (rf_Hostname (fix_host r))) ''/redfish/v1'' u
         then map_option object_payload (document site (rf_Hostname (fix_host r)) u) else None))"
proof -
  let ?host = "rf_Hostname (fix_host r)" and ?root = "''/redfish/v1''"
  let ?doc = "document site ?host"
  let ?R = "{u. reached ?doc ?root u}" and ?s = "\<lparr>wa_client = r, wa_res = []\<rparr>"
  have R: "links_members ms \<inter> dom ?doc \<subseteq> ?R" if "u \<in> ?R" "?doc u = Some ms" for u ms
    using that by (auto intro: reached_link)
  have "walk_good ?doc ?host ?R ?s" by (simp add: walk_good_def)
  moreover have "{?root} \<inter> dom ?doc \<subseteq> ?R" by (auto intro: reached_root)
  ultimately have "walks ?doc ?host ?R {?root} (walkUri (static site) n ?root) ?s"
    using walkUri_visitor [where R = ?R and n = n, OF assms(1,2) R] assms(3) unfolding visitor_def by simp
  then obtain s where s: "Walk (static site) n r = Some (s, Ok ())" "walk_visits ?doc ?host ?R ?s s"
    "{?root} \<inter> dom ?doc \<subseteq> found s" unfolding walks_def Walk_def by blast
  have good: "walk_good ?doc ?host ?R s" and links: "\<And>u. u \<in> found s \<Longrightarrow> links_members (the (?doc u)) \<inter> dom ?doc \<subseteq> found s"
    using s(2) by (auto simp: walk_visits_def)
  have "u \<in> found s" if "reached ?doc ?root u" for u
    using that
  proof induction
    case (reached_root ms)
    with s(3) show ?case by blast
  next
    case (reached_link u ms v ms')
    with links [of u] show ?case by auto
  qed
  with good have "map_of (wa_res s) u = (if reached ?doc ?root u then map_option object_payload (?doc u) else None)" for u
    unfolding walk_good_def by (cases "map_of (wa_res s) u") fastforce+
  with s(1) show ?thesis by blast
qed

text \<open>A server with two documents that link to each other, and a link to nothing.\<close>

definition link_to :: "string \<Rightarrow> json" where
  "link_to uri = JObj [(''@odata.id'', JStr uri)]"

definition example_site :: "string \<Rightarrow> http_reply" where
  "example_site url =
     (if url = ''https://h/redfish/v1'' then
        Reply 200 (json_print (JObj [(''Links'', JArr [link_to ''/a'', link_to ''/redfish/v1''])]))
      else if url = ''https://h/a'' then
        Reply 200 (json_print (JObj [(''Up'', link_to ''/redfish/v1''), (''Gone'', link_to ''/gone'')]))
      else Reply 404 [])"

lemma document_printed:
  "site (''https://'' @ host @ uri) = Reply 200 (json_print (JObj ms)) \<Longrightarrow> json_ok (JObj ms) \<Longrightarrow> numbers_ok (JObj ms) \<Longrightarrow>
     document site host uri = Some ms"
  by (simp add: document_def parse_object_def json_parse_print del: json_print.simps json_ok.simps)

theorem walk_finds_reachable_witness:
  "\<exists>s. Walk (static example_site) 3 (new_client IDRACClient ''h'' ''root'' ''calvin'' []) = Some (s, Ok ())
    \<and> map_of (wa_res s) ''/a'' \<noteq> None \<and> map_of (wa_res s) ''/gone'' = None"
proof -
  let ?r = "new_client IDRACClient ''h'' ''root'' ''calvin'' []"
  let ?root = "[(''Links'', JArr [link_to ''/a'', link_to ''/redfish/v1''])]"
  let ?a = "[(''Up'', link_to ''/redfish/v1''), (''Gone'', link_to ''/gone'')]"
  let ?doc = "document example_site ''h''"
  have h: "rf_Hostname (fix_host ?r) = ''h''" by (simp add: fix_host_def new_client_def)
  have root: "?doc ''/redfish/v1'' = Some ?root"
    by (rule document_printed) (simp_all add: example_site_def link_to_def)
  have a: "?doc ''/a'' = Some ?a" by (rule document_printed) (simp_all add: example_site_def link_to_def)
  have none: "?doc u = None" if "u \<noteq> ''/redfish/v1''" "u \<noteq> ''/a''" for u
    using that by (simp add: document_def example_site_def)
  have d: "dom ?doc = {''/redfish/v1'', ''/a''}"
  proof (intro equalityI subsetI)
    fix u assume "u \<in> dom ?doc"
    then have "u = ''/redfish/v1'' \<or> u = ''/a''" using none [of u] by (metis domIff)
    then show "u \<in> {''/redfish/v1'', ''/a''}" by (elim disjE) simp_all
  qed (use root a in blast)
  have ids: "ids_ok_members ms" if "?doc u = Some ms" for u ms
  proof -
    have "ids_ok_members ?root" "ids_ok_members ?a" by (simp_all add: link_to_def obj_get_def)
    moreover have "ms = ?root \<or> ms = ?a"
      using that root a none [of u] by (metis option.distinct(1) option.inject)
    ultimately show ?thesis by blast
  qed
  have fin: "finite (dom ?doc)" "card (dom ?doc) < 3" unfolding d by simp_all
  have "\<exists>s. Walk (static example_site) 3 ?r = Some (s, Ok ())
    \<and> (\<forall>u. map_of (wa_res s) u = (if reached ?doc ''/redfish/v1'' u then map_option object_payload (?doc u) else None))"
    by (rule walk_finds_reachable [of example_site ?r 3, unfolded h, OF fin(1) _ fin(2)]) (rule ids)
  then obtain s where
    s: "Walk (static example_site) 3 ?r = Some (s, Ok ())"
    "\<And>u. map_of (wa_res s) u = (if reached ?doc ''/redfish/v1'' u then map_option object_payload (?doc u) else None)"
    by blast
  have "reached ?doc ''/redfish/v1'' ''/redfish/v1''" using root by (rule reached_root)
  moreover have "''/a'' \<in> links_members ?root" by (simp add: link_to_def obj_get_def)
  ultimately have "reached ?doc ''/redfish/v1'' ''/a''" using root a by (blast intro: reached_link)
  then have "map_of (wa_res s) ''/a'' \<noteq> None" unfolding s(2) a by simp
  moreover have "map_of (wa_res s) ''/gone'' = None" unfolding s(2) using none [of "''/gone''"] by simp
  ultimately show ?thesis using s(1) by blast
qed

end
