(* ===== verification/Brokers.thy ===== *)
theory Brokers
  imports Databus
begin

text \<open>
  \<^verbatim>\<open>internal/messagebus/kafka/kafka.go\<close> and \<^verbatim>\<open>internal/messagebus/stomp/stomp.go\<close>: the
  message bus over a Kafka broker, with its cache of one connection per topic and its
  single reconnection, and the one over a STOMP broker. Both fulfil the contract of the
  message bus, whatever the network does.

  The broker client libraries are a parameter: \<open>net history call\<close> is the error, if any, of a
  call after the calls in \<open>history\<close>. The state of a bus keeps the history of its calls.
\<close>

subsection \<open>Kafka\<close>

text \<open>Errors as the code tells them apart: \<open>io.EOF\<close>, a \<open>net.Error\<close> that may be a time-out,
  any other error.\<close>

datatype kafka_error = KEof | KNet bool string | KOther string

primrec kafka_error_text :: "kafka_error \<Rightarrow> string" where
  "kafka_error_text KEof = ''EOF''"
| "kafka_error_text (KNet timeout s) = s"
| "kafka_error_text (KOther s) = s"

text \<open>A connection is named by its topic and a number.\<close>

datatype kafka_call =
    Dial string
  | Write string nat string "(string \<times> string) list"
  | CloseConn string nat

type_synonym kafka_history = "(kafka_call \<times> kafka_error option) list"
type_synonym kafka_net = "kafka_history \<Rightarrow> kafka_call \<Rightarrow> kafka_error option"

record KafkaTLS =
  kt_RootCA :: string
  kt_Certificate :: "(string \<times> string) option"
  kt_InsecureSkipVerify :: bool

record KafkaMessagebus =
  kb_conns :: "string \<Rightarrow> nat option"
  kb_addr :: string
  kb_tls :: "KafkaTLS option"
  kb_subs :: "(nat \<times> string \<times> nat) list"
  kb_log :: kafka_history

record KafkaTLSConfig =
  kc_ServerCA :: string
  kc_ClientCert :: string
  kc_ClientKey :: string
  kc_SkipVerify :: bool

definition kafka_do :: "kafka_net \<Rightarrow> kafka_call \<Rightarrow> KafkaMessagebus \<Rightarrow> KafkaMessagebus \<times> kafka_error option" where
  "kafka_do net c m =
     (let r = net (kb_log m) c in (m\<lparr>kb_log := kb_log m @ [(c, r)]\<rparr>, r))"

definition kafka_topic :: "string \<Rightarrow> string" where
  "kafka_topic queue = replace_all ''/'' ''_'' queue"

text \<open>The two file reads and \<open>tls.X509KeyPair\<close> are parameters.\<close>

definition kafka_tls ::
  "(string \<Rightarrow> string outcome) \<Rightarrow> (string \<Rightarrow> string \<Rightarrow> gerror option) \<Rightarrow> KafkaTLSConfig \<Rightarrow> KafkaTLS outcome" where
  "kafka_tls readFile keyPair cfg =
     outcome_bind (readFile (kc_ServerCA cfg)) (\<lambda>ca.
       (let config = \<lparr>kt_RootCA = ca, kt_Certificate = None, kt_InsecureSkipVerify = kc_SkipVerify cfg\<rparr> in
        if kc_ClientCert cfg \<noteq> [] \<and> kc_ClientKey cfg \<noteq> [] then
          outcome_bind (readFile (kc_ClientCert cfg)) (\<lambda>ccrt.
          outcome_bind (readFile (kc_ClientKey cfg)) (\<lambda>ckey.
            (case keyPair ccrt ckey of
               Some e \<Rightarrow> Err e
             | None \<Rightarrow> Ok (config\<lparr>kt_Certificate := Some (ccrt, ckey)\<rparr>))))
        else Ok config))"

definition NewKafkaMessageBus ::
  "kafka_net \<Rightarrow> (string \<Rightarrow> string outcome) \<Rightarrow> (string \<Rightarrow> string \<Rightarrow> gerror option) \<Rightarrow>
   string \<Rightarrow> int \<Rightarrow> string \<Rightarrow> KafkaTLSConfig option \<Rightarrow> KafkaMessagebus outcome" where
  "NewKafkaMessageBus net readFile keyPair host port topic tlsCfg =
     (let ret = \<lparr>kb_conns = (\<lambda>_. None), kb_addr = host @ '':'' @ int_dec port, kb_tls = None,
                 kb_subs = [], kb_log = []\<rparr> in
      outcome_bind
        (case tlsCfg of
           None \<Rightarrow> Ok ret
         | Some cfg \<Rightarrow>
             if kc_ServerCA cfg \<noteq> [] then
               outcome_bind (kafka_tls readFile keyPair cfg) (\<lambda>t. Ok (ret\<lparr>kb_tls := Some t\<rparr>))
             else Ok ret)
        (\<lambda>ret.
           if topic \<noteq> [] then
             (case kafka_do net (Dial topic) ret of
                (ret', Some e) \<Rightarrow> Err (kafka_error_text e)
              | (ret', None) \<Rightarrow> Ok (ret'\<lparr>kb_conns := (kb_conns ret')(topic \<mapsto> length (kb_log ret))\<rparr>))
           else Ok ret))"

text \<open>The map of connections is nil here, and storing into a nil map panics.\<close>

definition NewKafkaMessageBusFromConn :: "nat \<Rightarrow> string \<Rightarrow> KafkaMessagebus outcome" where
  "NewKafkaMessageBusFromConn conn topic = Panic ''assignment to entry in nil map''"

definition TopicConnect :: "kafka_net \<Rightarrow> string \<Rightarrow> KafkaMessagebus \<Rightarrow> KafkaMessagebus \<times> nat outcome" where
  "TopicConnect net queue m =
     (let topic = kafka_topic queue in
      case kb_conns m topic of
        Some kconn \<Rightarrow> (m, Ok kconn)
      | None \<Rightarrow>
          (case kafka_do net (Dial topic) m of
             (m', Some e) \<Rightarrow> (m', Err (kafka_error_text e))
           | (m', None) \<Rightarrow>
               (let conn = length (kb_log m) in
                (m'\<lparr>kb_conns := (kb_conns m')(topic \<mapsto> conn)\<rparr>, Ok conn))))"

definition shouldRestartOnErr :: "kafka_error option \<Rightarrow> bool" where
  "shouldRestartOnErr err =
     (case err of
        None \<Rightarrow> False
      | Some KEof \<Rightarrow> True
      | Some e \<Rightarrow>
          (case e of KNet timeout s \<Rightarrow> timeout | _ \<Rightarrow> False)
          \<or> (let s = to_lower (kafka_error_text e) in
              contains s ''use of closed network connection'' \<or> contains s ''broken pipe''
              \<or> contains s ''connection reset by peer'' \<or> contains s ''i/o timeout''))"

text \<open>The stale connection is closed and leaves the cache.\<close>

definition drop_stale :: "kafka_net \<Rightarrow> string \<Rightarrow> KafkaMessagebus \<Rightarrow> KafkaMessagebus" where
  "drop_stale net topic m =
     (case kb_conns m topic of
        None \<Rightarrow> m
      | Some c \<Rightarrow>
          (case kafka_do net (CloseConn topic c) m of
             (m', r) \<Rightarrow> m'\<lparr>kb_conns := (kb_conns m')(topic := None)\<rparr>))"

text \<open>The body that \<open>SendMessage\<close> and \<open>SendMessageWithHeaders\<close> share.\<close>

definition kafka_send ::
  "kafka_net \<Rightarrow> (string \<times> string) list \<Rightarrow> KafkaMessagebus \<Rightarrow> string \<Rightarrow> string \<Rightarrow> KafkaMessagebus \<times> unit outcome" where
  "kafka_send net hdrs m message queue =
     (let topic = kafka_topic queue in
      case TopicConnect net queue m of
        (m1, Ok kconn) \<Rightarrow>
          (case kafka_do net (Write topic kconn message hdrs) m1 of
             (m2, None) \<Rightarrow> (m2, Ok ())
           | (m2, Some e) \<Rightarrow>
               (if shouldRestartOnErr (Some e) then
                  (case TopicConnect net queue (drop_stale net topic m2) of
                     (m3, Ok kconn') \<Rightarrow>
                       (case kafka_do net (Write topic kconn' message hdrs) m3 of
                          (m4, None) \<Rightarrow> (m4, Ok ())
                        | (m4, Some e') \<Rightarrow> (m4, Exit 1))
                   | (m3, r) \<Rightarrow> (m3, Exit 1))
                else (m2, Err (kafka_error_text e))))
      | (m1, Err e) \<Rightarrow> (m1, Err e)
      | (m1, Panic w) \<Rightarrow> (m1, Panic w)
      | (m1, Exit n) \<Rightarrow> (m1, Exit n))"

definition kafka_SendMessage ::
  "kafka_net \<Rightarrow> KafkaMessagebus \<Rightarrow> string \<Rightarrow> string \<Rightarrow> KafkaMessagebus \<times> unit outcome" where
  "kafka_SendMessage net m message queue = kafka_send net [] m message queue"

definition kafka_SendMessageWithHeaders ::
  "kafka_net \<Rightarrow> KafkaMessagebus \<Rightarrow> string \<Rightarrow> string \<Rightarrow> (string \<times> string) list \<Rightarrow> KafkaMessagebus \<times> unit outcome" where
  "kafka_SendMessageWithHeaders net m message queue headers = kafka_send net headers m message queue"

text \<open>A subscription starts a read loop on the topic's connection, for a channel.\<close>

definition kafka_ReceiveMessage ::
  "kafka_net \<Rightarrow> KafkaMessagebus \<Rightarrow> nat \<Rightarrow> string \<Rightarrow> KafkaMessagebus \<times> unit outcome" where
  "kafka_ReceiveMessage net m message queue =
     (case TopicConnect net queue m of
        (m', Ok kconn) \<Rightarrow> (m'\<lparr>kb_subs := kb_subs m' @ [(kconn, queue, message)]\<rparr>, Ok ())
      | (m', Err e) \<Rightarrow> (m', Err e)
      | (m', Panic w) \<Rightarrow> (m', Panic w)
      | (m', Exit n) \<Rightarrow> (m', Exit n))"

text \<open>The read loop on the results of its reads: the messages handed on, and how it ends.\<close>

datatype read_result = ReadMsg string | ReadErr kafka_error

datatype loop_end = StillReading | LoopClosed | LoopExit int

fun kafka_RecieveLoop :: "read_result list \<Rightarrow> string list \<times> loop_end" where
  "kafka_RecieveLoop [] = ([], StillReading)"
| "kafka_RecieveLoop (ReadErr e # rs) =
     ([], if shouldRestartOnErr (Some e) then LoopExit 1 else LoopClosed)"
| "kafka_RecieveLoop (ReadMsg msg # rs) =
     (case kafka_RecieveLoop rs of (out, e) \<Rightarrow> (msg # out, e))"

definition KafkaSubscription_Close :: "KafkaMessagebus \<Rightarrow> KafkaMessagebus \<times> gerror option" where
  "KafkaSubscription_Close m = (m, None)"

text \<open>\<open>Close\<close> closes the connections in the order the map is traversed and returns the last error.\<close>

definition kafka_Close ::
  "kafka_net \<Rightarrow> string list \<Rightarrow> KafkaMessagebus \<Rightarrow> KafkaMessagebus \<times> gerror option" where
  "kafka_Close net topics m =
     fold (\<lambda>topic (m, err).
        (case kb_conns m topic of
           None \<Rightarrow> (m, err)
         | Some c \<Rightarrow>
             (case kafka_do net (CloseConn topic c) m of
                (m', r) \<Rightarrow> (m'\<lparr>kb_conns := (kb_conns m')(topic := None)\<rparr>,
                            case r of None \<Rightarrow> err | Some e \<Rightarrow> Some (kafka_error_text e)))))
       topics (m, None)"

definition kafka_ops :: "kafka_net \<Rightarrow> KafkaMessagebus bus_ops" where
  "kafka_ops net = \<lparr>send_msg = kafka_SendMessage net, recv_msg = kafka_ReceiveMessage net\<rparr>"

text \<open>The messages a broker has acknowledged for a topic.\<close>

fun written :: "kafka_history \<Rightarrow> string \<Rightarrow> string list" where
  "written [] t = []"
| "written ((Write t' c m h, None) # hs) t = (if t' = t then m # written hs t else written hs t)"
| "written (h # hs) t = written hs t"

subsection \<open>Kafka fulfils the contract\<close>

lemma written_append [simp]: "written (xs @ ys) t = written xs t @ written ys t"
  by (induction xs t rule: written.induct) auto

lemma written_fun: "written (xs @ [(c, r)]) =
    (case (c, r) of (Write t k m h, None) \<Rightarrow> (written xs)(t := written xs t @ [m]) | _ \<Rightarrow> written xs)"
  by (auto simp: fun_eq_iff split: kafka_call.split option.split)

lemma TopicConnect_written:
  "TopicConnect net q m = (m', r) \<Longrightarrow> written (kb_log m') = written (kb_log m)"
  by (auto simp: TopicConnect_def kafka_do_def Let_def written_fun split: option.splits)

lemma TopicConnect_result:
  "TopicConnect net q m = (m', r) \<Longrightarrow> (\<exists>c. r = Ok c) \<or> (\<exists>e. r = Err e)"
  by (auto simp: TopicConnect_def kafka_do_def Let_def split: option.splits)

lemma drop_stale_written: "written (kb_log (drop_stale net t m)) = written (kb_log m)"
  by (auto simp: drop_stale_def kafka_do_def Let_def written_fun split: option.splits)

lemma kafka_send_written:
  assumes "kafka_send net hdrs m msg q = (m', r)"
  shows "written (kb_log m') =
    (if r = Ok () then (written (kb_log m))(kafka_topic q := written (kb_log m) (kafka_topic q) @ [msg])
     else written (kb_log m))"
  using assms
  by (auto simp: kafka_send_def kafka_do_def Let_def written_fun drop_stale_written
      dest!: TopicConnect_written split: prod.splits outcome.splits option.splits if_splits)

text \<open>A send never panics, and exits with status 1 only.\<close>

lemma kafka_send_ends:
  "kafka_SendMessage net m msg q = (m', r) \<Longrightarrow> (\<forall>w. r \<noteq> Panic w) \<and> (\<forall>n. r = Exit n \<longrightarrow> n = 1)"
  by (auto simp: kafka_SendMessage_def kafka_send_def TopicConnect_def kafka_do_def drop_stale_def Let_def
      split: option.splits if_splits)

interpretation kafka: message_bus "kafka_ops net" "\<lambda>b. written (kb_log b)" kafka_topic
  for net
proof unfold_locales
  fix b m q b'
  assume "send_msg (kafka_ops net) b m q = (b', Ok ())"
  then show "written (kb_log b') = (written (kb_log b))(kafka_topic q := written (kb_log b) (kafka_topic q) @ [m])"
    using kafka_send_written [of net "[]" b m q b' "Ok ()"] by (simp add: kafka_ops_def kafka_SendMessage_def)
next
  fix b m q b' and r :: "unit outcome"
  assume "send_msg (kafka_ops net) b m q = (b', r)" and "r \<noteq> Ok ()"
  then show "written (kb_log b') = written (kb_log b)"
    using kafka_send_written [of net "[]" b m q b' r] by (simp add: kafka_ops_def kafka_SendMessage_def)
next
  fix b c q
  show "written (kb_log (fst (recv_msg (kafka_ops net) b c q))) = written (kb_log b)"
    by (auto simp: kafka_ops_def kafka_ReceiveMessage_def dest!: TopicConnect_written split: prod.splits outcome.splits)
qed

text \<open>A broker that refuses connections to some topics and is otherwise sound.\<close>

definition refusing :: "string set \<Rightarrow> kafka_net" where
  "refusing down history c =
     (case c of Dial t \<Rightarrow> if t \<in> down then Some (KOther ''connection refused'') else None | _ \<Rightarrow> None)"

definition reachable_topic :: "string set \<Rightarrow> KafkaMessagebus \<Rightarrow> string \<Rightarrow> bool" where
  "reachable_topic down m q \<longleftrightarrow> kafka_topic q \<notin> down \<or> kb_conns m (kafka_topic q) \<noteq> None"

interpretation kafka_down: partial_bus "kafka_ops (refusing down)" "\<lambda>b. written (kb_log b)" kafka_topic
  "reachable_topic down"
  for down
proof unfold_locales
  fix b m q
  assume "reachable_topic down b q"
  then show "\<exists>b'. send_msg (kafka_ops (refusing down)) b m q = (b', Ok ()) \<and> reachable_topic down b' = reachable_topic down b"
    by (auto simp: kafka_ops_def kafka_SendMessage_def kafka_send_def TopicConnect_def kafka_do_def Let_def
        refusing_def reachable_topic_def fun_eq_iff split: option.split)
next
  fix b m q
  assume "\<not> reachable_topic down b q"
  then show "\<exists>b' e. send_msg (kafka_ops (refusing down)) b m q = (b', Err e) \<and> reachable_topic down b' = reachable_topic down b"
    by (auto simp: kafka_ops_def kafka_SendMessage_def kafka_send_def TopicConnect_def kafka_do_def Let_def
        refusing_def reachable_topic_def fun_eq_iff)
qed

subsection \<open>STOMP\<close>

datatype stomp_call =
    StompSend string string string "(string \<times> string) list"
  | StompSubscribe string
  | StompUnsubscribe nat
  | StompDisconnect

type_synonym stomp_history = "(stomp_call \<times> gerror option) list"
type_synonym stomp_net = "stomp_history \<Rightarrow> stomp_call \<Rightarrow> gerror option"

record StompMessagebus =
  sm_subs :: "(nat \<times> string \<times> nat) list"
  sm_log :: stomp_history

definition stomp_do :: "stomp_net \<Rightarrow> stomp_call \<Rightarrow> StompMessagebus \<Rightarrow> StompMessagebus \<times> gerror option" where
  "stomp_do net c m = (let r = net (sm_log m) c in (m\<lparr>sm_log := sm_log m @ [(c, r)]\<rparr>, r))"

definition stomp_SendMessageWithHeaders ::
  "stomp_net \<Rightarrow> StompMessagebus \<Rightarrow> string \<Rightarrow> string \<Rightarrow> (string \<times> string) list \<Rightarrow> StompMessagebus \<times> unit outcome" where
  "stomp_SendMessageWithHeaders net m message queue headers =
     (case stomp_do net (StompSend queue ''text/plain'' message headers) m of
        (m', None) \<Rightarrow> (m', Ok ())
      | (m', Some e) \<Rightarrow> (m', Err e))"

definition stomp_SendMessage ::
  "stomp_net \<Rightarrow> StompMessagebus \<Rightarrow> string \<Rightarrow> string \<Rightarrow> StompMessagebus \<times> unit outcome" where
  "stomp_SendMessage net m message queue =
     (case stomp_do net (StompSend queue ''text/plain'' message []) m of
        (m', None) \<Rightarrow> (m', Ok ())
      | (m', Some e) \<Rightarrow> (m', Err e))"

definition stomp_ReceiveMessage ::
  "stomp_net \<Rightarrow> StompMessagebus \<Rightarrow> nat \<Rightarrow> string \<Rightarrow> StompMessagebus \<times> unit outcome" where
  "stomp_ReceiveMessage net m message queue =
     (case stomp_do net (StompSubscribe queue) m of
        (m', None) \<Rightarrow> (m'\<lparr>sm_subs := sm_subs m' @ [(length (sm_log m), queue, message)]\<rparr>, Ok ())
      | (m', Some e) \<Rightarrow> (m', Err e))"

text \<open>What a subscription's channel delivers: a body, an error, or nil when it is closed.\<close>

datatype stomp_delivery = StompBody string | StompErr | StompNil

fun stomp_RecieveLoop :: "stomp_delivery list \<Rightarrow> string list \<times> loop_end" where
  "stomp_RecieveLoop [] = ([], StillReading)"
| "stomp_RecieveLoop (StompNil # ds) = ([], LoopClosed)"
| "stomp_RecieveLoop (StompErr # ds) = stomp_RecieveLoop ds"
| "stomp_RecieveLoop (StompBody s # ds) =
     (case stomp_RecieveLoop ds of (out, e) \<Rightarrow> (s # out, e))"

definition stomp_Close :: "stomp_net \<Rightarrow> StompMessagebus \<Rightarrow> StompMessagebus \<times> gerror option" where
  "stomp_Close net m =
     stomp_do net StompDisconnect
       (fold (\<lambda>sub m. fst (stomp_do net (StompUnsubscribe (fst sub)) m)) (sm_subs m) m)"

definition StompSubscription_Close ::
  "stomp_net \<Rightarrow> bool \<Rightarrow> nat \<Rightarrow> StompMessagebus \<Rightarrow> StompMessagebus \<times> gerror option" where
  "StompSubscription_Close net active sub m =
     (if \<not> active then (m, None) else stomp_do net (StompUnsubscribe sub) m)"

definition stomp_ops :: "stomp_net \<Rightarrow> StompMessagebus bus_ops" where
  "stomp_ops net = \<lparr>send_msg = stomp_SendMessage net, recv_msg = stomp_ReceiveMessage net\<rparr>"

fun stomp_sent :: "stomp_history \<Rightarrow> string \<Rightarrow> string list" where
  "stomp_sent [] q = []"
| "stomp_sent ((StompSend q' t m h, None) # hs) q = (if q' = q then m # stomp_sent hs q else stomp_sent hs q)"
| "stomp_sent (h # hs) q = stomp_sent hs q"

lemma stomp_sent_append [simp]: "stomp_sent (xs @ ys) q = stomp_sent xs q @ stomp_sent ys q"
  by (induction xs q rule: stomp_sent.induct) auto

lemma stomp_sent_fun: "stomp_sent (xs @ [(c, r)]) =
    (case (c, r) of (StompSend q t m h, None) \<Rightarrow> (stomp_sent xs)(q := stomp_sent xs q @ [m]) | _ \<Rightarrow> stomp_sent xs)"
  by (auto simp: fun_eq_iff split: stomp_call.split option.split)

interpretation stomp: message_bus "stomp_ops net" "\<lambda>b. stomp_sent (sm_log b)" "\<lambda>q. q"
  for net
  by unfold_locales
    (auto simp: stomp_ops_def stomp_SendMessage_def stomp_ReceiveMessage_def stomp_do_def Let_def
      stomp_sent_fun split: option.splits)

subsection \<open>Properties\<close>

definition is_write :: "kafka_call \<times> kafka_error option \<Rightarrow> bool" where
  "is_write h = (case fst h of Write t c m hdrs \<Rightarrow> True | _ \<Rightarrow> False)"

text \<open>C14: sending to Kafka, whatever the network does: the message is tried at most twice; a
  nil error means the broker has acknowledged it exactly once, on the topic of the queue and
  on no other; any error means it has not; and the process exits, always with status 1, only
  after a write has failed with an error that calls for a restart. It never panics.\<close>

theorem kafka_send_outcome:
  assumes "kafka_SendMessage net m msg q = (m', r)"
  shows "\<exists>calls. kb_log m' = kb_log m @ calls \<and> length (filter is_write calls) \<le> 2 \<and>
    (case r of
       Ok u \<Rightarrow> written (kb_log m') = (written (kb_log m))(kafka_topic q := written (kb_log m) (kafka_topic q) @ [msg])
     | Err e \<Rightarrow> written (kb_log m') = written (kb_log m)
     | Panic w \<Rightarrow> False
     | Exit n \<Rightarrow> n = 1 \<and> written (kb_log m') = written (kb_log m)
         \<and> (\<exists>c e. (Write (kafka_topic q) c msg [], Some e) \<in> set calls \<and> shouldRestartOnErr (Some e)))"
proof -
  have w: "written (kb_log m') = (if r = Ok () then (written (kb_log m))(kafka_topic q := written (kb_log m) (kafka_topic q) @ [msg])
     else written (kb_log m))"
    using kafka_send_written assms unfolding kafka_SendMessage_def by blast
  have "\<exists>calls. kb_log m' = kb_log m @ calls \<and> length (filter is_write calls) \<le> 2
    \<and> (\<forall>p. r \<noteq> Panic p) \<and> (\<forall>n. r = Exit n \<longrightarrow> n = 1
         \<and> (\<exists>c e. (Write (kafka_topic q) c msg [], Some e) \<in> set calls \<and> shouldRestartOnErr (Some e)))"
    using assms
    by (auto simp: kafka_SendMessage_def kafka_send_def TopicConnect_def kafka_do_def drop_stale_def Let_def
        is_write_def split: option.splits if_splits) blast+
  with w show ?thesis by (cases r) auto
qed

text \<open>A network where every write on the first connection fails because it was reset.\<close>

definition stale_first :: kafka_net where
  "stale_first history c =
     (case c of Write t 0 m h \<Rightarrow> Some (KOther ''write tcp: Connection reset by peer'') | _ \<Rightarrow> None)"

theorem kafka_send_outcome_witness:
  "\<exists>m' calls. kafka_SendMessage stale_first
       \<lparr>kb_conns = [''_q'' \<mapsto> 0], kb_addr = ''kafka:9092'', kb_tls = None, kb_subs = [], kb_log = [(Dial ''_q'', None)]\<rparr>
       ''hello'' ''/q'' = (m', Ok ())
     \<and> written (kb_log m') ''_q'' = [''hello''] \<and> length (filter is_write calls) \<le> 2
     \<and> kb_log m' = (Dial ''_q'', None) # calls"
proof -
  let ?m = "\<lparr>kb_conns = [''_q'' \<mapsto> 0], kb_addr = ''kafka:9092'', kb_tls = None, kb_subs = [], kb_log = [(Dial ''_q'', None)]\<rparr>"
  have t: "kafka_topic ''/q'' = ''_q''" by (simp add: kafka_topic_def replace_all.simps)
  have r: "shouldRestartOnErr (Some (KOther ''write tcp: Connection reset by peer''))"
    by (simp add: shouldRestartOnErr_def lower_eval to_lower_char_def)
  obtain m' where m': "kafka_SendMessage stale_first ?m ''hello'' ''/q'' = (m', Ok ())"
    by (simp add: kafka_SendMessage_def kafka_send_def TopicConnect_def kafka_do_def drop_stale_def
        stale_first_def t r Let_def)
  from kafka_send_outcome [OF this] m' show ?thesis by (fastforce simp: t)
qed

text \<open>C37: an outage of some topics does not stop a broadcast: over a Kafka broker that
  refuses connections to any set of topics, \<open>SendGroup\<close> returns without error, and every
  topic gets the group once for each receiver it stands for that has, or can get, a
  connection, and nothing else.\<close>

theorem SendGroup_survives_outage:
  "\<exists>d'. SendGroup (kafka_ops (refusing down)) d g = (d', Ok ()) \<and> db_Recievers d' = db_Recievers d \<and>
    (\<forall>t. \<exists>ms. written (kb_log (bs_Bus (db_Base d'))) t = written (kb_log (bs_Bus (db_Base d))) t @ ms
       \<and> length ms = length (filter (\<lambda>q. kafka_topic q = t \<and> reachable_topic down (bs_Bus (db_Base d)) q) (db_Recievers d))
       \<and> decode_groups (fst (listen_filtered DATAGROUP (map Message ms))) = replicate (length ms) g)"
proof -
  from kafka_down.send_to_all_sent [of down g "db_Recievers d" "bs_Bus (db_Base d)"] obtain b' where
    b': "send_to_all (kafka_ops (refusing down)) g (db_Recievers d) (bs_Bus (db_Base d)) = (b', Ok ())"
    and ms: "\<forall>t. \<exists>ms. written (kb_log b') t = written (kb_log (bs_Bus (db_Base d))) t @ ms
      \<and> length ms = length (filter (\<lambda>q. kafka_topic q = t \<and> reachable_topic down (bs_Bus (db_Base d)) q) (db_Recievers d))
      \<and> (\<forall>m\<in>set ms. DecodeEnvelope m = (group_envelope g, None))" by blast
  let ?d = "d\<lparr>db_Base := (db_Base d)\<lparr>bs_Bus := b'\<rparr>\<rparr>"
  show ?thesis
    using b' ms received_groups [of _ g] by (intro exI [of _ ?d]) (fastforce simp: SendGroup_def)
qed

end
