(* ===== verification/Discovery.thy ===== *)
theory Discovery
  imports Auth
begin

text \<open>
  \<^verbatim>\<open>internal/disc/disc.go\<close> and \<^verbatim>\<open>internal/state/state.go\<close>, whose commands are bare JSON
  objects rather than envelopes, and the two programs that feed the authorization event
  queue from a configuration file: \<^verbatim>\<open>cmd/simpledisc/simpledisc.go\<close> announces the services
  the file lists, \<^verbatim>\<open>cmd/simpleauth/simpleauth.go\<close> adds credentials to the services announced
  and broadcasts them.

  Sends started in goroutines of their own are modelled in the order they are started.
\<close>

subsection \<open>Discovery messages\<close>

record DiscService =
  ds_ServiceType :: int
  ds_Ip :: string

record NameCommand =
  nc_Command :: string

definition disc_CommandQueue :: string where "disc_CommandQueue = ''/discovery/command''"
definition disc_EventQueue :: string where "disc_EventQueue = ''/discovery''"
definition disc_RESEND :: string where "disc_RESEND = ''resend''"
definition disc_TERMINATE :: string where "disc_TERMINATE = ''terminate''"

definition enc_disc_service :: "DiscService \<Rightarrow> json" where
  "enc_disc_service s = JObj [(''serviceType'', enc_int (ds_ServiceType s)), (''ip'', JStr (ds_Ip s))]"

definition disc_service_field :: "string \<Rightarrow> DiscService dec" where
  "disc_service_field k =
     (if equal_fold k ''serviceType'' then dec_field dec_int ds_ServiceType (\<lambda>v. ds_ServiceType_update (\<lambda>_. v))
      else if equal_fold k ''ip'' then dec_field dec_string ds_Ip (\<lambda>v. ds_Ip_update (\<lambda>_. v))
      else (\<lambda>j x. (x, True)))"

definition dec_disc_service :: "DiscService dec" where
  "dec_disc_service = dec_struct disc_service_field"

definition enc_name_command :: "NameCommand \<Rightarrow> json" where
  "enc_name_command c = JObj [(''command'', JStr (nc_Command c))]"

definition name_command_field :: "string \<Rightarrow> NameCommand dec" where
  "name_command_field k =
     (if equal_fold k ''command'' then dec_field dec_string nc_Command (\<lambda>v. nc_Command_update (\<lambda>_. v))
      else (\<lambda>j x. (x, True)))"

definition dec_name_command :: "NameCommand dec" where
  "dec_name_command = dec_struct name_command_field"

subsection \<open>Discovery service and client\<close>

definition SendService :: "'b bus_ops \<Rightarrow> 'b \<Rightarrow> DiscService \<Rightarrow> 'b \<times> unit outcome" where
  "SendService ops b service = send_msg ops b (json_print (enc_disc_service service)) disc_EventQueue"

text \<open>A message that does not decode still yields a command, with what could be read of it.\<close>

definition disc_ReceiveCommand :: "'b bus_ops \<Rightarrow> nat \<Rightarrow> 'b \<Rightarrow> string list \<Rightarrow> 'b \<times> NameCommand list" where
  "disc_ReceiveCommand ops ch b messages =
     (fst (recv_msg ops b ch disc_CommandQueue),
      map (\<lambda>m. fst (unmarshal dec_name_command m \<lparr>nc_Command = []\<rparr>)) messages)"

definition disc_SendCommand :: "'b bus_ops \<Rightarrow> 'b \<Rightarrow> NameCommand \<Rightarrow> 'b" where
  "disc_SendCommand ops b command = fst (send_msg ops b (json_print (enc_name_command command)) disc_CommandQueue)"

definition disc_SendCommandString :: "'b bus_ops \<Rightarrow> 'b \<Rightarrow> string \<Rightarrow> 'b" where
  "disc_SendCommandString ops b command = disc_SendCommand ops b \<lparr>nc_Command = command\<rparr>"

definition disc_ResendAll :: "'b bus_ops \<Rightarrow> 'b \<Rightarrow> 'b" where
  "disc_ResendAll ops b = disc_SendCommandString ops b disc_RESEND"

definition disc_GetService :: "'b bus_ops \<Rightarrow> nat \<Rightarrow> 'b \<Rightarrow> string list \<Rightarrow> 'b \<times> DiscService list" where
  "disc_GetService ops ch b messages =
     (fst (recv_msg ops b ch disc_EventQueue),
      map (\<lambda>m. fst (unmarshal dec_disc_service m \<lparr>ds_ServiceType = 0, ds_Ip = []\<rparr>)) messages)"

subsection \<open>State service and client\<close>

definition state_CommandQueue :: string where "state_CommandQueue = ''/status/command''"
definition state_EventQueue :: string where "state_EventQueue = ''/status''"
definition UPDATESERVICESTATUS :: string where "UPDATESERVICESTATUS = ''updateservicestatus''"
definition UPDATESERVICEITEMSTATUS :: string where "UPDATESERVICEITEMSTATUS = ''updateserviceitemstatus''"

text \<open>The first message that does not decode ends the loop: the commands before it and the error.\<close>

fun state_commands :: "string list \<Rightarrow> NameCommand list \<times> gerror option" where
  "state_commands [] = ([], None)"
| "state_commands (message # messages) =
     (case unmarshal dec_name_command message \<lparr>nc_Command = []\<rparr> of
        (command, Some e) \<Rightarrow> ([], Some e)
      | (command, None) \<Rightarrow>
          (case state_commands messages of (cs, e) \<Rightarrow> (command # cs, e)))"

definition state_ReceiveCommand ::
  "'b bus_ops \<Rightarrow> nat \<Rightarrow> 'b \<Rightarrow> string list \<Rightarrow> 'b \<times> NameCommand list \<times> gerror option" where
  "state_ReceiveCommand ops ch b messages = (fst (recv_msg ops b ch state_CommandQueue), state_commands messages)"

definition state_SendCommand :: "'b bus_ops \<Rightarrow> 'b \<Rightarrow> NameCommand \<Rightarrow> 'b \<times> unit outcome" where
  "state_SendCommand ops b command = send_msg ops b (json_print (enc_name_command command)) state_CommandQueue"

definition state_SendCommandString :: "'b bus_ops \<Rightarrow> 'b \<Rightarrow> string \<Rightarrow> 'b" where
  "state_SendCommandString ops b command = fst (state_SendCommand ops b \<lparr>nc_Command = command\<rparr>)"

text \<open>The service and the item passed in are not part of the command.\<close>

definition UpdateServiceStatus :: "'b bus_ops \<Rightarrow> 'b \<Rightarrow> AuthService \<Rightarrow> 'b \<times> unit outcome" where
  "UpdateServiceStatus ops b service = state_SendCommand ops b \<lparr>nc_Command = UPDATESERVICESTATUS\<rparr>"

definition UpdateServiceItemStatus :: "'b bus_ops \<Rightarrow> 'b \<Rightarrow> ServiceItem \<Rightarrow> 'b \<times> unit outcome" where
  "UpdateServiceItemStatus ops b si = state_SendCommand ops b \<lparr>nc_Command = UPDATESERVICEITEMSTATUS\<rparr>"

subsection \<open>simpledisc\<close>

definition service_type_of :: "string \<Rightarrow> int" where
  "service_type_of element =
     (if equal_fold element ''MSM'' then MSM
      else if equal_fold element ''EC'' then EC
      else if equal_fold element ''iDRAC'' then IDRAC
      else UNKNOWN)"

text \<open>The two lists of the file; a type without an address is an index out of range.\<close>

fun simpledisc_services :: "string list \<Rightarrow> string list \<Rightarrow> DiscService list outcome" where
  "simpledisc_services [] ips = Ok []"
| "simpledisc_services (t # ts) [] = Panic ''index out of range''"
| "simpledisc_services (t # ts) (ip # ips) =
     outcome_bind (simpledisc_services ts ips)
       (\<lambda>ss. Ok (\<lparr>ds_ServiceType = service_type_of t, ds_Ip = ip\<rparr> # ss))"

definition send_services :: "'b bus_ops \<Rightarrow> DiscService list \<Rightarrow> 'b \<Rightarrow> 'b" where
  "send_services ops services b = fold (\<lambda>s b. fst (SendService ops b s)) services b"

fun simpledisc_loop :: "'b bus_ops \<Rightarrow> DiscService list \<Rightarrow> NameCommand list \<Rightarrow> 'b \<Rightarrow> 'b \<times> unit outcome" where
  "simpledisc_loop ops services [] b = (b, Ok ())"
| "simpledisc_loop ops services (command # commands) b =
     (if nc_Command command = disc_RESEND then simpledisc_loop ops services commands (send_services ops services b)
      else if nc_Command command = disc_TERMINATE then (b, Exit 0)
      else simpledisc_loop ops services commands b)"

definition simpledisc_main ::
  "'b bus_ops \<Rightarrow> nat \<Rightarrow> string list \<Rightarrow> string list \<Rightarrow> string list \<Rightarrow> 'b \<Rightarrow> 'b \<times> unit outcome" where
  "simpledisc_main ops ch types ips messages b =
     (case simpledisc_services types ips of
        Ok services \<Rightarrow>
          (case disc_ReceiveCommand ops ch (send_services ops services b) messages of
             (b', commands) \<Rightarrow> simpledisc_loop ops services commands b')
      | Err e \<Rightarrow> (b, Err e)
      | Panic w \<Rightarrow> (b, Panic w)
      | Exit n \<Rightarrow> (b, Exit n))"

subsection \<open>simpleauth\<close>

text \<open>
  \<open>section ip\<close> is the file's section for an address, as a map from keys to values.
  \<open>ssh host user password\<close> is a connection, as the output of each command run on it, or
  \<open>None\<close> when dialling fails; a session that cannot be made and a command that fails are
  \<open>None\<close> too. The second command appends to the buffer of the first.
\<close>

type_synonym ini_file = "string \<Rightarrow> (string \<Rightarrow> string option) option"
type_synonym ssh_host = "string \<Rightarrow> string \<Rightarrow> string \<Rightarrow> (string \<Rightarrow> string option) option"

definition must_string :: "(string \<Rightarrow> string option) \<Rightarrow> string \<Rightarrow> string" where
  "must_string sec k = (case sec k of None \<Rightarrow> [] | Some v \<Rightarrow> v)"

definition ec_token :: "ssh_host \<Rightarrow> DiscService \<Rightarrow> (string \<Rightarrow> string option) \<Rightarrow> string option outcome" where
  "ec_token ssh service devconfig =
     (let host = (if contains (ds_Ip service) '':'' then hd (split_str '':'' (ds_Ip service)) else ds_Ip service) in
      case ssh (host @ '':22'') (must_string devconfig ''username'') (must_string devconfig ''password'') of
        None \<Rightarrow> Ok None
      | Some run \<Rightarrow>
          (case run ''/usr/bin/hapitest -e'' of
             None \<Rightarrow> Ok None
           | Some out1 \<Rightarrow>
               (if \<not> contains out1 ''Local  EC Active State   = 1'' then Ok None
                else (case run ''/usr/bin/oauthtest token'' of
                        None \<Rightarrow> Ok None
                      | Some out2 \<Rightarrow>
                          (case split_str ''Local device token : '' (out1 @ out2) of
                             _ # part # _ \<Rightarrow> Ok (Some (trim_space part))
                           | _ \<Rightarrow> Panic ''index out of range'')))))"

text \<open>The service to broadcast for an announced one; \<open>None\<close> is a \<open>continue\<close> of the loop.\<close>

definition simpleauth_service :: "ini_file \<Rightarrow> ssh_host \<Rightarrow> DiscService \<Rightarrow> AuthService option outcome" where
  "simpleauth_service section ssh service =
     (case section (ds_Ip service) of
        None \<Rightarrow> Ok None
      | Some devconfig \<Rightarrow>
          (let s = zero_service\<lparr>svc_ServiceType := ds_ServiceType service, svc_Ip := ds_Ip service\<rparr> in
           if svc_ServiceType s = EC then
             outcome_bind (ec_token ssh service devconfig)
               (\<lambda>t. Ok (map_option (\<lambda>tok. s\<lparr>svc_AuthType := AuthTypeBearerToken,
                                         svc_Auth := Some [(''token'', tok)]\<rparr>) t))
           else (case devconfig ''username'' of
                   None \<Rightarrow> Ok (Some s)
                 | Some user \<Rightarrow>
                     Ok (Some (s\<lparr>svc_AuthType := AuthTypeUsernamePassword,
                       svc_Auth := Some [(''password'', must_string devconfig ''password''),
                                         (''username'', user)]\<rparr>)))))"

text \<open>The state is the bus and the table \<open>authServices\<close>.\<close>

fun handleDiscServiceChannel ::
  "'b bus_ops \<Rightarrow> ini_file \<Rightarrow> ssh_host \<Rightarrow> DiscService list \<Rightarrow> 'b \<times> (string \<times> AuthService) list \<Rightarrow>
   ('b \<times> (string \<times> AuthService) list) \<times> unit outcome" where
  "handleDiscServiceChannel ops section ssh [] st = (st, Ok ())"
| "handleDiscServiceChannel ops section ssh (service # services) st =
     (case simpleauth_service section ssh service of
        Ok None \<Rightarrow> handleDiscServiceChannel ops section ssh services st
      | Ok (Some s) \<Rightarrow>
          handleDiscServiceChannel ops section ssh services
            (fst (BroadcastService ops (fst st) s), alist_put (ds_Ip service) s (snd st))
      | Err e \<Rightarrow> (st, Err e)
      | Panic w \<Rightarrow> (st, Panic w)
      | Exit n \<Rightarrow> (st, Exit n))"

definition simpleauth_resend :: "'b bus_ops \<Rightarrow> (string \<times> AuthService) list \<Rightarrow> 'b \<Rightarrow> 'b" where
  "simpleauth_resend ops services b = fold (\<lambda>e b. fst (BroadcastService ops b (snd e))) services b"

fun simpleauth_loop ::
  "'b bus_ops \<Rightarrow> Envelope list \<Rightarrow> 'b \<times> (string \<times> AuthService) list \<Rightarrow>
   ('b \<times> (string \<times> AuthService) list) \<times> unit outcome" where
  "simpleauth_loop ops [] st = (st, Ok ())"
| "simpleauth_loop ops (env # envs) st =
     (if env_type env = RESEND then
        simpleauth_loop ops envs (simpleauth_resend ops (snd st) (fst st), snd st)
      else if env_type env = TERMINATE then (st, Exit 0)
      else simpleauth_loop ops envs st)"

subsection \<open>Lemmas\<close>

lemma disc_field_simps [wire_simps]:
  "disc_service_field ''serviceType'' = dec_field dec_int ds_ServiceType (\<lambda>v. ds_ServiceType_update (\<lambda>_. v))"
  "disc_service_field ''ip'' = dec_field dec_string ds_Ip (\<lambda>v. ds_Ip_update (\<lambda>_. v))"
  "name_command_field ''command'' = dec_field dec_string nc_Command (\<lambda>v. nc_Command_update (\<lambda>_. v))"
  by (simp_all add: disc_service_field_def name_command_field_def fold_eval)

lemma unmarshal_disc_service:
  assumes "int64_ok (ds_ServiceType s)"
  shows "unmarshal dec_disc_service (json_print (enc_disc_service s)) \<lparr>ds_ServiceType = 0, ds_Ip = []\<rparr> = (s, None)"
proof (rule unmarshal_print)
  show "json_ok (enc_disc_service s)" by (simp add: enc_disc_service_def wire_simps)
  show "dec_disc_service (enc_disc_service s) \<lparr>ds_ServiceType = 0, ds_Ip = []\<rparr> = (s, True)"
    using assms by (simp add: dec_disc_service_def dec_struct_def enc_disc_service_def dec_field_def wire_simps int64_ok_def)
qed

lemma unmarshal_name_command:
  "unmarshal dec_name_command (json_print (enc_name_command c)) \<lparr>nc_Command = []\<rparr> = (c, None)"
proof (rule unmarshal_print)
  show "json_ok (enc_name_command c)" by (simp add: enc_name_command_def)
  show "dec_name_command (enc_name_command c) \<lparr>nc_Command = []\<rparr> = (c, True)"
    by (simp add: dec_name_command_def dec_struct_def enc_name_command_def dec_field_def wire_simps)
qed

lemma service_type_bounds: "int64_ok (service_type_of t)"
  by (simp add: service_type_of_def int64_ok_def int64_min_def int64_max_def MSM_def EC_def IDRAC_def UNKNOWN_def)

lemma simpledisc_services_ok:
  "simpledisc_services ts ips = Ok ss \<Longrightarrow> \<forall>s\<in>set ss. int64_ok (ds_ServiceType s)"
  by (induction ts ips arbitrary: ss rule: simpledisc_services.induct)
     (auto simp: outcome_bind_Ok_iff service_type_bounds)

lemma mock_send_services:
  "mb_sendError b = None \<Longrightarrow> mb_sendError (send_services mock_ops ss b) = None
     \<and> mb_queueMsgs (send_services mock_ops ss b) disc_EventQueue =
         mb_queueMsgs b disc_EventQueue @ map (\<lambda>s. json_print (enc_disc_service s)) ss"
proof (induction ss arbitrary: b)
  case (Cons s ss)
  obtain b' where b': "send_msg mock_ops b (json_print (enc_disc_service s)) disc_EventQueue = (b', Ok ())"
    "mb_sendError b' = None"
    using mock.send_up [of b "json_print (enc_disc_service s)" disc_EventQueue] Cons.prems by (auto simp: fun_eq_iff)
  with mock.send_ok [OF b'(1)] Cons.IH [of b'] show ?case
    by (simp add: send_services_def SendService_def)
qed (simp add: send_services_def)

lemma mock_simpleauth_resend:
  "mb_sendError b = None \<Longrightarrow> \<forall>e\<in>set es. service_ok (snd e) \<Longrightarrow>
     \<exists>ms. mb_queueMsgs (simpleauth_resend mock_ops es b) =
            (mb_queueMsgs b)(auth_EventQueue := mb_queueMsgs b auth_EventQueue @ ms)
        \<and> mb_sendError (simpleauth_resend mock_ops es b) = None
        \<and> decode_services (fst (listen_filtered SERVICE (map Message ms))) = map snd es"
proof (induction es arbitrary: b)
  case (Cons e es)
  from mock.service_SendTo_up [of "enc_service (snd e)" b auth_EventQueue SERVICE] Cons.prems obtain b1 m where
    b1: "BroadcastService mock_ops b (snd e) = (b1, Ok ())" "mb_sendError b1 = None"
      "mb_queueMsgs b1 = (mb_queueMsgs b)(auth_EventQueue := mb_queueMsgs b auth_EventQueue @ [m])"
    and m: "DecodeEnvelope m = (empty_envelope\<lparr>env_type := SERVICE, env_payload := json_print (enc_service (snd e))\<rparr>, None)"
    by (auto simp: BroadcastService_def service_SendTo_def wire_simps fun_eq_iff)
  have d: "DecodePayload (json_print (enc_service (snd e))) (Some dec_service) zero_service = (snd e, None)"
    using DecodePayload_print [of "enc_service (snd e)" dec_service zero_service "snd e"] Cons.prems by (simp add: wire_simps)
  have "\<forall>e\<in>set es. service_ok (snd e)" using Cons.prems by simp
  from Cons.IH [OF b1(2) this] obtain ms where
    "mb_queueMsgs (simpleauth_resend mock_ops es b1) = (mb_queueMsgs b1)(auth_EventQueue := mb_queueMsgs b1 auth_EventQueue @ ms)"
    "mb_sendError (simpleauth_resend mock_ops es b1) = None"
    "decode_services (fst (listen_filtered SERVICE (map Message ms))) = map snd es" by blast
  with b1 m d show ?case
    by (intro exI [of _ "m # ms"]) (simp add: simpleauth_resend_def case_prod_beta)
qed (auto simp: simpleauth_resend_def intro: exI [of _ "[]"])

lemma handleDisc_invariant:
  "handleDiscServiceChannel ops section ssh services (b, es) = ((b', es'), r) \<Longrightarrow>
     distinct (map fst es) \<and> (\<forall>(ip, s)\<in>set es. svc_Ip s = ip) \<Longrightarrow>
     distinct (map fst es') \<and> (\<forall>(ip, s)\<in>set es'. svc_Ip s = ip)"
proof (induction services arbitrary: b es)
  case (Cons service services)
  have ip: "simpleauth_service section ssh service = Ok (Some s) \<Longrightarrow> svc_Ip s = ds_Ip service" for s
    by (auto simp: simpleauth_service_def Let_def outcome_bind_Ok_iff split: option.splits if_splits)
  have put: "\<forall>(ip, s)\<in>set (alist_put k v es). svc_Ip s = ip" if "svc_Ip v = k" "\<forall>(ip, s)\<in>set es. svc_Ip s = ip" for k v and es :: "(string \<times> AuthService) list"
    using that by (induction k v es rule: alist_put.induct) auto
  show ?case
  proof (cases "\<exists>s. simpleauth_service section ssh service = Ok (Some s)")
    case True
    then obtain s where s: "simpleauth_service section ssh service = Ok (Some s)" by blast
    have "distinct (map fst (alist_put (ds_Ip service) s es))" using Cons.prems(2) by simp
    moreover have "\<forall>(ip, s)\<in>set (alist_put (ds_Ip service) s es). svc_Ip s = ip"
      using put [OF ip [OF s]] Cons.prems(2) by blast
    ultimately show ?thesis
      using Cons.IH [of "fst (BroadcastService ops b s)" "alist_put (ds_Ip service) s es"] Cons.prems(1) s by simp
  next
    case False
    with Cons show ?thesis by (auto split: outcome.splits option.splits)
  qed
qed auto

subsection \<open>Properties\<close>

text \<open>The file's service list reaches the discovery clients: when every type has an
  address, the messages \<open>simpledisc\<close> sends first, in the order of the file, are read by the
  discovery client as exactly the services of the file; a missing address panics.\<close>

theorem simpledisc_announces:
  assumes "mb_sendError b = None"
  shows "(length types \<le> length ips \<longrightarrow> (\<exists>services ms.
      simpledisc_services types ips = Ok services
      \<and> mb_queueMsgs (send_services mock_ops services b) disc_EventQueue = mb_queueMsgs b disc_EventQueue @ ms
      \<and> snd (disc_GetService mock_ops ch b ms) = services
      \<and> map ds_Ip services = take (length types) ips \<and> map ds_ServiceType services = map service_type_of types))
    \<and> (length ips < length types \<longrightarrow> is_panic (simpledisc_services types ips))"
proof
  have services: "length types \<le> length ips \<Longrightarrow> \<exists>ss. simpledisc_services types ips = Ok ss
      \<and> map ds_Ip ss = take (length types) ips \<and> map ds_ServiceType ss = map service_type_of types"
    by (induction types ips rule: simpledisc_services.induct) auto
  show "length types \<le> length ips \<longrightarrow> (\<exists>services ms.
      simpledisc_services types ips = Ok services
      \<and> mb_queueMsgs (send_services mock_ops services b) disc_EventQueue = mb_queueMsgs b disc_EventQueue @ ms
      \<and> snd (disc_GetService mock_ops ch b ms) = services
      \<and> map ds_Ip services = take (length types) ips \<and> map ds_ServiceType services = map service_type_of types)"
  proof
    assume "length types \<le> length ips"
    with services obtain ss where ss: "simpledisc_services types ips = Ok ss"
      "map ds_Ip ss = take (length types) ips" "map ds_ServiceType ss = map service_type_of types" by blast
    let ?ms = "map (\<lambda>s. json_print (enc_disc_service s)) ss"
    have "snd (disc_GetService mock_ops ch b ?ms) = ss"
      using simpledisc_services_ok [OF ss(1)] by (simp add: disc_GetService_def unmarshal_disc_service map_idI)
    with ss mock_send_services [OF assms, of ss]
    show "\<exists>services ms. simpledisc_services types ips = Ok services
      \<and> mb_queueMsgs (send_services mock_ops services b) disc_EventQueue = mb_queueMsgs b disc_EventQueue @ ms
      \<and> snd (disc_GetService mock_ops ch b ms) = services
      \<and> map ds_Ip services = take (length types) ips \<and> map ds_ServiceType services = map service_type_of types"
      by (intro exI [of _ ss] exI [of _ ?ms]) simp
  qed
  have "length ips < length types \<Longrightarrow> is_panic (simpledisc_services types ips)"
  proof (induction types ips rule: simpledisc_services.induct)
    case (3 t ts ip ips)
    then show ?case by (cases "simpledisc_services ts ips") auto
  qed auto
  then show "length ips < length types \<longrightarrow> is_panic (simpledisc_services types ips)" by blast
qed

theorem simpledisc_announces_witness:
  "\<exists>services ms. simpledisc_services [''idrac'', ''MSM''] [''10.0.0.1'', ''10.0.0.2''] = Ok services
     \<and> mb_queueMsgs (send_services mock_ops services NewMockMessageBus) disc_EventQueue = ms
     \<and> snd (disc_GetService mock_ops 0 NewMockMessageBus ms) = services \<and> services \<noteq> []"
proof -
  have "mb_sendError NewMockMessageBus = None" and q: "mb_queueMsgs NewMockMessageBus disc_EventQueue = []"
    by (simp_all add: NewMockMessageBus_def)
  from simpledisc_announces [OF this(1), of "[''idrac'', ''MSM'']" "[''10.0.0.1'', ''10.0.0.2'']" 0] q
  show ?thesis by fastforce
qed

text \<open>The table of authorized services of \<open>simpleauth\<close>: whatever services are announced
  and however the file and the remote hosts answer, every address has one entry, whose
  service has that address; and a \<open>resend\<close> command broadcasts exactly the services of the
  table, once each.\<close>

theorem simpleauth_resends_table:
  assumes "handleDiscServiceChannel ops section ssh services (b, []) = ((b', table), r)"
    and "mb_sendError m = None" and "\<forall>e\<in>set table. service_ok (snd e)"
  shows "distinct (map fst table) \<and> map fst table = map (\<lambda>e. svc_Ip (snd e)) table
    \<and> (\<exists>ms. mb_queueMsgs (fst (fst (simpleauth_loop mock_ops [empty_envelope\<lparr>env_type := RESEND\<rparr>] (m, table))))
          = (mb_queueMsgs m)(auth_EventQueue := mb_queueMsgs m auth_EventQueue @ ms)
        \<and> decode_services (fst (listen_filtered SERVICE (map Message ms))) = map snd table)"
proof -
  have "distinct (map fst table) \<and> (\<forall>(ip, s)\<in>set table. svc_Ip s = ip)"
    using handleDisc_invariant [OF assms(1)] by simp
  then have "distinct (map fst table) \<and> map fst table = map (\<lambda>e. svc_Ip (snd e)) table" by auto
  moreover from mock_simpleauth_resend [OF assms(2,3)] obtain ms where
    "mb_queueMsgs (simpleauth_resend mock_ops table m) = (mb_queueMsgs m)(auth_EventQueue := mb_queueMsgs m auth_EventQueue @ ms)"
    "decode_services (fst (listen_filtered SERVICE (map Message ms))) = map snd table" by blast
  ultimately show ?thesis by auto
qed

theorem simpleauth_resends_table_witness:
  "\<exists>b' table. handleDiscServiceChannel mock_ops (\<lambda>ip. Some [''username'' \<mapsto> ''root'', ''password'' \<mapsto> ''calvin'']) (\<lambda>h u p. None)
       [\<lparr>ds_ServiceType = IDRAC, ds_Ip = ''10.0.0.1''\<rparr>] (NewMockMessageBus, []) = ((b', table), Ok ())
     \<and> map fst table = [''10.0.0.1'']
     \<and> (\<exists>ms. decode_services (fst (listen_filtered SERVICE (map Message ms))) = map snd table)"
proof -
  let ?s = "zero_service\<lparr>svc_ServiceType := IDRAC, svc_Ip := ''10.0.0.1'', svc_AuthType := AuthTypeUsernamePassword,
       svc_Auth := Some [(''password'', ''calvin''), (''username'', ''root'')]\<rparr>"
  let ?b = "fst (BroadcastService mock_ops NewMockMessageBus ?s)"
  have h: "handleDiscServiceChannel mock_ops (\<lambda>ip. Some [''username'' \<mapsto> ''root'', ''password'' \<mapsto> ''calvin'']) (\<lambda>h u p. None)
       [\<lparr>ds_ServiceType = IDRAC, ds_Ip = ''10.0.0.1''\<rparr>] (NewMockMessageBus, []) = ((?b, [(''10.0.0.1'', ?s)]), Ok ())"
    by (simp add: simpleauth_service_def zero_service_def IDRAC_def EC_def must_string_def Let_def)
  have "service_ok ?s"
    by (simp add: service_ok_def zero_service_def int64_ok_def int64_min_def int64_max_def IDRAC_def AuthTypeUsernamePassword_def)
  then have "\<forall>e\<in>set [(''10.0.0.1'', ?s)]. service_ok (snd e)" by simp
  moreover have "mb_sendError NewMockMessageBus = None" by (simp add: NewMockMessageBus_def)
  ultimately obtain ms where "decode_services (fst (listen_filtered SERVICE (map Message ms))) = map snd [(''10.0.0.1'', ?s)]"
    using simpleauth_resends_table [OF h, of NewMockMessageBus] by blast
  with h show ?thesis by (intro exI [of _ ?b] exI [of _ "[(''10.0.0.1'', ?s)]"]) (simp del: handleDiscServiceChannel.simps, blast)
qed

end
