(* ===== verification/Config.thy ===== *)
theory Config
  imports Service
begin

text \<open>
  \<^verbatim>\<open>internal/config/config.go\<close> and \<^verbatim>\<open>pkg/config/config.go\<close>: the configuration service,
  which reads and sets the named properties of a pump on request, and its client.

  The setters and getters are closures over the state \<open>'s\<close> of the pump. A value
  (\<open>interface{}\<close>) is its JSON form, nil is \<open>JNull\<close>. The entries are listed in the order the
  map is traversed.
\<close>

subsection \<open>Data\<close>

record 's ConfigEntry =
  ce_Set :: "string \<Rightarrow> json \<Rightarrow> 's \<Rightarrow> 's \<times> unit outcome"
  ce_Get :: "string \<Rightarrow> 's \<Rightarrow> json outcome"
  ce_Default :: json

definition GETPROPS :: string where "GETPROPS = ''getprops''"
definition GET :: string where "GET = ''get''"
definition SET :: string where "SET = ''set''"
definition RESET :: string where "RESET = ''reset''"

record ConfigCommand =
  cmd_Command :: string
  cmd_ResponseQueue :: string
  cmd_Property :: string
  cmd_Value :: json

definition zero_command :: ConfigCommand where
  "zero_command = \<lparr>cmd_Command = [], cmd_ResponseQueue = [], cmd_Property = [], cmd_Value = JNull\<rparr>"

record ConfigResponse =
  rsp_Command :: string
  rsp_Property :: string
  rsp_Value :: json
  rsp_Error :: "gerror option"

definition zero_response :: ConfigResponse where
  "zero_response = \<lparr>rsp_Command = [], rsp_Property = [], rsp_Value = JNull, rsp_Error = None\<rparr>"

definition opt_any :: "string \<Rightarrow> json \<Rightarrow> (string \<times> json) list" where
  "opt_any k j = (if j = JNull then [] else [(k, j)])"

definition enc_command :: "ConfigCommand \<Rightarrow> json" where
  "enc_command c =
     JObj ([(''command'', JStr (cmd_Command c)), (''ReceiveQueue'', JStr (cmd_ResponseQueue c))]
           @ opt_str ''property'' (cmd_Property c) @ opt_any ''value'' (cmd_Value c))"

definition command_field :: "string \<Rightarrow> ConfigCommand dec" where
  "command_field k =
     (if equal_fold k ''command'' then dec_field dec_string cmd_Command (\<lambda>v. cmd_Command_update (\<lambda>_. v))
      else if equal_fold k ''ReceiveQueue'' then
        dec_field dec_string cmd_ResponseQueue (\<lambda>v. cmd_ResponseQueue_update (\<lambda>_. v))
      else if equal_fold k ''property'' then dec_field dec_string cmd_Property (\<lambda>v. cmd_Property_update (\<lambda>_. v))
      else if equal_fold k ''value'' then dec_field dec_any cmd_Value (\<lambda>v. cmd_Value_update (\<lambda>_. v))
      else (\<lambda>j x. (x, True)))"

definition dec_command :: "ConfigCommand dec" where
  "dec_command = dec_struct command_field"

text \<open>
  An error made by \<open>errors.New\<close> or \<open>fmt.Errorf\<close> has no exported field, so its JSON form is
  the empty object; and no JSON value but null can be decoded into an \<open>error\<close>.
\<close>

definition enc_response :: "ConfigResponse \<Rightarrow> json" where
  "enc_response r =
     JObj ([(''command'', JStr (rsp_Command r))] @ opt_str ''property'' (rsp_Property r)
           @ opt_any ''value'' (rsp_Value r)
           @ (case rsp_Error r of None \<Rightarrow> [] | Some e \<Rightarrow> [(''error'', JObj [])]))"

definition dec_error :: "gerror option dec" where
  "dec_error j old = (case j of JNull \<Rightarrow> (None, True) | _ \<Rightarrow> (old, False))"

definition response_field :: "string \<Rightarrow> ConfigResponse dec" where
  "response_field k =
     (if equal_fold k ''command'' then dec_field dec_string rsp_Command (\<lambda>v. rsp_Command_update (\<lambda>_. v))
      else if equal_fold k ''property'' then dec_field dec_string rsp_Property (\<lambda>v. rsp_Property_update (\<lambda>_. v))
      else if equal_fold k ''value'' then dec_field dec_any rsp_Value (\<lambda>v. rsp_Value_update (\<lambda>_. v))
      else if equal_fold k ''error'' then dec_field dec_error rsp_Error (\<lambda>v. rsp_Error_update (\<lambda>_. v))
      else (\<lambda>j x. (x, True)))"

definition dec_response :: "ConfigResponse dec" where
  "dec_response = dec_struct response_field"

subsection \<open>The service\<close>

record ('b, 's) ConfigService =
  cs_Entries :: "(string \<times> 's ConfigEntry) list"
  cs_CommandQueue :: string
  cs_Bus :: 'b
  cs_State :: 's

definition NewConfigService ::
  "'b \<Rightarrow> string \<Rightarrow> (string \<times> 's ConfigEntry) list \<Rightarrow> 's \<Rightarrow> ('b, 's) ConfigService" where
  "NewConfigService bus commandQueue entries s =
     \<lparr>cs_Entries = entries, cs_CommandQueue = commandQueue, cs_Bus = bus, cs_State = s\<rparr>"

text \<open>Sending a response: an error is only logged.\<close>

definition config_reply ::
  "'b bus_ops \<Rightarrow> json \<Rightarrow> ConfigCommand \<Rightarrow> ('b, 's) ConfigService \<Rightarrow> ('b, 's) ConfigService \<times> unit outcome" where
  "config_reply ops j command d =
     (case send_msg ops (cs_Bus d) (json_print j) (cmd_ResponseQueue command) of
        (b, Ok u) \<Rightarrow> (d\<lparr>cs_Bus := b\<rparr>, Ok ())
      | (b, Err e) \<Rightarrow> (d\<lparr>cs_Bus := b\<rparr>, Ok ())
      | (b, Panic w) \<Rightarrow> (d\<lparr>cs_Bus := b\<rparr>, Panic w)
      | (b, Exit n) \<Rightarrow> (d\<lparr>cs_Bus := b\<rparr>, Exit n))"

definition not_found :: "string \<Rightarrow> gerror" where
  "not_found name = ''Could not find property named '' @ name"

definition config_GetProperties ::
  "'b bus_ops \<Rightarrow> ConfigCommand \<Rightarrow> ('b, 's) ConfigService \<Rightarrow> ('b, 's) ConfigService \<times> unit outcome" where
  "config_GetProperties ops command d =
     config_reply ops (JArr (map (\<lambda>e. JStr (fst e)) (cs_Entries d))) command d"

definition config_Get ::
  "'b bus_ops \<Rightarrow> ConfigCommand \<Rightarrow> ('b, 's) ConfigService \<Rightarrow> ('b, 's) ConfigService \<times> unit outcome" where
  "config_Get ops command d =
     (let resp = zero_response\<lparr>rsp_Command := cmd_Command command\<rparr> in
      case map_of (cs_Entries d) (cmd_Property command) of
        None \<Rightarrow>
          config_reply ops (enc_response (resp\<lparr>rsp_Error := Some (not_found (cmd_Property command))\<rparr>)) command d
      | Some entry \<Rightarrow>
          (case ce_Get entry (cmd_Property command) (cs_State d) of
             Ok v \<Rightarrow> config_reply ops (enc_response (resp\<lparr>rsp_Value := v\<rparr>)) command d
           | Err e \<Rightarrow> config_reply ops (enc_response (resp\<lparr>rsp_Error := Some e\<rparr>)) command d
           | Panic w \<Rightarrow> (d, Panic w)
           | Exit n \<Rightarrow> (d, Exit n)))"

text \<open>\<open>Set\<close> and \<open>Reset\<close> differ in the value they give to the setter.\<close>

definition config_assign ::
  "'b bus_ops \<Rightarrow> ('s ConfigEntry \<Rightarrow> json) \<Rightarrow> ConfigCommand \<Rightarrow> ('b, 's) ConfigService \<Rightarrow>
   ('b, 's) ConfigService \<times> unit outcome" where
  "config_assign ops val command d =
     (let resp = zero_response\<lparr>rsp_Command := cmd_Command command\<rparr> in
      case map_of (cs_Entries d) (cmd_Property command) of
        None \<Rightarrow>
          config_reply ops (enc_response (resp\<lparr>rsp_Error := Some (not_found (cmd_Property command))\<rparr>)) command d
      | Some entry \<Rightarrow>
          (case ce_Set entry (cmd_Property command) (val entry) (cs_State d) of
             (s, Ok u) \<Rightarrow>
               config_reply ops (enc_response (resp\<lparr>rsp_Value := val entry\<rparr>)) command (d\<lparr>cs_State := s\<rparr>)
           | (s, Err e) \<Rightarrow>
               config_reply ops (enc_response (resp\<lparr>rsp_Error := Some e\<rparr>)) command (d\<lparr>cs_State := s\<rparr>)
           | (s, Panic w) \<Rightarrow> (d\<lparr>cs_State := s\<rparr>, Panic w)
           | (s, Exit n) \<Rightarrow> (d\<lparr>cs_State := s\<rparr>, Exit n)))"

definition config_Set ::
  "'b bus_ops \<Rightarrow> ConfigCommand \<Rightarrow> ('b, 's) ConfigService \<Rightarrow> ('b, 's) ConfigService \<times> unit outcome" where
  "config_Set ops command d = config_assign ops (\<lambda>entry. cmd_Value command) command d"

definition config_Reset ::
  "'b bus_ops \<Rightarrow> ConfigCommand \<Rightarrow> ('b, 's) ConfigService \<Rightarrow> ('b, 's) ConfigService \<times> unit outcome" where
  "config_Reset ops command d = config_assign ops ce_Default command d"

text \<open>One turn of \<open>Run\<close>: a message that does not decode is still dispatched on whatever
  command has been read from it.\<close>

definition config_message ::
  "'b bus_ops \<Rightarrow> string \<Rightarrow> ('b, 's) ConfigService \<Rightarrow> ('b, 's) ConfigService \<times> unit outcome" where
  "config_message ops message d =
     (let command = fst (unmarshal dec_command message zero_command) in
      if cmd_Command command = GETPROPS then config_GetProperties ops command d
      else if cmd_Command command = GET then config_Get ops command d
      else if cmd_Command command = SET then config_Set ops command d
      else if cmd_Command command = RESET then config_Reset ops command d
      else (d, Ok ()))"

fun config_run ::
  "'b bus_ops \<Rightarrow> string list \<Rightarrow> ('b, 's) ConfigService \<Rightarrow> ('b, 's) ConfigService \<times> unit outcome" where
  "config_run ops [] d = (d, Ok ())"
| "config_run ops (message # messages) d =
     (case config_message ops message d of
        (d', Ok u) \<Rightarrow> config_run ops messages d'
      | (d', r) \<Rightarrow> (d', r))"

definition config_Run ::
  "'b bus_ops \<Rightarrow> nat \<Rightarrow> string list \<Rightarrow> ('b, 's) ConfigService \<Rightarrow> ('b, 's) ConfigService \<times> unit outcome" where
  "config_Run ops ch messages d =
     config_run ops messages (d\<lparr>cs_Bus := fst (recv_msg ops (cs_Bus d) ch (cs_CommandQueue d))\<rparr>)"

subsection \<open>The client\<close>

record 'b ConfigClient =
  cc_Bus :: 'b
  cc_CommandQueue :: string
  cc_ResponseQueue :: string

definition NewConfigClient :: "'b \<Rightarrow> string \<Rightarrow> string \<Rightarrow> 'b ConfigClient" where
  "NewConfigClient bus commandQueue responseQueue =
     \<lparr>cc_Bus = bus, cc_CommandQueue = commandQueue, cc_ResponseQueue = responseQueue\<rparr>"

definition NewConfigClientWithBus :: "'b \<Rightarrow> 'b ConfigClient" where
  "NewConfigClientWithBus mb = \<lparr>cc_Bus = mb, cc_CommandQueue = [], cc_ResponseQueue = []\<rparr>"

definition config_SendCommand ::
  "'b bus_ops \<Rightarrow> ConfigCommand \<Rightarrow> 'b ConfigClient \<Rightarrow> 'b ConfigClient \<times> unit outcome" where
  "config_SendCommand ops command d =
     (case send_msg ops (cc_Bus d) (json_print (enc_command command)) (cc_CommandQueue d) of
        (b, r) \<Rightarrow> (d\<lparr>cc_Bus := b\<rparr>, r))"

text \<open>\<open>arrival\<close> is the first message on the response queue; the call blocks until there is one.\<close>

definition ReadOneMessage ::
  "'b bus_ops \<Rightarrow> nat \<Rightarrow> string \<Rightarrow> 'b ConfigClient \<Rightarrow> 'b ConfigClient \<times> string" where
  "ReadOneMessage ops ch arrival d =
     (case recv_msg ops (cc_Bus d) ch (cc_ResponseQueue d) of
        (b, Ok u) \<Rightarrow> (d\<lparr>cc_Bus := b\<rparr>, arrival)
      | (b, r) \<Rightarrow> (d\<lparr>cc_Bus := b\<rparr>, []))"

definition config_request ::
  "'b bus_ops \<Rightarrow> nat \<Rightarrow> string \<Rightarrow> 'a dec \<Rightarrow> 'a \<Rightarrow> ConfigCommand \<Rightarrow> 'b ConfigClient \<Rightarrow> 'b ConfigClient \<times> 'a outcome" where
  "config_request ops ch arrival dc z command d =
     (case config_SendCommand ops command d of
        (d1, Ok u) \<Rightarrow>
          (case ReadOneMessage ops ch arrival d1 of
             (d2, message) \<Rightarrow>
               (case unmarshal dc message z of
                  (v, Some e) \<Rightarrow> (d2, Err e)
                | (v, None) \<Rightarrow> (d2, Ok v)))
      | (d1, Err e) \<Rightarrow> (d1, Err e)
      | (d1, Panic w) \<Rightarrow> (d1, Panic w)
      | (d1, Exit n) \<Rightarrow> (d1, Exit n))"

definition configclient_GetProperties ::
  "'b bus_ops \<Rightarrow> nat \<Rightarrow> string \<Rightarrow> 'b ConfigClient \<Rightarrow> 'b ConfigClient \<times> string list outcome" where
  "configclient_GetProperties ops ch arrival d =
     config_request ops ch arrival (dec_list dec_string []) []
       (zero_command\<lparr>cmd_Command := GETPROPS, cmd_ResponseQueue := cc_ResponseQueue d\<rparr>) d"

definition configclient_Get ::
  "'b bus_ops \<Rightarrow> nat \<Rightarrow> string \<Rightarrow> string \<Rightarrow> 'b ConfigClient \<Rightarrow> 'b ConfigClient \<times> ConfigResponse outcome" where
  "configclient_Get ops ch arrival name d =
     config_request ops ch arrival dec_response zero_response
       (zero_command\<lparr>cmd_Command := GET, cmd_ResponseQueue := cc_ResponseQueue d, cmd_Property := name\<rparr>) d"

definition configclient_Set ::
  "'b bus_ops \<Rightarrow> nat \<Rightarrow> string \<Rightarrow> string \<Rightarrow> json \<Rightarrow> 'b ConfigClient \<Rightarrow> 'b ConfigClient \<times> ConfigResponse outcome" where
  "configclient_Set ops ch arrival name val d =
     config_request ops ch arrival dec_response zero_response
       \<lparr>cmd_Command = SET, cmd_ResponseQueue = cc_ResponseQueue d, cmd_Property = name, cmd_Value = val\<rparr> d"

definition configclient_Reset ::
  "'b bus_ops \<Rightarrow> nat \<Rightarrow> string \<Rightarrow> string \<Rightarrow> 'b ConfigClient \<Rightarrow> 'b ConfigClient \<times> ConfigResponse outcome" where
  "configclient_Reset ops ch arrival name d =
     config_request ops ch arrival dec_response zero_response
       (zero_command\<lparr>cmd_Command := RESET, cmd_ResponseQueue := cc_ResponseQueue d, cmd_Property := name\<rparr>) d"

subsection \<open>Lemmas\<close>

lemma command_names [wire_simps]:
  "command_field ''command'' = dec_field dec_string cmd_Command (\<lambda>v. cmd_Command_update (\<lambda>_. v))"
  "command_field ''ReceiveQueue'' = dec_field dec_string cmd_ResponseQueue (\<lambda>v. cmd_ResponseQueue_update (\<lambda>_. v))"
  "command_field ''property'' = dec_field dec_string cmd_Property (\<lambda>v. cmd_Property_update (\<lambda>_. v))"
  "command_field ''value'' = dec_field dec_any cmd_Value (\<lambda>v. cmd_Value_update (\<lambda>_. v))"
  by (simp_all add: command_field_def fold_eval)

lemma response_names [wire_simps]:
  "response_field ''command'' = dec_field dec_string rsp_Command (\<lambda>v. rsp_Command_update (\<lambda>_. v))"
  "response_field ''property'' = dec_field dec_string rsp_Property (\<lambda>v. rsp_Property_update (\<lambda>_. v))"
  "response_field ''value'' = dec_field dec_any rsp_Value (\<lambda>v. rsp_Value_update (\<lambda>_. v))"
  "response_field ''error'' = dec_field dec_error rsp_Error (\<lambda>v. rsp_Error_update (\<lambda>_. v))"
  by (simp_all add: response_field_def fold_eval)

lemma dec_enc_command: "dec_command (enc_command c) zero_command = (c, True)"
  by (cases c) (simp add: dec_command_def dec_struct_def enc_command_def zero_command_def opt_str_def opt_any_def
      dec_field_def wire_simps)

lemma dec_enc_response:
  "dec_response (enc_response r) zero_response = (r\<lparr>rsp_Error := None\<rparr>, rsp_Error r = None)"
  by (cases r) (simp add: dec_response_def dec_struct_def enc_response_def zero_response_def opt_str_def opt_any_def
      dec_field_def wire_simps dec_error_def split: option.split)

lemma json_ok_enc_config [wire_simps]:
  "json_ok (cmd_Value c) \<Longrightarrow> json_ok (enc_command c)" "json_ok (rsp_Value r) \<Longrightarrow> json_ok (enc_response r)"
  by (auto simp: enc_command_def enc_response_def opt_str_def opt_any_def split: option.split)

lemma mock_config_reply:
  assumes "mb_sendError (cs_Bus d) = None"
  shows "\<exists>d'. config_reply mock_ops j command d = (d', Ok ()) \<and> cs_State d' = cs_State d
    \<and> mb_queueMsgs (cs_Bus d') (cmd_ResponseQueue command)
        = mb_queueMsgs (cs_Bus d) (cmd_ResponseQueue command) @ [json_print j]"
  using mock.send_up [of "cs_Bus d" "json_print j" "cmd_ResponseQueue command"] mock.send_ok assms
  by (fastforce simp: config_reply_def)

lemma config_message_Set:
  assumes "json_ok (cmd_Value c)" and "cmd_Command c = SET"
  shows "config_message ops (json_print (enc_command c)) d = config_Set ops c d"
  using unmarshal_print [of "enc_command c" dec_command zero_command c] assms
  by (simp add: config_message_def wire_simps dec_enc_command GETPROPS_def GET_def SET_def)

lemma mock_config_request:
  assumes "mb_sendError (cc_Bus d) = None"
  shows "\<exists>d'. config_request mock_ops ch arrival dc z command d =
      (d', case unmarshal dc arrival z of (v, Some e) \<Rightarrow> Err e | (v, None) \<Rightarrow> Ok v)
    \<and> mb_queueMsgs (cc_Bus d') (cc_CommandQueue d)
        = mb_queueMsgs (cc_Bus d) (cc_CommandQueue d) @ [json_print (enc_command command)]"
proof -
  from mock.send_up [of "cc_Bus d" "json_print (enc_command command)" "cc_CommandQueue d"] assms obtain b where
    b: "send_msg mock_ops (cc_Bus d) (json_print (enc_command command)) (cc_CommandQueue d) = (b, Ok ())" by auto
  have "mb_queueMsgs (fst (mock_ReceiveMessage b ch (cc_ResponseQueue d))) = mb_queueMsgs b"
    using mock.recv_sent [of b ch "cc_ResponseQueue d"] by (simp add: mock_ops_def)
  with b mock.send_ok [OF b] show ?thesis
    by (auto simp: config_request_def config_SendCommand_def ReadOneMessage_def mock_ops_def mock_ReceiveMessage_def
        split: prod.splits option.splits)
qed

text \<open>A \<open>Set\<close> whose handling comes down to the response \<open>resp\<close>.\<close>

lemma mock_config_set:
  assumes "mb_sendError (cc_Bus cc) = None" and "mb_sendError (cs_Bus d) = None" and "json_ok val"
    and c: "c = \<lparr>cmd_Command = SET, cmd_ResponseQueue = cc_ResponseQueue cc, cmd_Property = name, cmd_Value = val\<rparr>"
    and set: "config_Set mock_ops c d = config_reply mock_ops (enc_response resp) c (d\<lparr>cs_State := s\<rparr>)"
    and "json_ok (rsp_Value resp)"
  shows "\<exists>m cc' d' r. configclient_Set mock_ops ch r name val cc =
        (cc', if rsp_Error resp = None then Ok resp else Err type_error)
    \<and> mb_queueMsgs (cc_Bus cc') (cc_CommandQueue cc) = mb_queueMsgs (cc_Bus cc) (cc_CommandQueue cc) @ [m]
    \<and> config_message mock_ops m d = (d', Ok ()) \<and> cs_State d' = s
    \<and> mb_queueMsgs (cs_Bus d') (cc_ResponseQueue cc) = mb_queueMsgs (cs_Bus d) (cc_ResponseQueue cc) @ [r]"
proof -
  let ?m = "json_print (enc_command c)" and ?r = "json_print (enc_response resp)"
  have "json_ok (enc_response resp)" using assms(6) by (rule json_ok_enc_config)
  then have dec: "unmarshal dec_response ?r zero_response
      = (resp\<lparr>rsp_Error := None\<rparr>, if rsp_Error resp = None then None else Some type_error)"
    by (simp add: unmarshal_def json_parse_print dec_enc_response)
  have res: "(case unmarshal dec_response ?r zero_response of (v, Some e) \<Rightarrow> Err e | (v, None) \<Rightarrow> Ok v)
      = (if rsp_Error resp = None then Ok resp else Err type_error)"
    by (simp add: dec)
  have run: "config_message mock_ops ?m d = config_Set mock_ops c d"
    by (rule config_message_Set) (simp_all add: assms(3) c)
  from mock_config_reply [of "d\<lparr>cs_State := s\<rparr>" "enc_response resp" c] assms(2) obtain d' where
    "config_reply mock_ops (enc_response resp) c (d\<lparr>cs_State := s\<rparr>) = (d', Ok ())" "cs_State d' = s"
    "mb_queueMsgs (cs_Bus d') (cc_ResponseQueue cc) = mb_queueMsgs (cs_Bus d) (cc_ResponseQueue cc) @ [?r]"
    by (auto simp: c)
  moreover from mock_config_request [OF assms(1), of ch ?r dec_response zero_response c] obtain cc' where
    "configclient_Set mock_ops ch ?r name val cc = (cc', if rsp_Error resp = None then Ok resp else Err type_error)"
    "mb_queueMsgs (cc_Bus cc') (cc_CommandQueue cc) = mb_queueMsgs (cc_Bus cc) (cc_CommandQueue cc) @ [?m]"
    using res by (auto simp: configclient_Set_def c)
  ultimately show ?thesis using run set
    by (intro exI [of _ ?m] exI [of _ cc'] exI [of _ d'] exI [of _ ?r]) simp
qed

subsection \<open>Properties\<close>

text \<open>Setting a property: the message a client's \<open>Set\<close> puts on its command queue makes
  the service run that property's setter with that value; when the setter succeeds the
  service keeps its new state, answers on the client's response queue, and the answer makes
  the client's call return the command and the value without error.\<close>

theorem config_set_reaches_setter:
  assumes "mb_sendError (cc_Bus cc) = None" and "mb_sendError (cs_Bus d) = None" and "json_ok val"
    and "map_of (cs_Entries d) name = Some entry" and "ce_Set entry name val (cs_State d) = (s, Ok ())"
  shows "\<exists>m cc' d' r. configclient_Set mock_ops ch r name val cc =
        (cc', Ok \<lparr>rsp_Command = SET, rsp_Property = [], rsp_Value = val, rsp_Error = None\<rparr>)
    \<and> mb_queueMsgs (cc_Bus cc') (cc_CommandQueue cc) = mb_queueMsgs (cc_Bus cc) (cc_CommandQueue cc) @ [m]
    \<and> config_message mock_ops m d = (d', Ok ()) \<and> cs_State d' = s
    \<and> mb_queueMsgs (cs_Bus d') (cc_ResponseQueue cc) = mb_queueMsgs (cs_Bus d) (cc_ResponseQueue cc) @ [r]"
  using mock_config_set [OF assms(1-3) refl,
      of name "zero_response\<lparr>rsp_Command := SET, rsp_Value := val\<rparr>" s ch] assms(3-5)
  by (simp add: config_Set_def config_assign_def zero_response_def)

theorem config_set_reaches_setter_witness:
  "\<exists>m cc' d' r. configclient_Set mock_ops 0 r ''kafkaTopic'' (JStr ''idrac'')
        (NewConfigClient NewMockMessageBus ''/kafkapump/config'' ''/kafkapump/config/response'') =
        (cc', Ok \<lparr>rsp_Command = SET, rsp_Property = [], rsp_Value = JStr ''idrac'', rsp_Error = None\<rparr>)
    \<and> config_message mock_ops m (NewConfigService NewMockMessageBus ''/kafkapump/config''
        [(''kafkaTopic'', \<lparr>ce_Set = (\<lambda>name v s. (case v of JStr t \<Rightarrow> (t, Ok ()) | _ \<Rightarrow> (s, Err ''type''))),
           ce_Get = (\<lambda>name s. Ok (JStr s)), ce_Default = JStr []\<rparr>)] ''old'') = (d', Ok ())
    \<and> cs_State d' = ''idrac''"
proof -
  let ?e = "\<lparr>ce_Set = (\<lambda>name v s. (case v of JStr t \<Rightarrow> (t, Ok ()) | _ \<Rightarrow> (s, Err ''type''))),
           ce_Get = (\<lambda>name s. Ok (JStr s)), ce_Default = JStr []\<rparr> :: string ConfigEntry"
  let ?cc = "NewConfigClient NewMockMessageBus ''/kafkapump/config'' ''/kafkapump/config/response''"
  let ?d = "NewConfigService NewMockMessageBus ''/kafkapump/config'' [(''kafkaTopic'', ?e)] ''old''"
  have "mb_sendError (cc_Bus ?cc) = None" "mb_sendError (cs_Bus ?d) = None" "json_ok (JStr ''idrac'')"
    "map_of (cs_Entries ?d) ''kafkaTopic'' = Some ?e"
    "ce_Set ?e ''kafkaTopic'' (JStr ''idrac'') (cs_State ?d) = (''idrac'', Ok ())"
    by (simp_all add: NewConfigClient_def NewConfigService_def NewMockMessageBus_def)
  from config_set_reaches_setter [OF this, of 0] show ?thesis by blast
qed

text \<open>A configuration error loses its reason: when the property does not exist, or its
  setter fails, the service answers, but its answer carries the error as an empty object,
  and the client's call fails with the decoder's own error, whatever the reason was.\<close>

theorem config_error_loses_reason:
  assumes "mb_sendError (cc_Bus cc) = None" and "mb_sendError (cs_Bus d) = None" and "json_ok val"
    and "map_of (cs_Entries d) name = Some entry \<Longrightarrow> \<exists>s e. ce_Set entry name val (cs_State d) = (s, Err e)"
    and "map_of (cs_Entries d) name = None \<or> map_of (cs_Entries d) name = Some entry"
  shows "\<exists>m cc' d' r. configclient_Set mock_ops ch r name val cc = (cc', Err type_error)
    \<and> mb_queueMsgs (cc_Bus cc') (cc_CommandQueue cc) = mb_queueMsgs (cc_Bus cc) (cc_CommandQueue cc) @ [m]
    \<and> config_message mock_ops m d = (d', Ok ())
    \<and> mb_queueMsgs (cs_Bus d') (cc_ResponseQueue cc) = mb_queueMsgs (cs_Bus d) (cc_ResponseQueue cc) @ [r]"
proof (cases "map_of (cs_Entries d) name")
  case None
  then show ?thesis
    using mock_config_set [OF assms(1-3) refl,
        of name "zero_response\<lparr>rsp_Command := SET, rsp_Error := Some (not_found name)\<rparr>" "cs_State d" ch]
    by (simp add: config_Set_def config_assign_def zero_response_def) blast
next
  case (Some entry')
  with assms(4,5) obtain s e where "ce_Set entry' name val (cs_State d) = (s, Err e)" by auto
  with Some show ?thesis
    using mock_config_set [OF assms(1-3) refl,
        of name "zero_response\<lparr>rsp_Command := SET, rsp_Error := Some e\<rparr>" s ch]
    by (simp add: config_Set_def config_assign_def zero_response_def) blast
qed

theorem config_error_loses_reason_witness:
  "\<exists>m cc' d' r. configclient_Set mock_ops 0 r ''nosuch'' (JStr ''x'')
        (NewConfigClient NewMockMessageBus ''/q'' ''/q/response'') = (cc', Err type_error)
    \<and> config_message mock_ops m (NewConfigService NewMockMessageBus ''/q'' [] ()) = (d', Ok ())
    \<and> mb_queueMsgs (cs_Bus d') ''/q/response'' = [r]"
proof -
  let ?cc = "NewConfigClient NewMockMessageBus ''/q'' ''/q/response''"
  let ?d = "NewConfigService NewMockMessageBus ''/q'' [] ()"
  have "mb_sendError (cc_Bus ?cc) = None" "mb_sendError (cs_Bus ?d) = None" "json_ok (JStr ''x'')"
    and n: "map_of (cs_Entries ?d) ''nosuch'' = None" and r: "cc_ResponseQueue ?cc = ''/q/response''"
    and q: "mb_queueMsgs (cs_Bus ?d) ''/q/response'' = []"
    by (simp_all add: NewConfigClient_def NewConfigService_def NewMockMessageBus_def)
  from config_error_loses_reason [OF this(1-3), of "''nosuch''" undefined 0] n r q show ?thesis
    by fastforce
qed

end
