(* ===== verification/FloatText.thy ===== *)
theory FloatText
  imports GoFloat
begin

text \<open>
  \<open>float64\<close> values as text: \<open>strconv.ParseFloat\<close>, which the pumps apply to metric values, and
  the number \<open>encoding/json\<close> writes for a float.

  A finite float is a sign, a mantissa and a binary exponent, as \<open>float64_of\<close> gives them.
\<close>

datatype float64 = NaN | Inf bool | Fin bool nat int

definition float_nat :: "nat \<Rightarrow> float64" where
  "float_nat n = (case float64_of n 1 of None \<Rightarrow> Inf False | Some (m, e) \<Rightarrow> Fin False m e)"

definition float_zero :: float64 where
  "float_zero = Fin False 0 0"

subsection \<open>Parsing\<close>

text \<open>Signed infinities and an unsigned not-a-number, in any case of letters.\<close>

definition special_float :: "string \<Rightarrow> float64 option" where
  "special_float s =
     (case s of
        [] \<Rightarrow> None
      | c # cs \<Rightarrow>
          (let signed = (c = CHR ''+'' \<or> c = CHR ''-''); u = to_lower (if signed then cs else s) in
           if u = ''inf'' \<or> u = ''infinity'' then Some (Inf (c = CHR ''-''))
           else if \<not> signed \<and> u = ''nan'' then Some NaN
           else None))"

text \<open>The mantissa: its digits as a number, the number of digits after the point, whether there
  was a point and whether there was a digit, and the rest of the text.\<close>

fun float_mantissa :: "bool \<Rightarrow> string \<Rightarrow> nat \<Rightarrow> nat \<Rightarrow> bool \<Rightarrow> bool \<Rightarrow> nat \<times> nat \<times> bool \<times> string" where
  "float_mantissa hex [] n k dot digits = (n, k, digits, [])"
| "float_mantissa hex (c # cs) n k dot digits =
     (if c = CHR ''_'' then float_mantissa hex cs n k dot digits
      else if c = CHR ''.'' then
        (if dot then (n, k, digits, c # cs) else float_mantissa hex cs n k True digits)
      else
        (case (if hex then hex_val c else digit_val c) of
           None \<Rightarrow> (n, k, digits, c # cs)
         | Some d \<Rightarrow> float_mantissa hex cs ((if hex then 16 else 10) * n + d) (if dot then k + 1 else k) dot True))"

text \<open>The digits of an exponent, which stops growing at ten thousand.\<close>

fun exponent_digits :: "string \<Rightarrow> nat \<Rightarrow> nat \<times> string" where
  "exponent_digits [] e = (e, [])"
| "exponent_digits (c # cs) e =
     (if c = CHR ''_'' then exponent_digits cs e
      else (case digit_val c of
              None \<Rightarrow> (e, c # cs)
            | Some d \<Rightarrow> exponent_digits cs (if e < 10000 then 10 * e + d else e)))"

definition float_exponent :: "string \<Rightarrow> (int \<times> string) option" where
  "float_exponent s =
     (let neg = (s \<noteq> [] \<and> hd s = CHR ''-''); signed = (neg \<or> s \<noteq> [] \<and> hd s = CHR ''+'');
          u = (if signed then tl s else s) in
      if u = [] \<or> \<not> is_digit (hd u) then None
      else (case exponent_digits u 0 of (e, r) \<Rightarrow> Some (if neg then - int e else int e, r)))"

text \<open>Underscores stand between digits, or between the prefix and a digit. \<open>saw\<close> is the last
  character seen: a digit, an underscore or anything else.\<close>

fun underscores_from :: "bool \<Rightarrow> char \<Rightarrow> string \<Rightarrow> bool" where
  "underscores_from hex saw [] = (saw \<noteq> CHR ''_'')"
| "underscores_from hex saw (c # cs) =
     (if (if hex then hex_val c \<noteq> None else is_digit c) then underscores_from hex CHR ''0'' cs
      else if c = CHR ''_'' then saw = CHR ''0'' \<and> underscores_from hex CHR ''_'' cs
      else saw \<noteq> CHR ''_'' \<and> underscores_from hex CHR ''!'' cs)"

definition underscores_ok :: "string \<Rightarrow> bool" where
  "underscores_ok s =
     (let u = (if s \<noteq> [] \<and> (hd s = CHR ''-'' \<or> hd s = CHR ''+'') then tl s else s) in
      (case u of
         z # x # r \<Rightarrow>
           (if z = CHR ''0'' \<and> to_lower_char x \<in> set ''box'' then
              underscores_from (to_lower_char x = CHR ''x'') CHR ''0'' r
            else underscores_from False CHR ''^'' u)
       | _ \<Rightarrow> underscores_from False CHR ''^'' u))"

definition scaled_float :: "bool \<Rightarrow> nat \<Rightarrow> nat \<Rightarrow> int \<Rightarrow> float64 \<times> bool" where
  "scaled_float neg n base e =
     (case (if 0 \<le> e then float64_of (n * base ^ nat e) 1 else float64_of n (base ^ nat (- e))) of
        None \<Rightarrow> (Inf neg, False)
      | Some (m, x) \<Rightarrow> (Fin neg m x, True))"

text \<open>\<open>strconv.ParseFloat(s, 64)\<close>: the value returned and whether the error is nil. A syntax error
  comes with zero, a value out of range with an infinity.\<close>

definition ParseFloat :: "string \<Rightarrow> float64 \<times> bool" where
  "ParseFloat s =
     (case special_float s of
        Some f \<Rightarrow> (f, True)
      | None \<Rightarrow>
          (let neg = (s \<noteq> [] \<and> hd s = CHR ''-''); signed = (neg \<or> s \<noteq> [] \<and> hd s = CHR ''+'');
               u = (if signed then tl s else s);
               hex = (2 < length u \<and> hd u = CHR ''0'' \<and> to_lower_char (u ! 1) = CHR ''x'');
               base = (if hex then CHR ''p'' else CHR ''e'') in
           case float_mantissa hex (if hex then drop 2 u else u) 0 0 False False of
             (n, k, digits, r) \<Rightarrow>
               (let ex = (case r of
                            c # cs \<Rightarrow> (if to_lower_char c = base then float_exponent cs
                                       else if hex then None else Some (0, r))
                          | [] \<Rightarrow> (if hex then None else Some (0, []))) in
                case ex of
                  Some (e, []) \<Rightarrow>
                    (if digits \<and> (CHR ''_'' \<in> set s \<longrightarrow> underscores_ok s) then
                       (if hex then scaled_float neg n 2 (e - 4 * int k)
                        else scaled_float neg n 10 (e - int k))
                     else (float_zero, False))
                | _ \<Rightarrow> (float_zero, False))))"

subsection \<open>Printing\<close>

text \<open>A positive float as a fraction, and its decimal exponent \<open>k\<close>:
  \<open>10 ^ (k - 1) \<le> p / q < 10 ^ k\<close>.\<close>

definition float_ratio :: "nat \<Rightarrow> int \<Rightarrow> nat \<times> nat" where
  "float_ratio m e = (if 0 \<le> e then (m * 2 ^ nat e, 1) else (m, 2 ^ nat (- e)))"

definition decimal_exp :: "nat \<Rightarrow> nat \<Rightarrow> int" where
  "decimal_exp p q =
     (if q \<le> p then int (length (nat_dec (p div q)))
      else (case find (\<lambda>j. q \<le> p * 10 ^ j) [1..<400] of None \<Rightarrow> 0 | Some j \<Rightarrow> 1 - int j))"

text \<open>The nearest decimals with \<open>n\<close> digits below and above, nearer one first, as multiples of
  \<open>10 ^ (k - n)\<close>.\<close>

definition candidates :: "nat \<Rightarrow> nat \<Rightarrow> int \<Rightarrow> nat list" where
  "candidates p q s =
     (let a = (if 0 \<le> s then p else p * 10 ^ nat (- s)); b = (if 0 \<le> s then q * 10 ^ nat s else q);
          lo = a div b; r = a mod b in
      if r = 0 then [lo] else if 2 * r \<le> b then [lo, lo + 1] else [lo + 1, lo])"

definition decimal_float :: "nat \<Rightarrow> int \<Rightarrow> (nat \<times> int) option" where
  "decimal_float c s = (if 0 \<le> s then float64_of (c * 10 ^ nat s) 1 else float64_of c (10 ^ nat (- s)))"

text \<open>The shortest decimal that is read back as the same float: its digits and the position of
  the point. Seventeen digits are always enough.\<close>

fun shortest_from :: "nat \<Rightarrow> int \<Rightarrow> nat \<Rightarrow> nat \<Rightarrow> int \<Rightarrow> nat list \<Rightarrow> nat \<times> int" where
  "shortest_from m e p q k [] = (p div q, 0)"
| "shortest_from m e p q k (n # ns) =
     (case find (\<lambda>c. decimal_float c (k - int n) = Some (m, e)) (candidates p q (k - int n)) of
        Some c \<Rightarrow> (c, k - int n)
      | None \<Rightarrow> shortest_from m e p q k ns)"

definition shortest_digits :: "nat \<Rightarrow> int \<Rightarrow> string \<times> int" where
  "shortest_digits m e =
     (case float_ratio m e of
        (p, q) \<Rightarrow>
          (case shortest_from m e p q (decimal_exp p q) [1..<18] of
             (c, s) \<Rightarrow>
               (let ds = nat_dec c; t = trim_right_char (CHR ''0'') ds in
                (if t = [] then ''0'' else t, s + int (length ds)))))"

text \<open>Plain notation: digits with the point after the first \<open>k\<close>.\<close>

definition plain_format :: "string \<Rightarrow> int \<Rightarrow> string" where
  "plain_format ds k =
     (if k \<le> 0 then ''0.'' @ replicate (nat (- k)) (CHR ''0'') @ ds
      else if int (length ds) \<le> k then ds @ replicate (nat k - length ds) (CHR ''0'')
      else take (nat k) ds @ ''.'' @ drop (nat k) ds)"

definition exp_format :: "string \<Rightarrow> int \<Rightarrow> string" where
  "exp_format ds k =
     take 1 ds @ (if length ds \<le> 1 then [] else ''.'' @ drop 1 ds)
     @ (if k - 1 < 0 then ''e-'' else ''e+'') @ nat_dec (nat \<bar>k - 1\<bar>)"

text \<open>What \<open>encoding/json\<close> writes: nothing (an error) for what is not a finite number; plain
  notation for zero and from one millionth, as a float, up to \<open>10 ^ 21\<close>.\<close>

definition below_millionth :: "nat \<Rightarrow> nat \<Rightarrow> bool" where
  "below_millionth p q =
     (case float64_of 1 1000000 of
        None \<Rightarrow> False
      | Some (m, e) \<Rightarrow> (case float_ratio m e of (p', q') \<Rightarrow> p * q' < p' * q))"

definition json_of_float :: "float64 \<Rightarrow> json option" where
  "json_of_float f =
     (case f of
        Fin neg m e \<Rightarrow>
          (let sign = (if neg then ''-'' else []) in
           if m = 0 then Some (JNum (sign @ ''0''))
           else (case (shortest_digits m e, float_ratio m e) of
                   ((ds, k), (p, q)) \<Rightarrow>
                     Some (JNum (sign @
                       (if below_millionth p q \<or> q * 10 ^ 21 \<le> p then exp_format ds k else plain_format ds k)))))
      | _ \<Rightarrow> None)"

subsection \<open>What is written is a number\<close>

lemma nat_dec_hd_zero: "hd (nat_dec c) = CHR ''0'' \<Longrightarrow> nat_dec c = ''0''"
  using canon_nat_dec [of c] by (simp add: canon_digits_def)

lemma nat_dec_all: "list_all is_digit (nat_dec c)"
  using nat_dec_digits [of c] by (simp add: list_all_iff)

lemma trim_right_prefix: "\<exists>z. s = trim_right_char c s @ z \<and> set z \<subseteq> {c}"
proof -
  have "s = rev (dropWhile (\<lambda>x. x = c) (rev s)) @ rev (takeWhile (\<lambda>x. x = c) (rev s))"
    by (simp add: rev_append [symmetric])
  moreover have "set (rev (takeWhile (\<lambda>x. x = c) (rev s))) \<subseteq> {c}" by (auto dest: set_takeWhileD)
  ultimately show ?thesis unfolding trim_right_char_def by blast
qed

lemma trimmed_hd:
  assumes "trim_right_char (CHR ''0'') (nat_dec c) \<noteq> []"
  shows "hd (trim_right_char (CHR ''0'') (nat_dec c)) \<noteq> CHR ''0''"
proof
  let ?t = "trim_right_char (CHR ''0'') (nat_dec c)"
  assume "hd ?t = CHR ''0''"
  with trim_right_prefix [of "nat_dec c" "CHR ''0''"] assms have "hd (nat_dec c) = CHR ''0''"
    by (metis hd_append2)
  then have "nat_dec c = ''0''" by (rule nat_dec_hd_zero)
  then have "?t = []" by (simp add: trim_right_char_def)
  with assms show False by simp
qed

lemma trimmed_Nil:
  assumes "trim_right_char (CHR ''0'') (nat_dec c) = []"
  shows "c = 0"
proof -
  from trim_right_prefix [of "nat_dec c" "CHR ''0''"] assms have "set (nat_dec c) \<subseteq> {CHR ''0''}" by auto
  moreover have "hd (nat_dec c) \<in> set (nat_dec c)" by (rule hd_in_set) (rule nat_dec_nonempty)
  ultimately have "hd (nat_dec c) = CHR ''0''" by blast
  then have "nat_dec c = ''0''" by (rule nat_dec_hd_zero)
  moreover have "nat_dec 0 = ''0''" by (simp add: nat_dec.simps [of 0] digit_char_0)
  ultimately have "nat_dec c = nat_dec 0" by (simp only:)
  then show ?thesis by (simp only: nat_dec_inj)
qed

lemma trimmed_digits:
  "canon_digits (if trim_right_char (CHR ''0'') (nat_dec c) = [] then ''0'' else trim_right_char (CHR ''0'') (nat_dec c))"
proof (cases "trim_right_char (CHR ''0'') (nat_dec c) = []")
  case False
  have "list_all is_digit (trim_right_char (CHR ''0'') (nat_dec c))"
    using nat_dec_all [of c] trim_right_prefix [of "nat_dec c" "CHR ''0''"] by (metis list_all_append)
  with False trimmed_hd [of c] show ?thesis by (simp add: canon_digits_def)
qed (simp add: canon_digits_def is_digit_def)

lemma list_all_zeros: "list_all is_digit (replicate n (CHR ''0''))"
  by (induction n) (simp_all add: is_digit_def)

lemma plain_format_lit:
  assumes "canon_digits ds" and "ds = ''0'' \<Longrightarrow> k \<le> 1"
  shows "num_lit (plain_format ds k) \<and> num_lit (CHR ''-'' # plain_format ds k)"
proof -
  have d: "ds \<noteq> []" "list_all is_digit ds" using assms(1) by (auto simp: canon_digits_def)
  consider "k \<le> 0" | "0 < k" "int (length ds) \<le> k" | "0 < k" "k < int (length ds)" by linarith
  then show ?thesis
  proof cases
    case 1
    have "canon_digits ''0''" by (simp add: canon_digits_def is_digit_def)
    moreover have "frac_part (''.'' @ replicate (nat (- k)) (CHR ''0'') @ ds)"
      using d list_all_zeros by (simp add: frac_part_def)
    ultimately show ?thesis
      using num_lit_parts [of "''0''" "''.'' @ replicate (nat (- k)) (CHR ''0'') @ ds" "[]"] 1
      by (simp add: plain_format_def exp_part_def)
  next
    case 2
    have "canon_digits (ds @ replicate (nat k - length ds) (CHR ''0''))"
    proof (cases "ds = ''0''")
      case True
      with assms 2 show ?thesis by simp
    next
      case False
      with assms(1) list_all_zeros show ?thesis by (auto simp: canon_digits_def)
    qed
    from num_lit_parts [OF this, of "[]" "[]"] 2 show ?thesis
      by (simp add: plain_format_def exp_part_def frac_part_def)
  next
    case 3
    then have n: "0 < nat k" "nat k < length ds" by linarith+
    have all: "list_all is_digit (take (nat k) ds)" "list_all is_digit (drop (nat k) ds)"
      using d(2) by (simp_all add: list_all_iff) (auto dest: in_set_takeD in_set_dropD)
    have "ds \<noteq> ''0''" using n by auto
    with assms(1) have "hd ds \<noteq> CHR ''0''" by (simp add: canon_digits_def)
    with n all have "canon_digits (take (nat k) ds)" by (auto simp: canon_digits_def)
    moreover have "frac_part (''.'' @ drop (nat k) ds)" using n all by (simp add: frac_part_def)
    ultimately show ?thesis
      using num_lit_parts [of "take (nat k) ds" "''.'' @ drop (nat k) ds" "[]"] 3
      by (simp add: plain_format_def exp_part_def)
  qed
qed

lemma exp_format_lit:
  assumes "canon_digits ds"
  shows "num_lit (exp_format ds k) \<and> num_lit (CHR ''-'' # exp_format ds k)"
proof -
  have d: "ds \<noteq> []" "list_all is_digit ds" using assms by (auto simp: canon_digits_def)
  obtain c cs where cs: "ds = c # cs" using d(1) by (cases ds) auto
  have "canon_digits (take 1 ds)" using d cs by (simp add: canon_digits_def)
  moreover have "frac_part (if length ds \<le> 1 then [] else ''.'' @ drop 1 ds)"
    using d cs by (auto simp: frac_part_def)
  moreover have "exp_part ((if k - 1 < 0 then ''e-'' else ''e+'') @ nat_dec (nat \<bar>k - 1\<bar>))"
    using nat_dec_all by (simp add: exp_part_def)
  ultimately show ?thesis unfolding exp_format_def by (blast intro: num_lit_parts)
qed

lemma find_SomeD: "find P xs = Some x \<Longrightarrow> P x"
  by (induction xs) (auto split: if_splits)

lemma shortest_nonzero:
  assumes "shortest_from m e p q k ns = (c, s)" and "0 < m" and "c = 0"
  shows "s = 0"
  using assms(1)
proof (induction ns)
  case (Cons n ns)
  have "decimal_float 0 s' \<noteq> Some (m, e)" for s' using assms(2) by (simp add: decimal_float_def float64_of_def)
  with Cons assms(3) show ?case by (auto split: option.splits dest!: find_SomeD)
qed simp

lemma shortest_digits_ok:
  assumes "shortest_digits m e = (ds, k)" and "0 < m"
  shows "canon_digits ds \<and> (ds = ''0'' \<longrightarrow> k \<le> 1)"
proof -
  obtain p q where pq: "float_ratio m e = (p, q)" by (cases "float_ratio m e")
  obtain c s where cs: "shortest_from m e p q (decimal_exp p q) [1..<18] = (c, s)"
    by (cases "shortest_from m e p q (decimal_exp p q) [1..<18]")
  let ?t = "trim_right_char (CHR ''0'') (nat_dec c)"
  have ds: "ds = (if ?t = [] then ''0'' else ?t)" and k: "k = s + int (length (nat_dec c))"
    using assms(1) unfolding shortest_digits_def pq prod.case cs Let_def by (simp_all only: prod.inject)
  have canon: "canon_digits ds" unfolding ds by (rule trimmed_digits)
  moreover have "k \<le> 1" if "ds = ''0''"
  proof -
    have "?t = []" using that ds trimmed_hd [of c] by (metis list.sel(1))
    then have "c = 0" by (rule trimmed_Nil)
    with shortest_nonzero [OF cs assms(2)] k show ?thesis by (simp add: nat_dec.simps [of 0])
  qed
  ultimately show ?thesis by simp
qed

text \<open>Every float that can be written is written as a JSON number.\<close>

lemma json_of_float_ok:
  assumes "json_of_float f = Some j"
  shows "json_ok j"
proof (cases f)
  case (Fin neg m e)
  show ?thesis
  proof (cases "m = 0")
    case True
    have "canon_digits ''0''" by (simp add: canon_digits_def is_digit_def)
    from num_lit_parts [OF this, of "[]" "[]"] assms Fin True show ?thesis
      by (auto simp: json_of_float_def frac_part_def exp_part_def)
  next
    case False
    obtain ds k where ds: "shortest_digits m e = (ds, k)" by (cases "shortest_digits m e")
    obtain p q where pq: "float_ratio m e = (p, q)" by (cases "float_ratio m e")
    from shortest_digits_ok [OF ds] False have "canon_digits ds" "ds = ''0'' \<longrightarrow> k \<le> 1" by simp_all
    with plain_format_lit [of ds k] exp_format_lit [of ds k] assms Fin False ds pq show ?thesis
      by (auto simp: json_of_float_def Let_def split: if_splits)
  qed
qed (use assms in \<open>simp_all add: json_of_float_def\<close>)

end
