(* ===== verification/Pumps.thy ===== *)
theory Pumps
  imports Config Databus FloatText
begin

text \<open>
  What the pumps (\<^verbatim>\<open>cmd/*pump\<close>) share: the table of settings with its defaults and
  environment overrides, the setters and getters of the configuration service over it, the
  subscription to the data bus, and the reading of time stamps and values.
\<close>

subsection \<open>Settings\<close>

text \<open>\<open>configStrings\<close>; reading a key that is not there gives the empty string.\<close>

type_synonym settings = "(string \<times> string) list"

definition setting :: "settings \<Rightarrow> string \<Rightarrow> string" where
  "setting c k = (case map_of c k of None \<Rightarrow> [] | Some v \<Rightarrow> v)"

definition set_nonempty :: "string \<Rightarrow> string \<Rightarrow> settings \<Rightarrow> settings" where
  "set_nonempty k v c = (if v \<noteq> [] then alist_put k v c else c)"

text \<open>The environment variables of \<open>getEnvSettings\<close>, each with the key it overrides.\<close>

definition env_override :: "(string \<Rightarrow> string) \<Rightarrow> (string \<times> string) list \<Rightarrow> settings \<Rightarrow> settings" where
  "env_override env vars c = fold (\<lambda>(var, key). set_nonempty key (env var)) vars c"

definition bus_vars :: "(string \<times> string) list" where
  "bus_vars = [(''MESSAGEBUS_HOST'', ''mbhost''), (''MESSAGEBUS_PORT'', ''mbport'')]"

definition bus_defaults :: settings where
  "bus_defaults = [(''mbhost'', ''activemq''), (''mbport'', ''61613'')]"

text \<open>The setter asserts that the value is a string.\<close>

definition string_setter :: "string list \<Rightarrow> string \<Rightarrow> string \<Rightarrow> json \<Rightarrow> settings \<Rightarrow> settings \<times> unit outcome" where
  "string_setter names unknown name val c =
     (if name \<in> set names then
        (case val of
           JStr v \<Rightarrow> (alist_put name v c, Ok ())
         | _ \<Rightarrow> (c, Panic ''interface conversion: not a string''))
      else (c, Err (unknown @ name)))"

definition string_getter :: "string list \<Rightarrow> string \<Rightarrow> string \<Rightarrow> settings \<Rightarrow> json outcome" where
  "string_getter names unknown name c =
     (if name \<in> set names then Ok (JStr (setting c name)) else Err (unknown @ name))"

text \<open>A table of configuration items: every name with its default.\<close>

definition string_items :: "string \<Rightarrow> (string \<times> string) list \<Rightarrow> (string \<times> settings ConfigEntry) list" where
  "string_items unknown items =
     map (\<lambda>(name, d). (name, \<lparr>ce_Set = string_setter (map fst items) unknown,
                             ce_Get = string_getter (map fst items) unknown, ce_Default = JStr d\<rparr>)) items"

subsection \<open>The data bus\<close>

text \<open>\<open>Subscribe\<close> and \<open>Get\<close>, whose errors are not looked at.\<close>

definition pump_subscribe :: "'b bus_ops \<Rightarrow> string \<Rightarrow> ('b BaseClient, unit) go" where
  "pump_subscribe ops queue =
     (let get = tryS (\<lambda>bc. databus_Get ops bc queue) (\<lambda>u. liftS (Ok ())) (\<lambda>e. liftS (Ok ())) in
      tryS (\<lambda>bc. Subscribe ops bc queue) (\<lambda>u. get) (\<lambda>e. get))"

text \<open>A bus whose sends succeed or return an error.\<close>

definition answers :: "'b bus_ops \<Rightarrow> bool" where
  "answers ops \<longleftrightarrow> (\<forall>b m q b' r. send_msg ops b m q = (b', r) \<longrightarrow> r = Ok () \<or> (\<exists>e. r = Err e))"

text \<open>A loop over the groups of the channel; \<open>handle\<close> is its body.\<close>

fun each_group :: "('g \<Rightarrow> ('s, unit) go) \<Rightarrow> 'g list \<Rightarrow> ('s, unit) go" where
  "each_group handle [] = liftS (Ok ())"
| "each_group handle (g # gs) = bindS (handle g) (\<lambda>u. each_group handle gs)"

subsection \<open>Readings\<close>

text \<open>A time stamp that is not RFC 3339 is tried again with the zone \<open>+0000\<close> written as \<open>Z\<close>.\<close>

definition reading_time :: "string \<Rightarrow> gotime option" where
  "reading_time ts =
     (case parse_rfc3339 ts of
        Some t \<Rightarrow> Some t
      | None \<Rightarrow> parse_rfc3339 (replace_all ''+0000'' ''Z'' ts))"

definition reading_name :: "DataValue \<Rightarrow> string" where
  "reading_name v = dv_Context v @ ''_'' @ dv_ID v"

definition is_pos_zero :: "float64 \<Rightarrow> bool" where
  "is_pos_zero f = (case f of Fin neg m e \<Rightarrow> \<not> neg \<and> m = 0 | _ \<Rightarrow> False)"

definition is_finite :: "float64 \<Rightarrow> bool" where
  "is_finite f = (case f of Fin neg m e \<Rightarrow> True | _ \<Rightarrow> False)"

text \<open>\<open>json.Marshal\<close> of a list, which fails when one element fails.\<close>

fun all_some :: "'a option list \<Rightarrow> 'a list option" where
  "all_some [] = Some []"
| "all_some (None # xs) = None"
| "all_some (Some x # xs) = map_option (Cons x) (all_some xs)"

subsection \<open>Lemmas\<close>

lemma setting_alist_put [simp]: "setting (alist_put k v c) k' = (if k' = k then v else setting c k')"
  by (simp add: setting_def)

lemma setting_set_nonempty [simp]:
  "setting (set_nonempty k v c) k' = (if k' = k \<and> v \<noteq> [] then v else setting c k')"
  by (simp add: set_nonempty_def)

text \<open>The last variable of a key that is set in the environment wins.\<close>

lemma setting_env_override:
  "setting (env_override env vars c) k =
     (case filter (\<lambda>(var, key). key = k \<and> env var \<noteq> []) (rev vars) of
        [] \<Rightarrow> setting c k
      | p # ps \<Rightarrow> env (fst p))"
  by (induction vars arbitrary: c rule: rev_induct)
    (auto simp: env_override_def split: list.splits if_splits)

lemma map_of_string_items:
  "map_of (string_items unknown items) name =
     map_option (\<lambda>d. \<lparr>ce_Set = string_setter (map fst items) unknown,
       ce_Get = string_getter (map fst items) unknown, ce_Default = JStr d\<rparr>) (map_of items name)"
proof -
  have "map_of (map (\<lambda>(name, d). (name, f d)) xs) name = map_option f (map_of xs name)" for f :: "string \<Rightarrow> 'c" and xs
    by (induction xs) auto
  then show ?thesis by (simp add: string_items_def)
qed

lemma all_some_map:
  "all_some (map f xs) = (if \<exists>x\<in>set xs. f x = None then None else Some (map (\<lambda>x. the (f x)) xs))"
proof (induction xs)
  case (Cons x xs)
  then show ?case by (cases "f x") auto
qed simp

lemma json_of_float_finite: "json_of_float f = None \<longleftrightarrow> \<not> is_finite f"
  by (auto simp: json_of_float_def is_finite_def Let_def split: float64.split prod.split)

lemma each_group_append:
  "each_group h (xs @ ys) s = bindS (each_group h xs) (\<lambda>u. each_group h ys) s"
proof (induction xs arbitrary: s)
  case (Cons x xs)
  then show ?case
    by (auto simp: bindS_def split: prod.splits outcome.splits)
qed (simp add: bindS_def liftS_def)

text \<open>The command a configuration client sends to set a property to a string, and the settings
  after the service has handled a sequence of them.\<close>

definition set_command :: "string \<Rightarrow> string \<times> string \<Rightarrow> string" where
  "set_command q p =
     json_print (enc_command \<lparr>cmd_Command = SET, cmd_ResponseQueue = q, cmd_Property = fst p,
       cmd_Value = JStr (snd p)\<rparr>)"

lemma set_command_handled:
  assumes "mb_sendError (cs_Bus d) = None" and "cs_Entries d = string_items unknown items"
    and "fst p \<in> fst ` set items"
  shows "\<exists>d'. config_message mock_ops (set_command q p) d = (d', Ok ())
    \<and> cs_State d' = alist_put (fst p) (snd p) (cs_State d)
    \<and> cs_Entries d' = cs_Entries d \<and> mb_sendError (cs_Bus d') = None"
proof -
  let ?c = "\<lparr>cmd_Command = SET, cmd_ResponseQueue = q, cmd_Property = fst p, cmd_Value = JStr (snd p)\<rparr>"
  have m: "config_message mock_ops (set_command q p) d = config_Set mock_ops ?c d"
    unfolding set_command_def by (rule config_message_Set) simp_all
  obtain v where v: "map_of items (fst p) = Some v"
    using assms(3) by (cases "map_of items (fst p)") (auto simp: map_of_eq_None_iff)
  let ?r = "zero_response\<lparr>rsp_Command := SET, rsp_Value := JStr (snd p)\<rparr>"
  let ?d = "d\<lparr>cs_State := alist_put (fst p) (snd p) (cs_State d)\<rparr>"
  have s: "config_Set mock_ops ?c d = config_reply mock_ops (enc_response ?r) ?c ?d"
    using assms(3) by (simp add: config_Set_def config_assign_def assms(2) map_of_string_items v string_setter_def)
  have "mb_sendError (cs_Bus ?d) = None" using assms(1) by simp
  then obtain b where b: "send_msg mock_ops (cs_Bus ?d) (json_print (enc_response ?r)) q = (b, Ok ())"
    and up: "mb_sendError b = None"
    using mock.send_up [of "cs_Bus ?d" "json_print (enc_response ?r)" q] by (auto simp: fun_eq_iff)
  then have "config_reply mock_ops (enc_response ?r) ?c ?d = (?d\<lparr>cs_Bus := b\<rparr>, Ok ())"
    by (simp add: config_reply_def)
  with m s up show ?thesis by simp
qed

lemma set_commands_handled:
  assumes "mb_sendError (cs_Bus d) = None" and "cs_Entries d = string_items unknown items"
    and "fst ` set sets \<subseteq> fst ` set items"
  shows "\<exists>d'. config_run mock_ops (map (set_command q) sets) d = (d', Ok ())
    \<and> cs_State d' = fold (\<lambda>p. alist_put (fst p) (snd p)) sets (cs_State d)
    \<and> cs_Entries d' = cs_Entries d \<and> mb_sendError (cs_Bus d') = None"
  using assms
proof (induction sets arbitrary: d)
  case (Cons p ps)
  then have "fst p \<in> fst ` set items" by simp
  from set_command_handled [OF Cons.prems(1,2) this, of q] obtain d1 where
    d1: "config_message mock_ops (set_command q p) d = (d1, Ok ())"
    "cs_State d1 = alist_put (fst p) (snd p) (cs_State d)"
    "cs_Entries d1 = cs_Entries d" "mb_sendError (cs_Bus d1) = None" by blast
  with Cons.IH [of d1] Cons.prems show ?case by simp
qed simp

lemma setting_fold_put:
  "setting (fold (\<lambda>p. alist_put (fst p) (snd p)) sets c) k =
     (case map_of (rev sets) k of Some v \<Rightarrow> v | None \<Rightarrow> setting c k)"
  by (induction sets arbitrary: c rule: rev_induct) auto

end
