(* ===== verification/Gauges.thy ===== *)
theory Gauges
  imports Pumps
begin

text \<open>
  \<^verbatim>\<open>cmd/prometheuspump/prometheuspump.go\<close> and \<^verbatim>\<open>cmd/victoriapump/victoriapump.go\<close>: the pumps
  that keep a gauge for every metric and set it to the latest value.

  The Prometheus client library is a parameter: \<open>gl_register\<close> is \<open>NewGaugeVec\<close> followed by
  \<open>MustRegister\<close>, \<open>gl_set\<close> is \<open>WithLabelValues(...).Set(...)\<close>; a gauge vector is a number. What
  the pumps rely on of it is \<open>gauge_laws\<close>.
\<close>

subsection \<open>The library\<close>

record gauge_opts =
  go_Subsystem :: string
  go_Name :: string
  go_Labels :: "string list"

record 'r gauge_lib =
  gl_register :: "gauge_opts \<Rightarrow> ('r, nat) go"
  gl_set :: "nat \<Rightarrow> string list \<Rightarrow> float64 \<Rightarrow> ('r, unit) go"

text \<open>\<open>owner r h\<close> are the options of the registered vector \<open>h\<close>, \<open>shown r opts ls\<close> is the value
  that is exposed for a metric under label values \<open>ls\<close>.\<close>

definition gauge_laws ::
  "'r gauge_lib \<Rightarrow> ('r \<Rightarrow> nat \<Rightarrow> gauge_opts option) \<Rightarrow> ('r \<Rightarrow> gauge_opts \<Rightarrow> string list \<Rightarrow> float64 option) \<Rightarrow> bool" where
  "gauge_laws lib owner shown \<longleftrightarrow>
     (\<forall>r opts r' h. gl_register lib opts r = (r', Ok h) \<longrightarrow>
        owner r h = None \<and> owner r' = (owner r)(h \<mapsto> opts) \<and> shown r' = shown r)
     \<and> (\<forall>r opts h. owner r h = Some opts \<longrightarrow> (\<exists>r' w. gl_register lib opts r = (r', Panic w)))
     \<and> (\<forall>r h opts ls f r' u. gl_set lib h ls f r = (r', Ok u) \<longrightarrow> owner r h = Some opts \<longrightarrow>
        length ls = length (go_Labels opts) \<and> owner r' = owner r
        \<and> shown r' = (shown r)(opts := (shown r opts)(ls \<mapsto> f)))"

subsection \<open>The Prometheus pump\<close>

type_synonym collectors = "string \<Rightarrow> (string \<Rightarrow> nat option) option"

record 'r gauges =
  ga_collectors :: collectors
  ga_registry :: 'r

definition on_registry :: "('r, 'a) go \<Rightarrow> ('r gauges, 'a) go" where
  "on_registry m s = (case m (ga_registry s) of (r, x) \<Rightarrow> (s\<lparr>ga_registry := r\<rparr>, x))"

text \<open>\<open>if collectors[ctx] == nil { collectors[ctx] = make(...) }\<close>\<close>

definition ensure_context :: "string \<Rightarrow> 'r gauges \<Rightarrow> 'r gauges" where
  "ensure_context ctx s =
     (case ga_collectors s ctx of
        None \<Rightarrow> s\<lparr>ga_collectors := (ga_collectors s)(ctx \<mapsto> (\<lambda>_. None))\<rparr>
      | Some m \<Rightarrow> s)"

definition collector :: "string \<Rightarrow> string \<Rightarrow> 'r gauges \<Rightarrow> nat option" where
  "collector ctx name s = (case ga_collectors s ctx of None \<Rightarrow> None | Some m \<Rightarrow> m name)"

definition put_collector :: "string \<Rightarrow> string \<Rightarrow> nat \<Rightarrow> ('r gauges, unit) go" where
  "put_collector ctx name h s =
     (case ga_collectors s ctx of
        None \<Rightarrow> (s, Panic ''assignment to entry in nil map'')
      | Some m \<Rightarrow> (s\<lparr>ga_collectors := (ga_collectors s)(ctx \<mapsto> m(name \<mapsto> h))\<rparr>, Ok ()))"

definition fqdd_opts :: "string \<Rightarrow> gauge_opts" where
  "fqdd_opts name = \<lparr>go_Subsystem = [], go_Name = name, go_Labels = [''ServiceTag'', ''HostName'', ''FQDD'']\<rparr>"

definition plain_opts :: "string \<Rightarrow> string \<Rightarrow> gauge_opts" where
  "plain_opts ctx name = \<lparr>go_Subsystem = ctx, go_Name = name, go_Labels = [''ServiceTag'', ''HostName'']\<rparr>"

definition prom_value :: "string \<Rightarrow> float64" where
  "prom_value s =
     (case ParseFloat s of
        (f, ok) \<Rightarrow> if \<not> ok \<and> (s = ''Up'' \<or> s = ''Operational'') then float_nat 1 else f)"

text \<open>The body \<open>doFQDDGuage\<close> and \<open>doNonFQDDGuage\<close> share.\<close>

definition do_gauge ::
  "'r gauge_lib \<Rightarrow> string \<Rightarrow> string \<Rightarrow> gauge_opts \<Rightarrow> string list \<Rightarrow> float64 \<Rightarrow> ('r gauges, unit) go" where
  "do_gauge lib ctx name opts labels f s =
     (let s1 = ensure_context ctx s in
      case collector ctx name s1 of
        None \<Rightarrow>
          bindS (on_registry (gl_register lib opts)) (\<lambda>h.
          bindS (on_registry (gl_set lib h labels f)) (\<lambda>u. put_collector ctx name h)) s1
      | Some h \<Rightarrow> on_registry (gl_set lib h labels f) s1)"

definition doFQDDGuage :: "'r gauge_lib \<Rightarrow> DataValue \<Rightarrow> ('r gauges, unit) go" where
  "doFQDDGuage lib v =
     do_gauge lib ''FQDD'' (dv_ID v) (fqdd_opts (dv_ID v)) [dv_System v, dv_HostName v, dv_Context v]
       (prom_value (dv_Value v))"

definition doNonFQDDGuage :: "'r gauge_lib \<Rightarrow> DataValue \<Rightarrow> ('r gauges, unit) go" where
  "doNonFQDDGuage lib v =
     (let ctx = replace_char (CHR '' '') [] (dv_Context v) in
      do_gauge lib ctx (dv_ID v) (plain_opts ctx (dv_ID v)) [dv_System v, dv_HostName v]
        (fst (ParseFloat (dv_Value v))))"

definition prom_metric :: "'r gauge_lib \<Rightarrow> DataValue \<Rightarrow> ('r gauges, unit) go" where
  "prom_metric lib v =
     (if contains (dv_Context v) ''.'' then doFQDDGuage lib v else doNonFQDDGuage lib v)"

definition prom_groups :: "'r gauge_lib \<Rightarrow> DataGroup list \<Rightarrow> 'r \<Rightarrow> 'r gauges \<times> unit outcome" where
  "prom_groups lib gs r =
     each_group (\<lambda>g. each_group (prom_metric lib) (elems (dg_Values g))) gs
       \<lparr>ga_collectors = (\<lambda>_. None), ga_registry = r\<rparr>"

definition prom_defaults :: settings where
  "prom_defaults = bus_defaults"

definition prom_settings :: "(string \<Rightarrow> string) \<Rightarrow> settings" where
  "prom_settings env = env_override env bus_vars prom_defaults"

subsection \<open>The VictoriaMetrics pump\<close>

definition sanitizeMetricName :: "string \<Rightarrow> string" where
  "sanitizeMetricName name =
     map (\<lambda>c. if c = CHR ''.'' \<or> c = CHR ''-'' \<or> c = CHR '' '' then CHR ''_'' else c) name"

definition parseFloatOrString :: "string \<Rightarrow> float64" where
  "parseFloatOrString s =
     (case ParseFloat s of
        (f, True) \<Rightarrow> f
      | (f, False) \<Rightarrow> if s = ''Up'' \<or> s = ''Operational'' then float_nat 1 else float_zero)"

definition victoria_opts :: "DataValue \<Rightarrow> gauge_opts" where
  "victoria_opts v =
     (if contains (dv_Context v) ''.'' then fqdd_opts (sanitizeMetricName (''PowerEdge_'' @ dv_ID v))
      else plain_opts (replace_all '' '' [] (dv_Context v)) (sanitizeMetricName (dv_ID v)))"

definition victoria_context :: "DataValue \<Rightarrow> string" where
  "victoria_context v = (if contains (dv_Context v) ''.'' then ''FQDD'' else dv_Context v)"

definition value_labels :: "DataValue \<Rightarrow> string list" where
  "value_labels v =
     (if contains (dv_Context v) ''.'' then [dv_System v, dv_HostName v, dv_Context v]
      else [dv_System v, dv_HostName v])"

definition createOrUpdateGauge :: "'r gauge_lib \<Rightarrow> DataValue \<Rightarrow> ('r gauges, unit) go" where
  "createOrUpdateGauge lib v s =
     (let ctx = victoria_context v; opts = victoria_opts v; name = go_Name opts; s1 = ensure_context ctx s in
      bindS
        (case collector ctx name s1 of
           None \<Rightarrow>
             bindS (on_registry (gl_register lib opts)) (\<lambda>h.
             bindS (put_collector ctx name h) (\<lambda>u. liftS (Ok h)))
         | Some h \<Rightarrow> liftS (Ok h))
        (\<lambda>h. on_registry (gl_set lib h (value_labels v) (parseFloatOrString (dv_Value v)))) s1)"

text \<open>The push: \<open>gather\<close> is the text of all metrics; \<open>post\<close> creates and does the request.\<close>

record victoria_request =
  vr_url :: string
  vr_BasicAuth :: "(string \<times> string) option"
  vr_body :: string

record ('r, 'h) victoria =
  vi_gauges :: "'r gauges"
  vi_net :: 'h
  vi_loggedMissing :: bool

definition pushToVictoriaMetrics ::
  "('r \<Rightarrow> string outcome) \<Rightarrow> ('h \<Rightarrow> victoria_request \<Rightarrow> 'h \<times> int outcome) \<Rightarrow> settings \<Rightarrow> (('r, 'h) victoria, unit) go" where
  "pushToVictoriaMetrics gather post c s =
     (if setting c ''victoria_url'' = [] then (s\<lparr>vi_loggedMissing := True\<rparr>, Ok ())
      else (case gather (ga_registry (vi_gauges s)) of
              Ok body \<Rightarrow>
                (let auth = (if setting c ''victoria_user'' \<noteq> [] \<and> setting c ''victoria_pass'' \<noteq> []
                             then Some (setting c ''victoria_user'', setting c ''victoria_pass'') else None) in
                 case post (vi_net s) \<lparr>vr_url = setting c ''victoria_url'', vr_BasicAuth = auth, vr_body = body\<rparr> of
                   (h, Ok status) \<Rightarrow> (s\<lparr>vi_net := h\<rparr>, Ok ())
                 | (h, Err e) \<Rightarrow> (s\<lparr>vi_net := h\<rparr>, Ok ())
                 | (h, Panic w) \<Rightarrow> (s\<lparr>vi_net := h\<rparr>, Panic w)
                 | (h, Exit n) \<Rightarrow> (s\<lparr>vi_net := h\<rparr>, Exit n))
            | Err e \<Rightarrow> (s, Ok ())
            | Panic w \<Rightarrow> (s, Panic w)
            | Exit n \<Rightarrow> (s, Exit n)))"

definition on_gauges :: "('r gauges, 'a) go \<Rightarrow> (('r, 'h) victoria, 'a) go" where
  "on_gauges m s = (case m (vi_gauges s) of (g, x) \<Rightarrow> (s\<lparr>vi_gauges := g\<rparr>, x))"

definition victoria_groups ::
  "'r gauge_lib \<Rightarrow> ('r \<Rightarrow> string outcome) \<Rightarrow> ('h \<Rightarrow> victoria_request \<Rightarrow> 'h \<times> int outcome) \<Rightarrow> settings \<Rightarrow>
   DataGroup list \<Rightarrow> (('r, 'h) victoria, unit) go" where
  "victoria_groups lib gather post c =
     each_group (\<lambda>g. bindS (on_gauges (each_group (createOrUpdateGauge lib) (elems (dg_Values g))))
                       (\<lambda>u. pushToVictoriaMetrics gather post c))"

definition victoria_defaults :: settings where
  "victoria_defaults = bus_defaults @ [(''victoria_url'', []), (''victoria_user'', []), (''victoria_pass'', [])]"

definition victoria_settings :: "(string \<Rightarrow> string) \<Rightarrow> settings" where
  "victoria_settings env = env_override env
     (bus_vars @ [(''VICTORIA_METRICS_URL'', ''victoria_url''), (''VICTORIA_USERNAME'', ''victoria_user''),
        (''VICTORIA_PASSWORD'', ''victoria_pass'')])
     victoria_defaults"

text \<open>The message bus is dialled at most twenty times; then the process ends.\<close>

function victoria_connect :: "(nat \<Rightarrow> 'b option) \<Rightarrow> nat \<Rightarrow> 'b outcome" where
  "victoria_connect dial i =
     (case dial i of
        Some b \<Rightarrow> Ok b
      | None \<Rightarrow> if 20 \<le> i then Exit 1 else victoria_connect dial (i + 1))"
  by pat_completeness auto
termination by (relation "measure (\<lambda>(dial, i). 20 - i)") auto

declare victoria_connect.simps [simp del]

subsection \<open>What the gauges show\<close>

text \<open>The reading of a value: its metric, its labels and its number.\<close>

definition prom_opts :: "DataValue \<Rightarrow> gauge_opts" where
  "prom_opts v =
     (if contains (dv_Context v) ''.'' then fqdd_opts (dv_ID v)
      else plain_opts (replace_char (CHR '' '') [] (dv_Context v)) (dv_ID v))"

definition prom_reading :: "DataValue \<Rightarrow> float64" where
  "prom_reading v =
     (if contains (dv_Context v) ''.'' then prom_value (dv_Value v) else fst (ParseFloat (dv_Value v)))"

definition show_reading ::
  "gauge_opts \<Rightarrow> string list \<Rightarrow> float64 \<Rightarrow> (gauge_opts \<Rightarrow> string list \<Rightarrow> float64 option) \<Rightarrow>
   (gauge_opts \<Rightarrow> string list \<Rightarrow> float64 option)" where
  "show_reading opts ls f m = m(opts := (m opts)(ls \<mapsto> f))"

text \<open>All the values of a sequence of groups, in order.\<close>

definition all_values :: "DataGroup list \<Rightarrow> DataValue list" where
  "all_values gs = concat (map (\<lambda>g. elems (dg_Values g)) gs)"

subsection \<open>The collectors agree with the registry\<close>

text \<open>\<open>K ctx name opts\<close>: the options a collector may have under a context and a name.\<close>

definition collectors_inv ::
  "('r \<Rightarrow> nat \<Rightarrow> gauge_opts option) \<Rightarrow> (string \<Rightarrow> string \<Rightarrow> gauge_opts \<Rightarrow> bool) \<Rightarrow> 'r gauges \<Rightarrow> bool" where
  "collectors_inv owner K s \<longleftrightarrow>
     (\<forall>ctx name h. collector ctx name s = Some h \<longrightarrow> (\<exists>opts. owner (ga_registry s) h = Some opts \<and> K ctx name opts))"

definition kind_ok :: "(string \<Rightarrow> string) \<Rightarrow> string \<Rightarrow> string \<Rightarrow> gauge_opts \<Rightarrow> bool" where
  "kind_ok sub ctx name opts \<longleftrightarrow>
     opts = plain_opts (sub ctx) name \<or> ctx = ''FQDD'' \<and> opts = fqdd_opts name"

lemma kind_ok_determined:
  "kind_ok sub ctx name o1 \<Longrightarrow> kind_ok sub ctx name o2 \<Longrightarrow>
     length (go_Labels o1) = length (go_Labels o2) \<Longrightarrow> o1 = o2"
  by (auto simp: kind_ok_def plain_opts_def fqdd_opts_def)

lemma ensure_context_frame [simp]:
  "collector c n (ensure_context ctx s) = collector c n s" "ga_registry (ensure_context ctx s) = ga_registry s"
  by (auto simp: ensure_context_def collector_def split: option.split)

lemma collectors_inv_ensure [simp]:
  "collectors_inv owner K (ensure_context ctx s) = collectors_inv owner K s"
  by (simp add: collectors_inv_def)

lemma on_registry_Ok:
  "on_registry m s = (s', Ok x) \<longleftrightarrow> (\<exists>r. m (ga_registry s) = (r, Ok x) \<and> s' = s\<lparr>ga_registry := r\<rparr>)"
  by (auto simp: on_registry_def split: prod.splits)

lemma put_collector_Ok:
  assumes "put_collector ctx name h s = (s', Ok u)"
  shows "ga_registry s' = ga_registry s
    \<and> (\<forall>c n. collector c n s' = (if c = ctx \<and> n = name then Some h else collector c n s))"
  using assms by (auto simp: put_collector_def collector_def split: option.splits if_splits)

lemma law_register:
  "gauge_laws lib owner shown \<Longrightarrow> gl_register lib opts r = (r', Ok h) \<Longrightarrow>
     owner r h = None \<and> owner r' = (owner r)(h \<mapsto> opts) \<and> shown r' = shown r"
  unfolding gauge_laws_def by blast

lemma law_duplicate:
  "gauge_laws lib owner shown \<Longrightarrow> owner r h = Some opts \<Longrightarrow> \<exists>r' w. gl_register lib opts r = (r', Panic w)"
  unfolding gauge_laws_def by blast

lemma law_set:
  assumes "gauge_laws lib owner shown" and "gl_set lib h ls f r = (r', Ok u)" and "owner r h = Some opts"
  shows "length ls = length (go_Labels opts) \<and> owner r' = owner r \<and> shown r' = show_reading opts ls f (shown r)"
  using assms unfolding gauge_laws_def show_reading_def by blast

text \<open>A fresh gauge is registered, set and recorded, in either order.\<close>

lemma fresh_gauge:
  assumes "gauge_laws lib owner shown" and "collectors_inv owner K s" and "K ctx name opts"
    and "gl_register lib opts (ga_registry s) = (r1, Ok h)" and "gl_set lib h ls f r1 = (r2, Ok u)"
    and "ga_registry s' = r2" and "\<forall>c n. collector c n s' = (if c = ctx \<and> n = name then Some h else collector c n s)"
  shows "collectors_inv owner K s' \<and> shown (ga_registry s') = show_reading opts ls f (shown (ga_registry s))"
proof -
  have o1: "owner (ga_registry s) h = None \<and> owner r1 = (owner (ga_registry s))(h \<mapsto> opts) \<and> shown r1 = shown (ga_registry s)"
    by (rule law_register [OF assms(1,4)])
  then have "owner r1 h = Some opts" by simp
  then have o2: "length ls = length (go_Labels opts) \<and> owner r2 = owner r1 \<and> shown r2 = show_reading opts ls f (shown r1)"
    by (rule law_set [OF assms(1,5)])
  from o1 o2 have own: "owner (ga_registry s') = (owner (ga_registry s))(h \<mapsto> opts)"
    and sh: "shown (ga_registry s') = show_reading opts ls f (shown (ga_registry s))" and n: "owner (ga_registry s) h = None"
    unfolding assms(6) by simp_all
  have "\<exists>opts. owner (ga_registry s') h' = Some opts \<and> K c n opts" if "collector c n s' = Some h'" for c n h'
  proof (cases "c = ctx \<and> n = name")
    case True
    with that assms(7) have "h' = h" by simp
    with True own assms(3) show ?thesis by simp
  next
    case False
    with that assms(7) have "collector c n s = Some h'" by auto
    then obtain opts' where o': "owner (ga_registry s) h' = Some opts'" "K c n opts'"
      using assms(2) unfolding collectors_inv_def by blast
    with n have "h' \<noteq> h" by auto
    with o' own show ?thesis by simp
  qed
  with sh show ?thesis unfolding collectors_inv_def by blast
qed

text \<open>A gauge that is there is set.\<close>

lemma known_gauge:
  assumes "gauge_laws lib owner shown" and "collectors_inv owner (kind_ok sub) s" and "kind_ok sub ctx name opts"
    and "collector ctx name s = Some h" and "gl_set lib h ls f (ga_registry s) = (r, Ok u)"
    and "length ls = length (go_Labels opts)"
  shows "collectors_inv owner (kind_ok sub) (s\<lparr>ga_registry := r\<rparr>)
    \<and> shown r = show_reading opts ls f (shown (ga_registry s))"
proof -
  from assms(2,4) obtain opts' where o': "owner (ga_registry s) h = Some opts'" "kind_ok sub ctx name opts'"
    unfolding collectors_inv_def by blast
  from law_set [OF assms(1,5) o'(1)] assms(6) o'(2) assms(3) kind_ok_determined
  have "opts' = opts" "owner r = owner (ga_registry s)" "shown r = show_reading opts ls f (shown (ga_registry s))"
    by metis+
  with assms(2) show ?thesis by (simp add: collectors_inv_def collector_def)
qed

lemma do_gauge_shows:
  assumes "gauge_laws lib owner shown" and "collectors_inv owner (kind_ok sub) s" and "kind_ok sub ctx name opts"
    and "do_gauge lib ctx name opts ls f s = (s', Ok ())" and "length ls = length (go_Labels opts)"
  shows "collectors_inv owner (kind_ok sub) s' \<and> shown (ga_registry s') = show_reading opts ls f (shown (ga_registry s))"
proof -
  let ?s = "ensure_context ctx s"
  show ?thesis
  proof (cases "collector ctx name ?s")
    case None
    with assms(4) obtain r1 h r2 where "gl_register lib opts (ga_registry ?s) = (r1, Ok h)"
      "gl_set lib h ls f r1 = (r2, Ok ())" "put_collector ctx name h (?s\<lparr>ga_registry := r2\<rparr>) = (s', Ok ())"
      by (auto simp: do_gauge_def Let_def bindS_Ok on_registry_Ok)
    moreover from put_collector_Ok [OF this(3)] have "ga_registry s' = r2"
      "\<forall>c n. collector c n s' = (if c = ctx \<and> n = name then Some h else collector c n ?s)"
      by (simp_all add: collector_def)
    ultimately show ?thesis using fresh_gauge [of lib owner shown "kind_ok sub" ?s] assms(1-3) by simp
  next
    case (Some h)
    with assms(4) obtain r where "gl_set lib h ls f (ga_registry ?s) = (r, Ok ())" "s' = ?s\<lparr>ga_registry := r\<rparr>"
      by (auto simp: do_gauge_def Let_def on_registry_Ok)
    with known_gauge [of lib owner shown sub ?s] Some assms show ?thesis by simp
  qed
qed

text \<open>A loop whose every step shows one more reading.\<close>

lemma each_group_shows:
  assumes "\<And>x s s'. I s \<Longrightarrow> step x s = (s', Ok ()) \<Longrightarrow> I s' \<and> a s' = g x (a s)"
  shows "I s \<Longrightarrow> each_group step xs s = (s', Ok ()) \<Longrightarrow> I s' \<and> a s' = fold g xs (a s)"
proof (induction xs arbitrary: s)
  case (Cons x xs)
  then obtain s1 where s1: "step x s = (s1, Ok ())" "each_group step xs s1 = (s', Ok ())" by (auto simp: bindS_Ok)
  from assms [OF Cons.prems(1) s1(1)] Cons.IH [OF _ s1(2)] show ?case by simp
qed (simp add: liftS_Ok)

definition plain_lib :: "(gauge_opts list \<times> (gauge_opts \<Rightarrow> string list \<Rightarrow> float64 option)) gauge_lib" where
  "plain_lib = \<lparr>
     gl_register = (\<lambda>opts (os, sh). if opts \<in> set os then ((os, sh), Panic ''duplicate metrics collector registration attempted'')
                                    else ((os @ [opts], sh), Ok (length os))),
     gl_set = (\<lambda>h ls f (os, sh). if h < length os \<and> length ls = length (go_Labels (os ! h))
                                  then ((os, show_reading (os ! h) ls f sh), Ok ())
                                  else ((os, sh), Panic ''inconsistent label cardinality''))\<rparr>"

definition plain_owner :: "gauge_opts list \<times> (gauge_opts \<Rightarrow> string list \<Rightarrow> float64 option) \<Rightarrow> nat \<Rightarrow> gauge_opts option" where
  "plain_owner r h = (if h < length (fst r) then Some (fst r ! h) else None)"

lemma plain_lib_laws: "gauge_laws plain_lib plain_owner snd"
  unfolding gauge_laws_def
proof (intro conjI allI impI)
  fix r :: "gauge_opts list \<times> (gauge_opts \<Rightarrow> string list \<Rightarrow> float64 option)" and opts r' h
  assume "gl_register plain_lib opts r = (r', Ok h)"
  then show "plain_owner r h = None" "plain_owner r' = (plain_owner r)(h \<mapsto> opts)" "snd r' = snd r"
    by (auto simp: plain_lib_def plain_owner_def fun_eq_iff nth_append split: prod.splits if_splits)
qed (auto simp: plain_lib_def plain_owner_def show_reading_def split: prod.split if_splits)

definition prom_start :: "'r \<Rightarrow> 'r gauges" where
  "prom_start r = \<lparr>ga_collectors = (\<lambda>_. None), ga_registry = r\<rparr>"

lemma collectors_inv_start: "collectors_inv owner K (prom_start r)"
  by (simp add: collectors_inv_def collector_def prom_start_def)

lemma fold_all_values: "fold f (all_values gs) m = fold (\<lambda>g. fold f (elems (dg_Values g))) gs m"
  by (induction gs arbitrary: m) (simp_all add: all_values_def)

lemma prom_metric_shows:
  assumes "gauge_laws lib owner shown" and "collectors_inv owner (kind_ok id) s"
    and "prom_metric lib v s = (s', Ok ())"
  shows "collectors_inv owner (kind_ok id) s'
    \<and> shown (ga_registry s') = show_reading (prom_opts v) (value_labels v) (prom_reading v) (shown (ga_registry s))"
proof -
  let ?ctx = "if contains (dv_Context v) ''.'' then ''FQDD'' else replace_char (CHR '' '') [] (dv_Context v)"
  have "do_gauge lib ?ctx (dv_ID v) (prom_opts v) (value_labels v) (prom_reading v) s = (s', Ok ())"
    using assms(3)
    by (auto simp: prom_metric_def doFQDDGuage_def doNonFQDDGuage_def Let_def prom_opts_def value_labels_def
        prom_reading_def split: if_splits)
  moreover have "kind_ok id ?ctx (dv_ID v) (prom_opts v)" by (simp add: kind_ok_def prom_opts_def)
  moreover have "length (value_labels v) = length (go_Labels (prom_opts v))"
    by (simp add: value_labels_def prom_opts_def fqdd_opts_def plain_opts_def)
  ultimately show ?thesis using do_gauge_shows [OF assms(1,2)] by blast
qed

lemma createOrUpdateGauge_Ok:
  assumes "createOrUpdateGauge lib v s = (s', Ok ())"
  obtains (fresh) r1 h r2 where "collector (victoria_context v) (go_Name (victoria_opts v)) s = None"
      "gl_register lib (victoria_opts v) (ga_registry s) = (r1, Ok h)"
      "gl_set lib h (value_labels v) (parseFloatOrString (dv_Value v)) r1 = (r2, Ok ())" "ga_registry s' = r2"
      "\<forall>c n. collector c n s' = (if c = victoria_context v \<and> n = go_Name (victoria_opts v) then Some h else collector c n s)"
  | (known) h r where "collector (victoria_context v) (go_Name (victoria_opts v)) s = Some h"
      "gl_set lib h (value_labels v) (parseFloatOrString (dv_Value v)) (ga_registry s) = (r, Ok ())"
      "s' = (ensure_context (victoria_context v) s)\<lparr>ga_registry := r\<rparr>"
proof -
  let ?c = "victoria_context v" and ?n = "go_Name (victoria_opts v)"
  let ?s = "ensure_context ?c s"
  show thesis
  proof (cases "collector ?c ?n ?s")
    case None
    with assms obtain r1 h s2 where a: "gl_register lib (victoria_opts v) (ga_registry s) = (r1, Ok h)"
      "put_collector ?c ?n h (?s\<lparr>ga_registry := r1\<rparr>) = (s2, Ok ())"
      "on_registry (gl_set lib h (value_labels v) (parseFloatOrString (dv_Value v))) s2 = (s', Ok ())"
      by (auto simp: createOrUpdateGauge_def Let_def bindS_Ok on_registry_Ok liftS_Ok)
    from put_collector_Ok [OF a(2)] have p: "ga_registry s2 = r1"
      "\<forall>c n. collector c n s2 = (if c = ?c \<and> n = ?n then Some h else collector c n s)"
      by (simp_all add: collector_def [of _ _ "?s\<lparr>ga_registry := r1\<rparr>"] collector_def [of _ _ ?s, symmetric])
    from a(3) p obtain r2 where "gl_set lib h (value_labels v) (parseFloatOrString (dv_Value v)) r1 = (r2, Ok ())"
      "s' = s2\<lparr>ga_registry := r2\<rparr>" by (auto simp: on_registry_Ok)
    with fresh None a(1) p show ?thesis by (simp add: collector_def [of _ _ "s2\<lparr>ga_registry := r2\<rparr>"] collector_def [of _ _ s2, symmetric])
  next
    case (Some h)
    with assms known show ?thesis
      by (auto simp: createOrUpdateGauge_def Let_def bindS_Ok on_registry_Ok liftS_Ok)
  qed
qed

definition victoria_sub :: "string \<Rightarrow> string" where
  "victoria_sub = replace_all '' '' []"

lemma victoria_kind: "kind_ok victoria_sub (victoria_context v) (go_Name (victoria_opts v)) (victoria_opts v)"
  by (simp add: kind_ok_def victoria_context_def victoria_opts_def victoria_sub_def plain_opts_def fqdd_opts_def)

lemma victoria_labels_length: "length (value_labels v) = length (go_Labels (victoria_opts v))"
  by (simp add: value_labels_def victoria_opts_def fqdd_opts_def plain_opts_def)

lemma victoria_metric_shows:
  assumes "gauge_laws lib owner shown" and "collectors_inv owner (kind_ok victoria_sub) s"
    and "createOrUpdateGauge lib v s = (s', Ok ())"
  shows "collectors_inv owner (kind_ok victoria_sub) s'
    \<and> shown (ga_registry s') = show_reading (victoria_opts v) (value_labels v) (parseFloatOrString (dv_Value v)) (shown (ga_registry s))"
  using assms(3)
proof (cases rule: createOrUpdateGauge_Ok)
  case fresh
  from fresh_gauge [OF assms(1,2) victoria_kind fresh(2-5)] show ?thesis .
next
  case (known h r)
  have "collectors_inv owner (kind_ok victoria_sub) (ensure_context (victoria_context v) s)" using assms(2) by simp
  from known_gauge [OF assms(1) this victoria_kind _ _ victoria_labels_length] known show ?thesis by simp
qed

subsection \<open>Properties\<close>

text \<open>C18: the Prometheus pump shows the latest readings: over any client library that keeps the
  documented laws, when the pump has handled a sequence of groups without a panic, the exposed
  metrics are what was exposed before, overwritten, in order, by every value of the groups:
  its number, under its metric (per device when the context has a dot, per subsystem
  otherwise) and its labels.\<close>

theorem prometheus_shows_latest:
  assumes "gauge_laws lib owner shown" and "prom_groups lib gs r = (s', Ok ())"
  shows "shown (ga_registry s') =
    fold (\<lambda>v. show_reading (prom_opts v) (value_labels v) (prom_reading v)) (all_values gs) (shown r)"
proof -
  let ?I = "collectors_inv owner (kind_ok id)" and ?f = "\<lambda>v. show_reading (prom_opts v) (value_labels v) (prom_reading v)"
  let ?a = "\<lambda>s. shown (ga_registry s)"
  have one: "?I s2 \<and> ?a s2 = fold ?f (elems (dg_Values g)) (?a s1)"
    if "?I s1" "each_group (prom_metric lib) (elems (dg_Values g)) s1 = (s2, Ok ())" for g s1 s2
    using each_group_shows [of ?I "prom_metric lib" ?a ?f, OF prom_metric_shows [OF assms(1)] that] .
  have run: "each_group (\<lambda>g. each_group (prom_metric lib) (elems (dg_Values g))) gs (prom_start r) = (s', Ok ())"
    using assms(2) by (simp add: prom_groups_def prom_start_def)
  from each_group_shows [of ?I _ ?a "\<lambda>g. fold ?f (elems (dg_Values g))", OF one collectors_inv_start run]
  show ?thesis by (simp add: fold_all_values prom_start_def)
qed

theorem prometheus_shows_latest_witness:
  "\<exists>s'. prom_groups plain_lib [zero_group\<lparr>dg_Values := Some [
        zero_value\<lparr>dv_ID := ''Temp'', dv_Context := ''CPU.1'', dv_Value := ''NaN''\<rparr>,
        zero_value\<lparr>dv_ID := ''Temp'', dv_Context := ''CPU.1'', dv_Value := ''inf''\<rparr>]\<rparr>] ([], \<lambda>_ _. None) = (s', Ok ())
    \<and> snd (ga_registry s') (fqdd_opts ''Temp'') [[], [], ''CPU.1''] = Some (Inf False)"
proof -
  let ?v = "\<lambda>x. zero_value\<lparr>dv_ID := ''Temp'', dv_Context := ''CPU.1'', dv_Value := x\<rparr>"
  let ?gs = "[zero_group\<lparr>dg_Values := Some [?v ''NaN'', ?v ''inf'']\<rparr>]"
  have f: "prom_value ''NaN'' = NaN" "prom_value ''inf'' = Inf False" by code_simp+
  obtain s' where s': "prom_groups plain_lib ?gs ([], \<lambda>_ _. None) = (s', Ok ())"
    by (simp add: prom_groups_def elems_def prom_metric_def doFQDDGuage_def do_gauge_def Let_def ensure_context_def
        collector_def bindS_def liftS_def on_registry_def plain_lib_def fqdd_opts_def put_collector_def)
  from prometheus_shows_latest [OF plain_lib_laws s'] have
    "snd (ga_registry s') (fqdd_opts ''Temp'') [[], [], ''CPU.1''] = Some (Inf False)"
    by (simp add: all_values_def elems_def show_reading_def prom_opts_def prom_reading_def value_labels_def f
        zero_value_def)
  with s' show ?thesis by blast
qed

subsection \<open>Contexts that collide\<close>

text \<open>One vector for each collector: no two collectors share a vector, no two vectors have the same
  options.\<close>

definition collectors_distinct :: "('r \<Rightarrow> nat \<Rightarrow> gauge_opts option) \<Rightarrow> 'r gauges \<Rightarrow> bool" where
  "collectors_distinct owner s \<longleftrightarrow>
     (\<forall>c n c' n' h. collector c n s = Some h \<longrightarrow> collector c' n' s = Some h \<longrightarrow> c = c' \<and> n = n')
     \<and> (\<forall>h h' opts. owner (ga_registry s) h = Some opts \<longrightarrow> owner (ga_registry s) h' = Some opts \<longrightarrow> h = h')"

definition victoria_inv :: "('r \<Rightarrow> nat \<Rightarrow> gauge_opts option) \<Rightarrow> 'r gauges \<Rightarrow> bool" where
  "victoria_inv owner s \<longleftrightarrow> collectors_inv owner (kind_ok victoria_sub) s \<and> collectors_distinct owner s"

definition has_collector :: "'r gauges \<Rightarrow> DataValue \<Rightarrow> bool" where
  "has_collector s v \<longleftrightarrow> collector (victoria_context v) (go_Name (victoria_opts v)) s \<noteq> None"

lemma fresh_distinct:
  assumes "gauge_laws lib owner shown" and "victoria_inv owner s" and "collector ctx name s = None"
    and "gl_register lib opts (ga_registry s) = (r1, Ok h)" and "gl_set lib h ls f r1 = (r2, Ok u)"
    and "ga_registry s' = r2" and "\<forall>c n. collector c n s' = (if c = ctx \<and> n = name then Some h else collector c n s)"
  shows "collectors_distinct owner s'"
proof -
  have o1: "owner (ga_registry s) h = None \<and> owner r1 = (owner (ga_registry s))(h \<mapsto> opts)"
    using law_register [OF assms(1,4)] by simp
  then have "owner r1 h = Some opts" by simp
  from law_set [OF assms(1,5) this] have "owner r2 = owner r1" by (simp only:)
  with o1 assms(6) have own: "owner (ga_registry s') = (owner (ga_registry s))(h \<mapsto> opts)" by (simp only:)
  have new: "owner (ga_registry s) h' \<noteq> Some opts" for h'
    using law_duplicate [OF assms(1), of "ga_registry s" h' opts] assms(4) by auto
  have fresh: "collector c n s \<noteq> Some h" for c n
    using assms(2) o1 unfolding victoria_inv_def collectors_inv_def by (metis option.distinct(1))
  have old: "collector c n s = Some h' \<Longrightarrow> collector c' n' s = Some h' \<Longrightarrow> c = c' \<and> n = n'"
    "owner (ga_registry s) h1 = Some o1 \<Longrightarrow> owner (ga_registry s) h2 = Some o1 \<Longrightarrow> h1 = h2" for c n c' n' h' h1 h2 o1
    using assms(2) unfolding victoria_inv_def collectors_distinct_def by blast+
  have "c = c' \<and> n = n'" if "collector c n s' = Some h'" "collector c' n' s' = Some h'" for c n c' n' h'
    using that assms(7) fresh old(1) by (metis option.inject)
  moreover have "h1 = h2" if "owner (ga_registry s') h1 = Some o1" "owner (ga_registry s') h2 = Some o1" for h1 h2 o1
    using that new old(2) unfolding own by (metis fun_upd_apply option.inject)
  ultimately show ?thesis unfolding collectors_distinct_def by blast
qed

lemma known_distinct:
  assumes "gauge_laws lib owner shown" and "victoria_inv owner s" and "collector ctx name s = Some h"
    and "gl_set lib h ls f (ga_registry s) = (r, Ok u)"
  shows "collectors_distinct owner (s\<lparr>ga_registry := r\<rparr>)"
proof -
  from assms(2,3) obtain opts where "owner (ga_registry s) h = Some opts"
    unfolding victoria_inv_def collectors_inv_def by blast
  from law_set [OF assms(1,4) this] assms(2) show ?thesis
    by (simp add: victoria_inv_def collectors_distinct_def collector_def)
qed

lemma victoria_metric_inv:
  assumes laws: "gauge_laws lib owner shown" and inv: "victoria_inv owner s"
    and step: "createOrUpdateGauge lib v s = (s', Ok ())"
  shows "victoria_inv owner s' \<and> has_collector s' v \<and> (\<forall>w. has_collector s w \<longrightarrow> has_collector s' w)"
proof -
  have ci: "collectors_inv owner (kind_ok victoria_sub) s" using inv by (simp add: victoria_inv_def)
  from victoria_metric_shows [OF laws ci step] have "collectors_inv owner (kind_ok victoria_sub) s'" by simp
  moreover from step have "collectors_distinct owner s' \<and> has_collector s' v \<and> (\<forall>w. has_collector s w \<longrightarrow> has_collector s' w)"
  proof (cases rule: createOrUpdateGauge_Ok)
    case fresh
    from fresh_distinct [OF laws inv fresh] fresh(5) show ?thesis by (auto simp: has_collector_def)
  next
    case (known h r)
    let ?s = "ensure_context (victoria_context v) s"
    have "victoria_inv owner ?s" using inv by (simp add: victoria_inv_def collectors_distinct_def)
    moreover have "collector (victoria_context v) (go_Name (victoria_opts v)) ?s = Some h" using known(1) by simp
    moreover have "gl_set lib h (value_labels v) (parseFloatOrString (dv_Value v)) (ga_registry ?s) = (r, Ok ())"
      using known(2) by simp
    ultimately have "collectors_distinct owner s'" unfolding known(3) by (rule known_distinct [OF laws])
    moreover have "collector c n s' = collector c n s" for c n
      using known(3) ensure_context_frame(1) [of c n "victoria_context v" s] by (simp add: collector_def)
    ultimately show ?thesis using known(1) by (simp add: has_collector_def)
  qed
  ultimately show ?thesis by (simp add: victoria_inv_def)
qed

lemma each_group_inv:
  assumes "\<And>x s s'. I s \<Longrightarrow> step x s = (s', Ok ()) \<Longrightarrow> I s' \<and> P x s' \<and> (\<forall>y. P y s \<longrightarrow> P y s')"
  shows "I s \<Longrightarrow> each_group step xs s = (s', Ok ()) \<Longrightarrow> I s' \<and> (\<forall>x\<in>set xs. P x s') \<and> (\<forall>y. P y s \<longrightarrow> P y s')"
proof (induction xs arbitrary: s)
  case (Cons x xs)
  then obtain s1 where s1: "step x s = (s1, Ok ())" "each_group step xs s1 = (s', Ok ())" by (auto simp: bindS_Ok)
  from assms [OF Cons.prems(1) s1(1)] Cons.IH [OF _ s1(2)] show ?case by simp
qed (simp add: liftS_Ok)

lemma same_opts_same_context:
  assumes "victoria_inv owner s" and "has_collector s v" and "has_collector s w"
    and "victoria_opts v = victoria_opts w" and "victoria_context v \<noteq> ''FQDD''" and "victoria_context w \<noteq> ''FQDD''"
  shows "victoria_context v = victoria_context w"
proof -
  let ?n = "go_Name (victoria_opts v)"
  from assms(2,3,4) obtain h1 h2 where h: "collector (victoria_context v) ?n s = Some h1"
    "collector (victoria_context w) ?n s = Some h2" by (auto simp: has_collector_def)
  have K: "opts = victoria_opts x" if "kind_ok victoria_sub (victoria_context x) (go_Name (victoria_opts x)) opts"
    "victoria_context x \<noteq> ''FQDD''" for opts x
    using that by (auto simp: kind_ok_def victoria_context_def victoria_opts_def victoria_sub_def plain_opts_def split: if_splits)
  obtain o1 o2 where "owner (ga_registry s) h1 = Some o1" "kind_ok victoria_sub (victoria_context v) ?n o1"
    "owner (ga_registry s) h2 = Some o2" "kind_ok victoria_sub (victoria_context w) ?n o2"
    using assms(1) h unfolding victoria_inv_def collectors_inv_def by metis
  with K assms(4-6) have "owner (ga_registry s) h1 = Some (victoria_opts v)" "owner (ga_registry s) h2 = Some (victoria_opts v)"
    by metis+
  with assms(1) h show ?thesis unfolding victoria_inv_def collectors_distinct_def by metis
qed



end
