(* ===== verification/Databases.thy ===== *)
theory Databases
  imports Pumps
begin

text \<open>
  The pumps over database clients: \<^verbatim>\<open>cmd/influxpump\<close>, \<^verbatim>\<open>cmd/timescalepump\<close>,
  \<^verbatim>\<open>cmd/elkpump\<close> and \<^verbatim>\<open>cmd/elkpump-basic\<close>. What each hands to its client is modelled; the
  clients themselves are parameters.
\<close>

subsection \<open>influxpump\<close>

datatype influx_field = FString string | FFloat float64

record influx_point =
  ip_Measurement :: string
  ip_Tags :: "(string \<times> string) list"
  ip_Fields :: "(string \<times> influx_field) list"
  ip_Time :: gotime

text \<open>The points of one value: none when its time stamp is not RFC 3339, and one more for a
  life-cycle event.\<close>

definition influx_points :: "string \<Rightarrow> DataValue \<Rightarrow> influx_point list" where
  "influx_points label v =
     (case parse_rfc3339 (dv_Timestamp v) of
        None \<Rightarrow> []
      | Some t \<Rightarrow>
          \<lparr>ip_Measurement = ''telemetry'',
           ip_Tags = [(''ServiceTag'', dv_System v), (''FQDD'', dv_Context v), (''Label'', dv_Label v)],
           ip_Fields = [(''MetricID'', FString (dv_ID v)), (''value'', FFloat (fst (ParseFloat (dv_Value v))))],
           ip_Time = t\<rparr>
          # (if label = ''Redfish LifeCycle Events'' then
               [\<lparr>ip_Measurement = ''redfishlce'',
                 ip_Tags = [(''RedfishSystem'', dv_System v), (''RedfishContext'', dv_Context v),
                            (''RedfishLabel'', dv_Label v), (''EventId'', dv_ID v)],
                 ip_Fields = [], ip_Time = t\<rparr>]
             else []))"

definition influx_group :: "('w \<Rightarrow> influx_point \<Rightarrow> 'w) \<Rightarrow> DataGroup \<Rightarrow> 'w \<Rightarrow> 'w" where
  "influx_group writePoint g w =
     fold (\<lambda>p w. writePoint w p) (concat (map (influx_points (dg_Label g)) (elems (dg_Values g)))) w"

definition influx_groups :: "('w \<Rightarrow> influx_point \<Rightarrow> 'w) \<Rightarrow> DataGroup list \<Rightarrow> 'w \<Rightarrow> 'w" where
  "influx_groups writePoint gs w = fold (influx_group writePoint) gs w"

definition influx_defaults :: settings where
  "influx_defaults = bus_defaults @ [(''URL'', ''http://localhost:8086'')]"

text \<open>The settings of the database are taken from the environment even when they are not set.\<close>

definition influx_settings :: "(string \<Rightarrow> string) \<Rightarrow> settings" where
  "influx_settings env =
     alist_put ''Bucket'' (env ''INFLUX_BUCKET'') (alist_put ''Org'' (env ''INFLUX_ORG'')
       (alist_put ''Token'' (env ''INFLUX_TOKEN'') (alist_put ''URL'' (env ''INFLUXDB_URL'')
         (env_override env bus_vars influx_defaults))))"

text \<open>The rest of \<open>main\<close>: without a token the process ends; otherwise it pings the database until
  that succeeds (\<open>pings\<close> are the answers), then it handles the groups.\<close>

fun influx_main ::
  "settings \<Rightarrow> ('w \<Rightarrow> influx_point \<Rightarrow> 'w) \<Rightarrow> bool list \<Rightarrow> DataGroup list \<Rightarrow> ('w, unit) go" where
  "influx_main c writePoint pings gs w =
     (if setting c ''Token'' = [] then (w, Exit 1)
      else (case dropWhile (\<lambda>ok. \<not> ok) pings of
              [] \<Rightarrow> (w, Ok ())
            | ok # rest \<Rightarrow> (influx_groups writePoint gs w, Ok ())))"

subsection \<open>timescalepump\<close>

record timescale_row =
  ts_ID :: string
  ts_Context :: string
  ts_Label :: string
  ts_Value :: string
  ts_System :: string
  ts_time :: string

definition timescale_row_of :: "DataValue \<Rightarrow> timescale_row" where
  "timescale_row_of v =
     \<lparr>ts_ID = dv_ID v, ts_Context = dv_Context v, ts_Label = dv_Label v, ts_Value = dv_Value v,
      ts_System = dv_System v, ts_time = dv_Timestamp v\<rparr>"

text \<open>A connection pool: sending a batch gives the result of each statement and of closing the
  batch; \<open>pool_exec\<close> runs one statement.\<close>

record 'd pg_pool =
  pool_connect :: "string \<Rightarrow> 'd outcome"
  pool_exec :: "string \<Rightarrow> 'd \<Rightarrow> 'd \<times> gerror option"
  pool_batch :: "timescale_row list \<Rightarrow> 'd \<Rightarrow> 'd \<times> gerror option list \<times> gerror option"

definition timescale_group :: "'d pg_pool \<Rightarrow> DataGroup \<Rightarrow> ('d, unit) go" where
  "timescale_group pool g d =
     (case pool_batch pool (map timescale_row_of (elems (dg_Values g))) d of
        (d', results, closed) \<Rightarrow>
          (d', if (\<exists>e\<in>set results. e \<noteq> None) \<or> closed \<noteq> None then Exit 1 else Ok ()))"

definition timescale_groups :: "'d pg_pool \<Rightarrow> DataGroup list \<Rightarrow> ('d, unit) go" where
  "timescale_groups pool = each_group (timescale_group pool)"

definition timescale_defaults :: settings where
  "timescale_defaults = bus_defaults @ [(''timescaleuser'', ''postgres''), (''timescalepwd'', ''postgres''),
     (''timescaleDBHost'', ''localhost''), (''timescaleDBHostPort'', ''5432''),
     (''timescaleDBName'', ''poweredge_telemetry_metrics'')]"

definition timescale_settings :: "(string \<Rightarrow> string) \<Rightarrow> settings" where
  "timescale_settings env = env_override env
     (bus_vars @ [(''POSTGRES_USER'', ''timescaleuser''), (''POSTGRES_DEFAULT_PWD'', ''timescalepwd''),
        (''TIMESCALE_SERVER'', ''timescaleDBHost''), (''TIMESCALE_DB'', ''timescaleDBName'')])
     timescale_defaults"

text \<open>The table is created by two statements, here named by what they do.\<close>

definition initalizePQLWithTimescale :: "'d pg_pool \<Rightarrow> settings \<Rightarrow> 'd outcome" where
  "initalizePQLWithTimescale pool c =
     outcome_bind
       (pool_connect pool
          (''postgresql://'' @ setting c ''timescaleuser'' @ '':'' @ setting c ''timescalepwd'' @ ''@''
           @ setting c ''timescaleDBHost'' @ '':'' @ setting c ''timescaleDBHostPort'' @ ''/''
           @ setting c ''timescaleDBName''))
       (\<lambda>d. case pool_exec pool ''CREATE EXTENSION IF NOT EXISTS timescaledb CASCADE;'' d of
          (d1, Some e) \<Rightarrow> Err e
        | (d1, None) \<Rightarrow>
            (case pool_exec pool ''CREATE TABLE IF NOT EXISTS timeseries_metrics'' d1 of
               (d2, Some e) \<Rightarrow> Err e
             | (d2, None) \<Rightarrow> Ok d2))"

subsection \<open>elkpump\<close>

record elk_item =
  ei_Action :: string
  ei_DocumentID :: string
  ei_Body :: string

definition elk_item_of :: "DataValue \<Rightarrow> elk_item" where
  "elk_item_of v = \<lparr>ei_Action = ''index'', ei_DocumentID = dv_ID v, ei_Body = json_print (enc_value v)\<rparr>"

definition elk_value :: "(elk_item \<Rightarrow> ('i, unit) go) \<Rightarrow> DataValue \<Rightarrow> ('i, unit) go" where
  "elk_value add v = tryS (add (elk_item_of v)) (\<lambda>u. liftS (Ok ())) (\<lambda>e. liftS (Exit 1))"

definition elk_groups :: "(elk_item \<Rightarrow> ('i, unit) go) \<Rightarrow> DataGroup list \<Rightarrow> ('i, unit) go" where
  "elk_groups add = each_group (\<lambda>g. each_group (elk_value add) (elems (dg_Values g)))"

subsection \<open>elkpump-basic\<close>

record DataValueElasticSearch =
  es_ID :: string
  es_Context :: string
  es_Label :: string
  es_Value :: string
  es_System :: string
  es_Timestamp :: string
  es_ValueAggregatable :: float64

definition enc_es :: "DataValueElasticSearch \<Rightarrow> json option" where
  "enc_es e =
     map_option (\<lambda>x. JObj [(''ID'', JStr (es_ID e)), (''Context'', JStr (es_Context e)),
         (''Label'', JStr (es_Label e)), (''Value'', JStr (es_Value e)), (''System'', JStr (es_System e)),
         (''Timestamp'', JStr (es_Timestamp e)), (''ValueAggregatable'', x)])
       (json_of_float (es_ValueAggregatable e))"

definition float_int :: "int \<Rightarrow> float64" where
  "float_int i =
     (case float_nat (nat \<bar>i\<bar>) of
        Fin neg m e \<Rightarrow> Fin (i < 0) m e
      | Inf neg \<Rightarrow> Inf (i < 0)
      | NaN \<Rightarrow> NaN)"

definition aggregatable :: "string \<Rightarrow> float64" where
  "aggregatable s =
     (case parse_int64 s of
        (i, True) \<Rightarrow> float_int i
      | (i, False) \<Rightarrow>
          (case ParseFloat s of
             (f, ok) \<Rightarrow> if ok \<and> f \<noteq> NaN then f else float_zero))"

definition es_value :: "DataValue \<Rightarrow> DataValueElasticSearch" where
  "es_value v =
     \<lparr>es_ID = dv_ID v, es_Context = dv_Context v, es_Label = dv_Label v, es_Value = dv_Value v,
      es_System = dv_System v, es_Timestamp = dv_Timestamp v,
      es_ValueAggregatable = aggregatable (dv_Value v)\<rparr>"

definition es_meta :: "DataValue \<Rightarrow> string" where
  "es_meta v = ''{ '' @ [DQ] @ ''index'' @ [DQ] @ '' : { '' @ [DQ] @ ''_id'' @ [DQ] @ '' : '' @ [DQ]
     @ dv_ID v @ ''-'' @ dv_Timestamp v @ [DQ] @ '' } }'' @ [LF]"

text \<open>The buffer after a value: values without a text are skipped; a value that cannot be encoded
  ends the process.\<close>

definition es_append :: "DataValue \<Rightarrow> (string, unit) go" where
  "es_append v buf =
     (if dv_Value v = [] then (buf, Ok ())
      else (case enc_es (es_value v) of
              None \<Rightarrow> (buf, Exit 1)
            | Some j \<Rightarrow> (buf @ es_meta v @ json_print j @ [LF], Ok ())))"

text \<open>The answer of a bulk request, decoded: a failed request; an error status, with the fields of
  its \<open>error\<close> object if the body is JSON and has one; or the status of each item, if the body
  can be decoded.\<close>

datatype bulk_answer = BulkFailed | BulkError "(string \<times> json) list option option" | BulkItems "int list option"

record 'e elk_basic =
  eb_net :: 'e
  eb_numErrors :: int
  eb_numIndexed :: int

definition es_answer :: "bulk_answer \<Rightarrow> ('e elk_basic, unit) go" where
  "es_answer a s =
     (case a of
        BulkFailed \<Rightarrow> (s, Exit 1)
      | BulkError None \<Rightarrow> (s, Exit 1)
      | BulkError (Some None) \<Rightarrow> (s, Panic ''interface conversion'')
      | BulkError (Some (Some err)) \<Rightarrow> (s, Ok ())
      | BulkItems None \<Rightarrow> (s, Exit 1)
      | BulkItems (Some statuses) \<Rightarrow>
          (s\<lparr>eb_numErrors := eb_numErrors s + int (length (filter (\<lambda>st. 201 < st) statuses)),
             eb_numIndexed := eb_numIndexed s + int (length (filter (\<lambda>st. \<not> 201 < st) statuses))\<rparr>, Ok ()))"

definition elk_basic_group :: "('e \<Rightarrow> string \<Rightarrow> 'e \<times> bulk_answer) \<Rightarrow> DataGroup \<Rightarrow> ('e elk_basic, unit) go" where
  "elk_basic_group bulk g s =
     (case each_group es_append (elems (dg_Values g)) [] of
        (buf, Ok u) \<Rightarrow> (case bulk (eb_net s) buf of (e, a) \<Rightarrow> es_answer a (s\<lparr>eb_net := e\<rparr>))
      | (buf, Err e) \<Rightarrow> (s, Err e)
      | (buf, Panic w) \<Rightarrow> (s, Panic w)
      | (buf, Exit n) \<Rightarrow> (s, Exit n))"

definition elk_basic_groups :: "('e \<Rightarrow> string \<Rightarrow> 'e \<times> bulk_answer) \<Rightarrow> DataGroup list \<Rightarrow> ('e elk_basic, unit) go" where
  "elk_basic_groups bulk = each_group (elk_basic_group bulk)"

definition elk_defaults :: settings where
  "elk_defaults = bus_defaults"

definition elk_settings :: "(string \<Rightarrow> string) \<Rightarrow> settings" where
  "elk_settings env = env_override env bus_vars elk_defaults"

definition elk_basic_defaults :: settings where
  "elk_basic_defaults = bus_defaults"

definition elk_basic_settings :: "(string \<Rightarrow> string) \<Rightarrow> settings" where
  "elk_basic_settings env = env_override env bus_vars elk_basic_defaults"

subsection \<open>Lemmas\<close>

lemma influx_settings_URL: "setting (influx_settings env) ''URL'' = env ''INFLUXDB_URL''"
  by (simp add: influx_settings_def)

text \<open>A batch of readings reaches the table unchanged, one row for each value.\<close>

lemma timescale_group_rows:
  assumes "timescale_group pool g d = (d', Ok ())"
  shows "\<exists>results. pool_batch pool (map timescale_row_of (elems (dg_Values g))) d = (d', results, None)
    \<and> (\<forall>e\<in>set results. e = None)"
  using assms by (auto simp: timescale_group_def split: prod.splits if_splits)

text \<open>An infinite value, which can be parsed but not encoded, ends the process.\<close>

lemma es_append_infinite:
  assumes "parse_int64 (dv_Value v) = (i, False)" and "ParseFloat (dv_Value v) = (Inf neg, True)" and "dv_Value v \<noteq> []"
  shows "es_append v buf = (buf, Exit 1)"
  using assms by (simp add: es_append_def enc_es_def es_value_def aggregatable_def json_of_float_def)

end
