(* ===== verification/Programs.thy ===== *)
theory Programs
  imports Brokers Discovery Gauges Databases
begin

text \<open>
  How the programs start: the constructors of \<^verbatim>\<open>internal/messagebus/stomp/stomp.go\<close>, the loop
  that dials the message bus until it answers, and the \<open>main\<close> functions of the programs that
  need no further configuration: \<^verbatim>\<open>cmd/prometheuspump\<close>, \<^verbatim>\<open>cmd/influxpump\<close>,
  \<^verbatim>\<open>cmd/timescalepump\<close>, \<^verbatim>\<open>cmd/elkpump\<close>, \<^verbatim>\<open>cmd/elkpump-basic\<close> and \<^verbatim>\<open>cmd/simpleauth\<close>.

  \<open>dial n addr\<close> is the error, if any, of the \<open>n\<close>th attempt to connect to \<open>addr\<close>. A program is
  modelled with the messages its subscriptions bring; the HTTP servers some of them run beside
  are left out.
\<close>

subsection \<open>Connecting\<close>

type_synonym dialler = "nat \<Rightarrow> string \<Rightarrow> gerror option"

definition NewStompMessageBusFromConn :: StompMessagebus where
  "NewStompMessageBusFromConn = \<lparr>sm_subs = [], sm_log = []\<rparr>"

definition NewStompMessageBus :: "(string \<Rightarrow> gerror option) \<Rightarrow> string \<Rightarrow> int \<Rightarrow> StompMessagebus outcome" where
  "NewStompMessageBus dial host port =
     (case dial (host @ '':'' @ int_dec port) of
        Some e \<Rightarrow> Err e
      | None \<Rightarrow> Ok \<lparr>sm_subs = [], sm_log = []\<rparr>)"

text \<open>The loop the programs share: it dials until an attempt succeeds. The error of \<open>Atoi\<close> is ignored.\<close>

partial_function (option) connect_bus :: "dialler \<Rightarrow> settings \<Rightarrow> nat \<Rightarrow> StompMessagebus option" where
  "connect_bus dial c n =
     (case NewStompMessageBus (dial n) (setting c ''mbhost'') (fst (Atoi (setting c ''mbport''))) of
        Ok mb \<Rightarrow> Some mb
      | _ \<Rightarrow> connect_bus dial c (Suc n))"

text \<open>The groups a pump gets from the messages of its queue.\<close>

definition pump_client :: "'b bus_ops \<Rightarrow> 'b \<Rightarrow> string \<Rightarrow> string \<Rightarrow> nat \<Rightarrow> listen_event list \<Rightarrow> 'b BaseClient \<times> DataGroup list" where
  "pump_client ops bus name queue ch events =
     GetGroup ops ch (fst (pump_subscribe ops queue (NewDataBusClient bus name))) queue events"

subsection \<open>Pumps\<close>

definition prom_main ::
  "StompMessagebus bus_ops \<Rightarrow> 'r gauge_lib \<Rightarrow> 'r \<Rightarrow> dialler \<Rightarrow> (string \<Rightarrow> string) \<Rightarrow> nat \<Rightarrow> listen_event list \<Rightarrow>
   (StompMessagebus BaseClient \<times> 'r gauges \<times> unit outcome) option" where
  "prom_main ops lib registry dial env ch events =
     map_option
       (\<lambda>mb. case pump_client ops mb ''prometheuspump'' ''/prometheus'' ch events of
          (dbClient, groups) \<Rightarrow> (dbClient, prom_groups lib groups registry))
       (connect_bus dial (prom_settings env) 0)"

definition influx_program ::
  "StompMessagebus bus_ops \<Rightarrow> ('w \<Rightarrow> influx_point \<Rightarrow> 'w) \<Rightarrow> 'w \<Rightarrow> dialler \<Rightarrow> (string \<Rightarrow> string) \<Rightarrow> bool list \<Rightarrow>
   nat \<Rightarrow> listen_event list \<Rightarrow> (StompMessagebus BaseClient \<times> 'w \<times> unit outcome) option" where
  "influx_program ops writePoint w dial env pings ch events =
     map_option
       (\<lambda>mb. case pump_client ops mb ''influxpump'' ''/influx'' ch events of
          (dbClient, groups) \<Rightarrow> (dbClient, influx_main (influx_settings env) writePoint pings groups w))
       (connect_bus dial (influx_settings env) 0)"

text \<open>The database is tried until it can be initialised: \<open>pools\<close> are the clients of the attempts.\<close>

fun timescale_connect :: "'d pg_pool list \<Rightarrow> settings \<Rightarrow> ('d pg_pool \<times> 'd) option" where
  "timescale_connect [] c = None"
| "timescale_connect (pool # pools) c =
     (case initalizePQLWithTimescale pool c of
        Ok d \<Rightarrow> Some (pool, d)
      | _ \<Rightarrow> timescale_connect pools c)"

definition timescale_program ::
  "StompMessagebus bus_ops \<Rightarrow> 'd pg_pool list \<Rightarrow> dialler \<Rightarrow> (string \<Rightarrow> string) \<Rightarrow> nat \<Rightarrow> listen_event list \<Rightarrow>
   (StompMessagebus BaseClient \<times> ('d \<times> unit outcome) option) option" where
  "timescale_program ops pools dial env ch events =
     map_option
       (\<lambda>mb. case pump_client ops mb ''timescalepump'' ''/tscalestack'' ch events of
          (dbClient, groups) \<Rightarrow>
            (dbClient, map_option (\<lambda>(pool, d). timescale_groups pool groups d)
                         (timescale_connect pools (timescale_settings env))))
       (connect_bus dial (timescale_settings env) 0)"

subsection \<open>Elasticsearch\<close>

text \<open>The answer to a request: a failure, or a status that is an error or not.\<close>

datatype es_status = EsFailed gerror | EsStatus bool

record 'e es_client =
  ec_get :: "string \<Rightarrow> ('e \<Rightarrow> 'e \<times> es_status)"
  ec_delete :: "string \<Rightarrow> bool \<Rightarrow> ('e \<Rightarrow> 'e \<times> es_status)"
  ec_create :: "string \<Rightarrow> ('e \<Rightarrow> 'e \<times> es_status)"

text \<open>\<open>log.Fatalf\<close> when the request failed and, if \<open>strict\<close>, when its status is an error.\<close>

definition or_fatal :: "bool \<Rightarrow> ('e \<Rightarrow> 'e \<times> es_status) \<Rightarrow> ('e, unit) go" where
  "or_fatal strict request e =
     (case request e of
        (e', EsFailed w) \<Rightarrow> (e', Exit 1)
      | (e', EsStatus err) \<Rightarrow> (e', if strict \<and> err then Exit 1 else Ok ()))"

definition elk_prepare :: "'e es_client \<Rightarrow> ('e, unit) go" where
  "elk_prepare es =
     bindS (or_fatal True (ec_delete es ''idrac_telemetry_metrics'' True))
       (\<lambda>u. or_fatal True (ec_create es ''idrac_telemetry_metrics''))"

text \<open>The server is asked for the index until it answers, whatever its status.\<close>

fun elk_basic_wait :: "'e es_client \<Rightarrow> nat \<Rightarrow> ('e, unit) go" where
  "elk_basic_wait es 0 = liftS (Exit 1)"
| "elk_basic_wait es (Suc i) =
     (\<lambda>e. case ec_get es ''poweredge_telemetry_metrics'' e of
        (e', EsFailed w) \<Rightarrow> elk_basic_wait es i e'
      | (e', EsStatus err) \<Rightarrow> (e', Ok ()))"

text \<open>The index is deleted twice; what the first request answers is not looked at, nor the status of
  the second.\<close>

definition elk_basic_prepare :: "'e es_client \<Rightarrow> ('e, unit) go" where
  "elk_basic_prepare es =
     bindS (elk_basic_wait es 10) (\<lambda>u.
     bindS (\<lambda>e. (fst (ec_delete es ''poweredge_telemetry_metrics'' False e), Ok ())) (\<lambda>u.
     bindS (or_fatal False (ec_delete es ''poweredge_telemetry_metrics'' False)) (\<lambda>u.
       or_fatal True (ec_create es ''poweredge_telemetry_metrics''))))"

text \<open>The making of the client and of the indexer can fail; \<open>indexer\<close> is the \<open>Add\<close> of an indexer
  for an index.\<close>

definition elk_main ::
  "StompMessagebus bus_ops \<Rightarrow> 'e es_client outcome \<Rightarrow> (string \<Rightarrow> (elk_item \<Rightarrow> ('e, unit) go) outcome) \<Rightarrow> 'e \<Rightarrow>
   dialler \<Rightarrow> (string \<Rightarrow> string) \<Rightarrow> nat \<Rightarrow> listen_event list \<Rightarrow>
   (StompMessagebus BaseClient \<times> 'e \<times> unit outcome) option" where
  "elk_main ops client indexer e dial env ch events =
     map_option
       (\<lambda>mb. case pump_client ops mb ''elkpump'' ''/elkstack'' ch events of
          (dbClient, groups) \<Rightarrow>
            (dbClient,
             case (client, indexer ''idrac_telemetry_metrics'') of
               (Ok es, Ok add) \<Rightarrow> bindS (elk_prepare es) (\<lambda>u. elk_groups add groups) e
             | _ \<Rightarrow> (e, Exit 1)))
       (connect_bus dial (elk_settings env) 0)"

definition elk_basic_main ::
  "StompMessagebus bus_ops \<Rightarrow> 'e es_client outcome \<Rightarrow> ('e \<Rightarrow> string \<Rightarrow> 'e \<times> bulk_answer) \<Rightarrow> 'e \<Rightarrow>
   dialler \<Rightarrow> (string \<Rightarrow> string) \<Rightarrow> nat \<Rightarrow> listen_event list \<Rightarrow>
   (StompMessagebus BaseClient \<times> 'e elk_basic \<times> unit outcome) option" where
  "elk_basic_main ops client bulk e dial env ch events =
     map_option
       (\<lambda>mb. case pump_client ops mb ''elkpump-basic'' ''/elkstack'' ch events of
          (dbClient, groups) \<Rightarrow>
            (dbClient,
             let s = \<lambda>e. \<lparr>eb_net = e, eb_numErrors = 0, eb_numIndexed = 0\<rparr> in
             case client of
               Ok es \<Rightarrow>
                 (case elk_basic_prepare es e of
                    (e', Ok u) \<Rightarrow> elk_basic_groups bulk groups (s e')
                  | (e', r) \<Rightarrow> (s e', r))
             | _ \<Rightarrow> (s e, Exit 1)))
       (connect_bus dial (elk_basic_settings env) 0)"

subsection \<open>The authorization service without a database\<close>

definition simpleauth_defaults :: settings where
  "simpleauth_defaults = bus_defaults"

definition simpleauth_settings :: "(string \<Rightarrow> string) \<Rightarrow> settings" where
  "simpleauth_settings env = env_override env bus_vars simpleauth_defaults"

text \<open>The file of the devices must be there; \<open>messages\<close> are the announced services, \<open>envs\<close> the
  envelopes of the command queue, handled after them.\<close>

definition simpleauth_main ::
  "StompMessagebus bus_ops \<Rightarrow> ini_file option \<Rightarrow> ssh_host \<Rightarrow> dialler \<Rightarrow> (string \<Rightarrow> string) \<Rightarrow> nat \<Rightarrow>
   string list \<Rightarrow> Envelope list \<Rightarrow>
   ((StompMessagebus \<times> (string \<times> AuthService) list) option \<times> unit outcome) option" where
  "simpleauth_main ops ini ssh dial env ch messages envs =
     (case ini of
        None \<Rightarrow> Some (None, Exit 1)
      | Some section \<Rightarrow>
          map_option
            (\<lambda>mb. case disc_GetService ops ch (disc_ResendAll ops mb) messages of
               (mb1, services) \<Rightarrow>
                 (case bindS (handleDiscServiceChannel ops section ssh services) (\<lambda>u. simpleauth_loop ops envs) (mb1, []) of
                    (st, r) \<Rightarrow> (Some st, r)))
            (connect_bus dial (simpleauth_settings env) 0))"

subsection \<open>Lemmas\<close>

definition bus_address :: "settings \<Rightarrow> string" where
  "bus_address c = setting c ''mbhost'' @ '':'' @ int_dec (fst (Atoi (setting c ''mbport'')))"

lemma connect_bus_unfold:
  "connect_bus dial c n =
     (if dial n (bus_address c) = None then Some NewStompMessageBusFromConn else connect_bus dial c (Suc n))"
  by (subst connect_bus.simps)
    (auto simp: NewStompMessageBus_def NewStompMessageBusFromConn_def bus_address_def split: option.split)

lemma connect_bus_none: "\<forall>k\<ge>n. dial k (bus_address c) \<noteq> None \<Longrightarrow> connect_bus dial c n = None"
proof (rule ccontr)
  assume fails: "\<forall>k\<ge>n. dial k (bus_address c) \<noteq> None" and "connect_bus dial c n \<noteq> None"
  then obtain mb where "connect_bus dial c n = Some mb" by blast
  then have "\<exists>k\<ge>n. dial k (bus_address c) = None"
    by (rule connect_bus.raw_induct [where P = "\<lambda>dial c n mb. \<exists>k\<ge>n. dial k (bus_address c) = None", rotated])
      (fastforce simp: NewStompMessageBus_def bus_address_def split: option.splits dest: Suc_leD)
  with fails show False by blast
qed

lemma connect_bus_some:
  "n \<le> k \<Longrightarrow> dial k (bus_address c) = None \<Longrightarrow> connect_bus dial c n = Some NewStompMessageBusFromConn"
proof (induction "k - n" arbitrary: n)
  case (Suc x)
  then have "k - Suc n = x" "Suc n \<le> k" by auto
  with Suc show ?case by (subst connect_bus_unfold) simp
qed (subst connect_bus_unfold, simp)

text \<open>What the programs rely on of a server that answers: \<open>docs e i\<close> are the documents of the
  index \<open>i\<close>, if there is one.\<close>

definition es_serves :: "'e es_client \<Rightarrow> ('e \<Rightarrow> string \<Rightarrow> (string \<Rightarrow> string option) option) \<Rightarrow> bool" where
  "es_serves es docs \<longleftrightarrow>
     (\<forall>i e. \<exists>e' err. ec_get es i e = (e', EsStatus err) \<and> docs e' = docs e)
     \<and> (\<forall>i ignore e. \<exists>e'. ec_delete es i ignore e = (e', EsStatus (docs e i = None \<and> \<not> ignore))
          \<and> docs e' = (docs e)(i := None))
     \<and> (\<forall>i e. \<exists>e'. ec_create es i e = (e', EsStatus (docs e i \<noteq> None))
          \<and> docs e' = (if docs e i = None then (docs e)(i \<mapsto> (\<lambda>_. None)) else docs e))"

lemma es_serves_get: "es_serves es docs \<Longrightarrow> \<exists>e' err. ec_get es i e = (e', EsStatus err) \<and> docs e' = docs e"
  by (simp add: es_serves_def)

lemma es_serves_delete: "es_serves es docs \<Longrightarrow>
    \<exists>e'. ec_delete es i ignore e = (e', EsStatus (docs e i = None \<and> \<not> ignore)) \<and> docs e' = (docs e)(i := None)"
  by (simp add: es_serves_def)

lemma es_serves_create: "es_serves es docs \<Longrightarrow>
    \<exists>e'. ec_create es i e = (e', EsStatus (docs e i \<noteq> None))
      \<and> docs e' = (if docs e i = None then (docs e)(i \<mapsto> (\<lambda>_. None)) else docs e)"
  by (simp add: es_serves_def)

text \<open>Both programs begin with an empty index, whatever was stored before.\<close>

lemma elk_prepare_empties:
  assumes "es_serves es docs"
  shows "\<exists>e'. elk_prepare es e = (e', Ok ()) \<and> docs e' = (docs e)(''idrac_telemetry_metrics'' \<mapsto> (\<lambda>_. None))"
proof -
  let ?i = "''idrac_telemetry_metrics''"
  from es_serves_delete [OF assms, of ?i True e] obtain e1 where
    e1: "ec_delete es ?i True e = (e1, EsStatus False)" "docs e1 = (docs e)(?i := None)" by auto
  from es_serves_create [OF assms, of ?i e1] e1(2) obtain e2 where
    e2: "ec_create es ?i e1 = (e2, EsStatus False)" "docs e2 = (docs e)(?i \<mapsto> (\<lambda>_. None))" by auto
  show ?thesis using e1(1) e2 by (intro exI [of _ e2]) (simp add: elk_prepare_def or_fatal_def bindS_def)
qed

lemma elk_basic_prepare_empties:
  assumes "es_serves es docs"
  shows "\<exists>e'. elk_basic_prepare es e = (e', Ok ()) \<and> docs e' = (docs e)(''poweredge_telemetry_metrics'' \<mapsto> (\<lambda>_. None))"
proof -
  let ?i = "''poweredge_telemetry_metrics''"
  from es_serves_get [OF assms, of ?i e] obtain e0 err where
    e0: "ec_get es ?i e = (e0, EsStatus err)" "docs e0 = docs e" by auto
  from es_serves_delete [OF assms, of ?i False e0] obtain e1 x where
    e1: "ec_delete es ?i False e0 = (e1, EsStatus x)" "docs e1 = (docs e)(?i := None)" using e0(2) by auto
  from es_serves_delete [OF assms, of ?i False e1] obtain e2 y where
    e2: "ec_delete es ?i False e1 = (e2, EsStatus y)" "docs e2 = (docs e)(?i := None)" using e1(2) by auto
  from es_serves_create [OF assms, of ?i e2] e2(2) obtain e3 where
    e3: "ec_create es ?i e2 = (e3, EsStatus False)" "docs e3 = (docs e)(?i \<mapsto> (\<lambda>_. None))" by auto
  have "elk_basic_wait es 10 e = (e0, Ok ())" using e0(1) by (simp add: eval_nat_numeral)
  then show ?thesis
    using e1(1) e2(1) e3 by (intro exI [of _ e3]) (simp add: elk_basic_prepare_def or_fatal_def bindS_def)
qed

text \<open>An indexer that puts each item under its document's id.\<close>

definition indexer_puts ::
  "(elk_item \<Rightarrow> ('e, unit) go) \<Rightarrow> ('e \<Rightarrow> string \<Rightarrow> (string \<Rightarrow> string option) option) \<Rightarrow> string \<Rightarrow> bool" where
  "indexer_puts add docs i \<longleftrightarrow>
     (\<forall>item e m. docs e i = Some m \<longrightarrow>
        (\<exists>e'. add item e = (e', Ok ()) \<and> docs e' = (docs e)(i \<mapsto> m(ei_DocumentID item \<mapsto> ei_Body item))))"

definition keep_value :: "DataValue \<Rightarrow> (string \<Rightarrow> string option) \<Rightarrow> (string \<Rightarrow> string option)" where
  "keep_value v m = m(dv_ID v \<mapsto> json_print (enc_value v))"

lemma fold_keep_value:
  "fold keep_value vs m = m ++ map_of (rev (map (\<lambda>v. (dv_ID v, json_print (enc_value v))) vs))"
proof (induction vs arbitrary: m)
  case (Cons v vs)
  let ?row = "\<lambda>v. (dv_ID v, json_print (enc_value v))"
  have "keep_value v m = m ++ map_of [?row v]" by (simp add: keep_value_def)
  moreover have "map_of (rev (map ?row (v # vs))) = map_of [?row v] ++ map_of (rev (map ?row vs))" by simp
  ultimately show ?case using Cons.IH [of "keep_value v m"] by (simp only: fold_simps o_apply map_add_assoc)
qed simp

lemma each_elk_value:
  assumes "indexer_puts add docs i" and "docs e i = Some m"
  shows "\<exists>e'. each_group (elk_value add) vs e = (e', Ok ())
    \<and> docs e' i = Some (fold keep_value vs m)"
  using assms(2)
proof (induction vs arbitrary: e m)
  case (Cons v vs)
  from assms(1) Cons.prems obtain e1 where
    "add (elk_item_of v) e = (e1, Ok ())" "docs e1 i = Some (keep_value v m)"
    unfolding indexer_puts_def keep_value_def by (fastforce simp: elk_item_of_def)
  with Cons.IH [of e1] show ?case by (auto simp: bindS_def elk_value_def tryS_def liftS_def)
qed (simp add: liftS_def)

lemma elk_groups_docs:
  assumes "indexer_puts add docs i" and "docs e i = Some m"
  shows "\<exists>e'. elk_groups add gs e = (e', Ok ())
    \<and> docs e' i = Some (fold keep_value (all_values gs) m)"
  using assms(2)
proof (induction gs arbitrary: e m)
  case (Cons g gs)
  from each_elk_value [OF assms(1) Cons.prems, of "elems (dg_Values g)"] obtain e1 where
    "each_group (elk_value add) (elems (dg_Values g)) e = (e1, Ok ())"
    "docs e1 i = Some (fold keep_value (elems (dg_Values g)) m)" by blast
  with Cons.IH [of e1] show ?case by (auto simp: elk_groups_def bindS_def all_values_def)
qed (simp add: elk_groups_def liftS_def all_values_def)

subsection \<open>Properties\<close>

text \<open>Connecting to the message bus: a program dials the configured host and port, a port that
  is not a number as 0, and waits until an attempt succeeds; it goes on with a new connection
  if one does, and for ever waits if none does.\<close>

theorem bus_connects:
  "connect_bus dial c n =
     (if \<exists>k\<ge>n. dial k (setting c ''mbhost'' @ '':'' @ int_dec (fst (Atoi (setting c ''mbport'')))) = None
      then Some \<lparr>sm_subs = [], sm_log = []\<rparr> else None)"
  using connect_bus_some [of n _ dial c] connect_bus_none [of n dial c]
  by (auto simp: bus_address_def NewStompMessageBusFromConn_def)


text \<open>A server and an indexer that store what they are given, and two devices that report the same
  metric.\<close>

type_synonym es_store = "string \<Rightarrow> (string \<Rightarrow> string option) option"

definition example_es :: "es_store es_client" where
  "example_es =
     \<lparr>ec_get = (\<lambda>i e. (e, EsStatus (e i = None))),
      ec_delete = (\<lambda>i ignore e. (e(i := None), EsStatus (e i = None \<and> \<not> ignore))),
      ec_create = (\<lambda>i e. (if e i = None then e(i \<mapsto> (\<lambda>_. None)) else e, EsStatus (e i \<noteq> None)))\<rparr>"

definition example_indexer :: "string \<Rightarrow> (elk_item \<Rightarrow> (es_store, unit) go) outcome" where
  "example_indexer i =
     Ok (\<lambda>item e. (case e i of
                     None \<Rightarrow> (e, Err ''no such index'')
                   | Some m \<Rightarrow> (e(i \<mapsto> m(ei_DocumentID item \<mapsto> ei_Body item)), Ok ())))"

definition fan_value :: "string \<Rightarrow> string \<Rightarrow> DataValue" where
  "fan_value system speed = zero_value\<lparr>dv_ID := ''RPM'', dv_System := system, dv_Value := speed\<rparr>"


end
