(* ===== verification/Kafkapump.thy ===== *)
theory Kafkapump
  imports Pumps Brokers
begin

text \<open>
  \<^verbatim>\<open>cmd/kafkapump/kafkapump.go\<close>: the pump that turns each group of the data bus into JSON
  events on a Kafka topic, or on two when a topic for alerts is configured.
\<close>

subsection \<open>Events\<close>

record kafkaEventFields =
  kf_Value :: float64
  kf_MetricName :: string
  kf_Source :: string
  kf_AlertId :: string
  kf_MemberId :: string
  kf_Severity :: string
  kf_MessageId :: string
  kf_Message :: string
  kf_OriginOfCondition :: string

record kafkaEvent =
  ke_Time :: int
  ke_Event :: string
  ke_Host :: string
  ke_Fields :: kafkaEventFields

definition zero_kafka_fields :: kafkaEventFields where
  "zero_kafka_fields =
     \<lparr>kf_Value = float_zero, kf_MetricName = [], kf_Source = [], kf_AlertId = [], kf_MemberId = [],
      kf_Severity = [], kf_MessageId = [], kf_Message = [], kf_OriginOfCondition = []\<rparr>"

text \<open>Every field is omitted when it is zero; a value that is no finite number is an error.\<close>

definition enc_kafka_fields :: "kafkaEventFields \<Rightarrow> json option" where
  "enc_kafka_fields f =
     (let rest = opt_str ''metric_name'' (kf_MetricName f) @ opt_str ''source'' (kf_Source f)
            @ opt_str ''alert_id'' (kf_AlertId f) @ opt_str ''memberid'' (kf_MemberId f)
            @ opt_str ''severity'' (kf_Severity f) @ opt_str ''message_id'' (kf_MessageId f)
            @ opt_str ''message'' (kf_Message f) @ opt_str ''origin'' (kf_OriginOfCondition f) in
      if is_pos_zero (kf_Value f) then Some (JObj rest)
      else map_option (\<lambda>j. JObj ((''_value'', j) # rest)) (json_of_float (kf_Value f)))"

definition enc_kafka_event :: "kafkaEvent \<Rightarrow> json option" where
  "enc_kafka_event e =
     map_option (\<lambda>j. JObj [(''time'', enc_int (ke_Time e)), (''event'', JStr (ke_Event e)),
                            (''host'', JStr (ke_Host e)), (''fields'', j)])
       (enc_kafka_fields (ke_Fields e))"

text \<open>\<open>jsonStr, _ := json.Marshal(events)\<close>: after an error, \<open>jsonStr\<close> is empty.\<close>

definition kafka_events_text :: "kafkaEvent list \<Rightarrow> string" where
  "kafka_events_text es =
     (case all_some (map enc_kafka_event es) of None \<Rightarrow> [] | Some js \<Rightarrow> json_print (JArr js))"

definition kafka_metric_value :: "string \<Rightarrow> float64" where
  "kafka_metric_value s =
     (let l = to_lower s in
      if l = ''true'' then float_nat 1
      else if l = ''false'' then float_zero
      else (case ParseFloat s of (f, ok) \<Rightarrow> if ok then f else float_zero))"

definition kafka_metric_event :: "DataValue \<Rightarrow> kafkaEvent option" where
  "kafka_metric_event v =
     map_option (\<lambda>t. \<lparr>ke_Time = Unix t, ke_Event = ''metric'', ke_Host = dv_System v,
         ke_Fields = zero_kafka_fields\<lparr>kf_Value := kafka_metric_value (dv_Value v),
                                       kf_MetricName := reading_name v\<rparr>\<rparr>)
       (reading_time (dv_Timestamp v))"

definition kafka_alert_event :: "string \<Rightarrow> EventValue \<Rightarrow> kafkaEvent option" where
  "kafka_alert_event host e =
     map_option (\<lambda>t. \<lparr>ke_Time = Unix t, ke_Event = ''alert'', ke_Host = host,
         ke_Fields = zero_kafka_fields\<lparr>kf_AlertId := ev_EventId e, kf_MemberId := ev_MemberId e,
           kf_MessageId := ev_MessageId e, kf_Severity := ev_MessageSeverity e, kf_Message := ev_Message e,
           kf_OriginOfCondition := ev_OriginOfCondition e\<rparr>\<rparr>)
       (reading_time (ev_EventTimestamp e))"

definition kafka_metrics :: "DataGroup \<Rightarrow> kafkaEvent list" where
  "kafka_metrics g = List.map_filter kafka_metric_event (elems (dg_Values g))"

definition kafka_alerts :: "DataGroup \<Rightarrow> kafkaEvent list" where
  "kafka_alerts g = List.map_filter (kafka_alert_event (dg_System g)) (elems (dg_Events g))"

subsection \<open>The processing loop\<close>

text \<open>A failed send ends the process.\<close>

definition kafkapump_send :: "'b bus_ops \<Rightarrow> kafkaEvent list \<Rightarrow> string \<Rightarrow> ('b, unit) go" where
  "kafkapump_send ops es topic =
     tryS (\<lambda>b. send_msg ops b (kafka_events_text es) topic) (\<lambda>u. liftS (Ok ())) (\<lambda>e. liftS (Exit 1))"

definition kafkapump_group :: "'b bus_ops \<Rightarrow> settings \<times> DataGroup \<Rightarrow> ('b, unit) go" where
  "kafkapump_group ops cg =
     (case cg of (c, g) \<Rightarrow>
       (let metrics = kafka_metrics g; alerts = kafka_alerts g;
            topic = setting c ''kafkaTopic''; alert_topic = setting c ''kafkaAlertTopic'' in
        if alert_topic \<noteq> [] then
          bindS (if metrics \<noteq> [] then kafkapump_send ops metrics topic else liftS (Ok ())) (\<lambda>u.
            if alerts \<noteq> [] then kafkapump_send ops alerts alert_topic else liftS (Ok ()))
        else kafkapump_send ops (metrics @ alerts) topic))"

text \<open>Each group is sent under the settings in force when it arrives.\<close>

definition kafkapump_groups :: "'b bus_ops \<Rightarrow> (settings \<times> DataGroup) list \<Rightarrow> ('b, unit) go" where
  "kafkapump_groups ops = each_group (kafkapump_group ops)"

subsection \<open>Configuration\<close>

definition kafkapump_defaults :: settings where
  "kafkapump_defaults = bus_defaults @
     [(''kafkaBroker'', []), (''kafkaTopic'', []), (''kafkaAlertTopic'', []), (''kafkaPartition'', ''0''),
      (''kafkaCACert'', []), (''kafkaClientCert'', []), (''kafkaClientKey'', []), (''kafkaSkipVerify'', [])]"

definition kafkapump_items :: "(string \<times> settings ConfigEntry) list" where
  "kafkapump_items = string_items ''unknown property ''
     [(''kafkaBroker'', []), (''kafkaTopic'', []), (''kafkaAlertTopic'', []), (''kafkaPartition'', ''0''),
      (''kafkaCACert'', []), (''kafkaClientCert'', []), (''kafkaClientKey'', []), (''kafkaSkipVerify'', [])]"

definition kafkapump_settings :: "(string \<Rightarrow> string) \<Rightarrow> settings" where
  "kafkapump_settings env = env_override env
     (bus_vars @ [(''KAFKA_BROKER'', ''kafkaBroker''), (''KAFKA_TOPIC'', ''kafkaTopic''),
        (''KAFKA_ALERT_TOPIC'', ''kafkaAlertTopic''), (''KAFKA_PARTITION'', ''kafkaPartition''),
        (''KAFKA_CACERT'', ''kafkaCACert''), (''KAFKA_CLIENT_CERT'', ''kafkaClientCert''),
        (''KAFKA_CLIENT_KEY'', ''kafkaClientKey''), (''KAFKA_SKIP_VERIFY'', ''kafkaSkipVerify'')])
     kafkapump_defaults"

text \<open>What \<open>main\<close> keeps of the settings while it waits for a broker and a topic. Certificates and
  the verification flag, once read, are kept when the setting is emptied.\<close>

record kafkapump_config =
  kp_broker :: "string list"
  kp_topic :: string
  kp_part :: string
  kp_tls :: KafkaTLSConfig

definition kafkapump_unread :: kafkapump_config where
  "kafkapump_unread = \<lparr>kp_broker = [], kp_topic = [], kp_part = [],
     kp_tls = \<lparr>kc_ServerCA = [], kc_ClientCert = [], kc_ClientKey = [], kc_SkipVerify = False\<rparr>\<rparr>"

definition cert_path :: "settings \<Rightarrow> string \<Rightarrow> string \<Rightarrow> string" where
  "cert_path c k old = (if setting c k \<noteq> [] then ''/extrabin/certs/'' @ setting c k else old)"

definition kafkapump_read :: "settings \<Rightarrow> kafkapump_config \<Rightarrow> kafkapump_config" where
  "kafkapump_read c k =
     \<lparr>kp_broker = split_on (CHR '':'') (setting c ''kafkaBroker''),
      kp_topic = setting c ''kafkaTopic'',
      kp_part = setting c ''kafkaPartition'',
      kp_tls = \<lparr>kc_ServerCA = cert_path c ''kafkaCACert'' (kc_ServerCA (kp_tls k)),
                kc_ClientCert = cert_path c ''kafkaClientCert'' (kc_ClientCert (kp_tls k)),
                kc_ClientKey = cert_path c ''kafkaClientKey'' (kc_ClientKey (kp_tls k)),
                kc_SkipVerify = (setting c ''kafkaSkipVerify'' = ''true'' \<or> kc_SkipVerify (kp_tls k))\<rparr>\<rparr>"

definition kafkapump_configured :: "kafkapump_config \<Rightarrow> bool" where
  "kafkapump_configured k \<longleftrightarrow> 1 < length (kp_broker k) \<and> hd (kp_broker k) \<noteq> [] \<and> kp_topic k \<noteq> []"

text \<open>The settings at each turn of the loop; \<open>None\<close> while it is still waiting.\<close>

fun kafkapump_wait :: "settings list \<Rightarrow> kafkapump_config \<Rightarrow> kafkapump_config option" where
  "kafkapump_wait [] k = None"
| "kafkapump_wait (c # cs) k =
     (let k' = kafkapump_read c k in
      if kafkapump_configured k' then Some k' else kafkapump_wait cs k')"

text \<open>The connection is tried over the network of each attempt until one succeeds.\<close>

fun kafkapump_connect ::
  "(string \<Rightarrow> string outcome) \<Rightarrow> (string \<Rightarrow> string \<Rightarrow> gerror option) \<Rightarrow> kafka_net list \<Rightarrow> kafkapump_config \<Rightarrow>
   KafkaMessagebus outcome option" where
  "kafkapump_connect readFile keyPair [] k = None"
| "kafkapump_connect readFile keyPair (net # nets) k =
     (case NewKafkaMessageBus net readFile keyPair (kp_broker k ! 0) (fst (parse_int64 (kp_broker k ! 1)))
             (kp_topic k) (Some (kp_tls k)) of
        Err e \<Rightarrow> kafkapump_connect readFile keyPair nets k
      | r \<Rightarrow> Some r)"

text \<open>The start of \<open>main\<close> once the internal bus is connected: the client of the data bus and the
  configuration service.\<close>

definition kafkapump_start ::
  "'b bus_ops \<Rightarrow> 'b \<Rightarrow> settings \<Rightarrow> 'b BaseClient \<times> ('b, settings) ConfigService" where
  "kafkapump_start ops bus c =
     (let bc = fst (pump_subscribe ops ''/kafka'' (NewDataBusClient bus ''kafkapump'')) in
      (bc, NewConfigService (bc_Bus bc) ''/kafkapump/config'' kafkapump_items c))"

subsection \<open>What a consumer of the topics reads\<close>

definition kafka_json :: "string \<Rightarrow> json list" where
  "kafka_json m = (case json_parse m of Some (JArr js) \<Rightarrow> js | _ \<Rightarrow> [])"

definition field :: "string \<Rightarrow> json \<Rightarrow> json option" where
  "field k j = (case j of JObj ms \<Rightarrow> map_of ms k | _ \<Rightarrow> None)"

definition str_field :: "string \<Rightarrow> json \<Rightarrow> string" where
  "str_field k j = (case field k j of Some (JStr s) \<Rightarrow> s | _ \<Rightarrow> [])"

definition inner_field :: "string \<Rightarrow> json \<Rightarrow> json" where
  "inner_field k j = (case field k j of Some f \<Rightarrow> f | None \<Rightarrow> JNull)"

text \<open>The event of a metric value and that of an alert.\<close>

definition metric_carries :: "DataValue \<Rightarrow> json \<Rightarrow> bool" where
  "metric_carries v j \<longleftrightarrow>
     (\<exists>t. reading_time (dv_Timestamp v) = Some t \<and> field ''time'' j = Some (JNum (int_dec (Unix t))))
     \<and> str_field ''event'' j = ''metric'' \<and> str_field ''host'' j = dv_System v
     \<and> str_field ''metric_name'' (inner_field ''fields'' j) = dv_Context v @ ''_'' @ dv_ID v
     \<and> field ''_value'' (inner_field ''fields'' j) =
         (if is_pos_zero (kafka_metric_value (dv_Value v)) then None
          else json_of_float (kafka_metric_value (dv_Value v)))"

definition alert_carries :: "string \<Rightarrow> EventValue \<Rightarrow> json \<Rightarrow> bool" where
  "alert_carries host e j \<longleftrightarrow>
     (\<exists>t. reading_time (ev_EventTimestamp e) = Some t \<and> field ''time'' j = Some (JNum (int_dec (Unix t))))
     \<and> str_field ''event'' j = ''alert'' \<and> str_field ''host'' j = host
     \<and> (let f = inner_field ''fields'' j in
          str_field ''alert_id'' f = ev_EventId e \<and> str_field ''memberid'' f = ev_MemberId e
          \<and> str_field ''severity'' f = ev_MessageSeverity e \<and> str_field ''message_id'' f = ev_MessageId e
          \<and> str_field ''message'' f = ev_Message e \<and> str_field ''origin'' f = ev_OriginOfCondition e
          \<and> field ''_value'' f = None)"

definition readable_values :: "DataGroup \<Rightarrow> DataValue list" where
  "readable_values g = filter (\<lambda>v. reading_time (dv_Timestamp v) \<noteq> None) (elems (dg_Values g))"

definition readable_events :: "DataGroup \<Rightarrow> EventValue list" where
  "readable_events g = filter (\<lambda>e. reading_time (ev_EventTimestamp e) \<noteq> None) (elems (dg_Events g))"

definition values_finite :: "DataGroup \<Rightarrow> bool" where
  "values_finite g = list_all (\<lambda>v. is_finite (kafka_metric_value (dv_Value v))) (readable_values g)"

subsection \<open>Lemmas\<close>

lemma field_simps [simp]:
  "field k (JObj ((k', j) # ms)) = (if k = k' then Some j else field k (JObj ms))"
  "field k (JObj []) = None"
  by (simp_all add: field_def)

lemma field_opt_str [simp]:
  "field k (JObj (opt_str k' s @ ms)) = (if k = k' \<and> s \<noteq> [] then Some (JStr s) else field k (JObj ms))"
  "field k (JObj (opt_str k' s)) = (if k = k' \<and> s \<noteq> [] then Some (JStr s) else None)"
  by (simp_all add: opt_str_def field_def)

lemma map_filter_map: "List.map_filter f xs = map (\<lambda>x. the (f x)) (filter (\<lambda>x. f x \<noteq> None) xs)"
  by (induction xs) (auto simp: map_filter_def)

lemma json_ok_kafka_event: "enc_kafka_event e = Some j \<Longrightarrow> json_ok j"
  by (auto simp: enc_kafka_event_def enc_kafka_fields_def Let_def wire_simps json_of_float_ok
      split: if_splits)

lemma kafka_event_finite: "enc_kafka_event e = None \<longleftrightarrow> \<not> is_finite (kf_Value (ke_Fields e))"
  by (auto simp: enc_kafka_event_def enc_kafka_fields_def Let_def json_of_float_finite is_pos_zero_def
      is_finite_def split: float64.splits)

lemma kafka_json_text:
  assumes "\<forall>e\<in>set es. is_finite (kf_Value (ke_Fields e))"
  shows "kafka_json (kafka_events_text es) = map (\<lambda>e. the (enc_kafka_event e)) es"
proof -
  let ?js = "map (\<lambda>e. the (enc_kafka_event e)) es"
  have some: "enc_kafka_event e \<noteq> None" if "e \<in> set es" for e
    using that assms kafka_event_finite [of e] by blast
  then have printed: "kafka_events_text es = json_print (JArr ?js)"
    by (auto simp: kafka_events_text_def all_some_map)
  have "list_all json_ok ?js"
    using some json_ok_kafka_event by (auto simp: list_all_iff)
  then have "json_parse (json_print (JArr ?js)) = Some (JArr ?js)" by (intro json_parse_print) simp
  then show ?thesis unfolding kafka_json_def printed by simp
qed

lemma kafka_text_not_finite:
  "\<exists>e\<in>set es. \<not> is_finite (kf_Value (ke_Fields e)) \<Longrightarrow> kafka_events_text es = []"
  using kafka_event_finite by (fastforce simp: kafka_events_text_def all_some_map)

lemma kafka_metrics_map:
  "kafka_metrics g = map (\<lambda>v. the (kafka_metric_event v)) (readable_values g)"
  by (simp add: kafka_metrics_def map_filter_map readable_values_def kafka_metric_event_def)

lemma kafka_alerts_map:
  "kafka_alerts g = map (\<lambda>e. the (kafka_alert_event (dg_System g) e)) (readable_events g)"
  by (simp add: kafka_alerts_def map_filter_map readable_events_def kafka_alert_event_def)

lemma metric_event_carries:
  assumes "v \<in> set (readable_values g)" and "is_finite (kafka_metric_value (dv_Value v))"
  shows "metric_carries v (the (enc_kafka_event (the (kafka_metric_event v))))"
proof -
  from assms(1) obtain t where t: "reading_time (dv_Timestamp v) = Some t"
    by (auto simp: readable_values_def)
  obtain j where "json_of_float (kafka_metric_value (dv_Value v)) = Some j"
    using assms(2) json_of_float_finite by blast
  with t show ?thesis
    by (simp add: metric_carries_def kafka_metric_event_def enc_kafka_event_def enc_kafka_fields_def
        zero_kafka_fields_def Let_def enc_int_def str_field_def inner_field_def reading_name_def)
qed

lemma alert_event_carries:
  assumes "e \<in> set (readable_events g)"
  shows "alert_carries h e (the (enc_kafka_event (the (kafka_alert_event h e))))"
proof -
  from assms obtain t where t: "reading_time (ev_EventTimestamp e) = Some t"
    by (auto simp: readable_events_def)
  have z: "is_pos_zero float_zero" by (simp add: is_pos_zero_def float_zero_def)
  from t show ?thesis
    by (simp add: alert_carries_def kafka_alert_event_def enc_kafka_event_def enc_kafka_fields_def z
        zero_kafka_fields_def Let_def enc_int_def str_field_def inner_field_def)
qed

lemma metric_events_carried:
  assumes "values_finite g"
  shows "list_all2 metric_carries (readable_values g) (kafka_json (kafka_events_text (kafka_metrics g)))"
proof -
  have f: "\<forall>v\<in>set (readable_values g). is_finite (kafka_metric_value (dv_Value v))"
    using assms by (simp add: values_finite_def list_all_iff)
  have "is_finite (kf_Value (ke_Fields (the (kafka_metric_event v))))" if "v \<in> set (readable_values g)" for v
    using that f by (auto simp: kafka_metric_event_def readable_values_def zero_kafka_fields_def)
  then have "kafka_json (kafka_events_text (kafka_metrics g))
      = map (\<lambda>v. the (enc_kafka_event (the (kafka_metric_event v)))) (readable_values g)"
    by (subst kafka_json_text) (auto simp: kafka_metrics_map)
  with f metric_event_carries show ?thesis
    by (auto simp: list_all2_conv_all_nth all_set_conv_all_nth intro: nth_mem)
qed

lemma alert_events_carried:
  "list_all2 (alert_carries (dg_System g)) (readable_events g) (kafka_json (kafka_events_text (kafka_alerts g)))"
proof -
  have "is_finite (kf_Value (ke_Fields (the (kafka_alert_event h e))))" if "e \<in> set (readable_events g)" for h e
    using that by (auto simp: kafka_alert_event_def readable_events_def zero_kafka_fields_def is_finite_def float_zero_def)
  then have "kafka_json (kafka_events_text (kafka_alerts g))
      = map (\<lambda>e. the (enc_kafka_event (the (kafka_alert_event (dg_System g) e)))) (readable_events g)"
    by (subst kafka_json_text) (auto simp: kafka_alerts_map)
  with alert_event_carries show ?thesis
    by (auto simp: list_all2_conv_all_nth intro: nth_mem)
qed

text \<open>Sending over any bus that keeps the contract: a regular result means the message is out, and
  there is no other result but the end of the process.\<close>

context message_bus
begin

lemma kafkapump_send_sent:
  "kafkapump_send ops es q b = (b', Ok ()) \<Longrightarrow>
     sent b' = (sent b)(addr q := sent b (addr q) @ [kafka_events_text es])"
  by (auto simp: kafkapump_send_def tryS_Ok liftS_def dest: send_ok)

lemma kafkapump_group_one_topic:
  assumes "kafkapump_group ops (c, g) b = (b', Ok ())" and "setting c ''kafkaAlertTopic'' = []"
  shows "sent b' = (sent b)(addr (setting c ''kafkaTopic'') :=
    sent b (addr (setting c ''kafkaTopic'')) @ [kafka_events_text (kafka_metrics g @ kafka_alerts g)])"
  using assms by (auto simp: kafkapump_group_def Let_def dest: kafkapump_send_sent)

lemma kafkapump_part_sent:
  assumes "(if es \<noteq> [] then kafkapump_send ops es q else liftS (Ok ())) b = (b', Ok ())"
  shows "sent b' = (sent b)(addr q := sent b (addr q) @ (if es = [] then [] else [kafka_events_text es]))"
  using assms by (auto simp: liftS_def dest: kafkapump_send_sent split: if_splits)

lemma kafkapump_group_two_topics:
  assumes "kafkapump_group ops (c, g) b = (b', Ok ())" and "setting c ''kafkaAlertTopic'' \<noteq> []"
    and "addr (setting c ''kafkaTopic'') \<noteq> addr (setting c ''kafkaAlertTopic'')"
  shows "sent b' = (sent b)
    (addr (setting c ''kafkaTopic'') := sent b (addr (setting c ''kafkaTopic''))
        @ (if kafka_metrics g = [] then [] else [kafka_events_text (kafka_metrics g)]),
     addr (setting c ''kafkaAlertTopic'') := sent b (addr (setting c ''kafkaAlertTopic''))
        @ (if kafka_alerts g = [] then [] else [kafka_events_text (kafka_alerts g)]))"
proof -
  let ?m = "if kafka_metrics g \<noteq> [] then kafkapump_send ops (kafka_metrics g) (setting c ''kafkaTopic'')
            else liftS (Ok ())"
  let ?a = "if kafka_alerts g \<noteq> [] then kafkapump_send ops (kafka_alerts g) (setting c ''kafkaAlertTopic'')
            else liftS (Ok ())"
  from assms(1,2) obtain b1 where "?m b = (b1, Ok ())" and "?a b1 = (b', Ok ())"
    by (auto simp: kafkapump_group_def Let_def bindS_Ok)
  from kafkapump_part_sent [OF this(1)] kafkapump_part_sent [OF this(2)] assms(3) show ?thesis by simp
qed

end

lemma kafkapump_send_ends:
  assumes "kafkapump_send (kafka_ops net) es q b = (b', r)"
  shows "r = Ok () \<or> r = Exit 1"
proof -
  obtain b1 x where x: "kafka_SendMessage net b (kafka_events_text es) q = (b1, x)"
    by (cases "kafka_SendMessage net b (kafka_events_text es) q")
  from kafka_send_ends [OF x] assms x show ?thesis
    by (cases x) (auto simp: kafkapump_send_def tryS_def liftS_def kafka_ops_def)
qed

lemma kafkapump_group_ends:
  assumes "kafkapump_group (kafka_ops net) (c, g) b = (b', r)"
  shows "r = Ok () \<or> r = Exit 1"
  using assms kafkapump_send_ends
  by (fastforce simp: kafkapump_group_def Let_def bindS_def liftS_def
      split: if_splits prod.splits outcome.splits)

subsection \<open>Properties\<close>


definition example_settings :: settings where
  "example_settings = [(''kafkaTopic'', ''metrics''), (''kafkaAlertTopic'', ''alerts'')]"

definition example_reading :: "string \<Rightarrow> string \<Rightarrow> DataValue" where
  "example_reading v t = zero_value\<lparr>dv_ID := ''CPUUsage'', dv_Context := ''CPU.1'', dv_Value := v,
     dv_System := ''SVCTAG1'', dv_Timestamp := t\<rparr>"

definition example_readings :: DataGroup where
  "example_readings = zero_group\<lparr>dg_System := ''SVCTAG1'',
     dg_Values := Some [example_reading ''true'' ''2024-01-01T00:00:00+0000'', example_reading ''1'' ''yesterday''],
     dg_Events := Some [zero_event\<lparr>ev_EventId := ''7'', ev_EventTimestamp := ''2024-01-01T00:00:05Z''\<rparr>]\<rparr>"

definition fresh_kafka :: KafkaMessagebus where
  "fresh_kafka = \<lparr>kb_conns = (\<lambda>_. None), kb_addr = ''kafka:9092'', kb_tls = None, kb_subs = [], kb_log = []\<rparr>"

lemma example_times:
  "reading_time ''2024-01-01T00:00:00+0000'' \<noteq> None" "reading_time ''yesterday'' = None"
  "reading_time ''2024-01-01T00:00:05Z'' \<noteq> None"
  by code_simp+

lemma example_readable:
  "readable_values example_readings = [example_reading ''true'' ''2024-01-01T00:00:00+0000'']"
  "readable_events example_readings = [zero_event\<lparr>ev_EventId := ''7'', ev_EventTimestamp := ''2024-01-01T00:00:05Z''\<rparr>]"
  using example_times
  by (simp_all add: readable_values_def readable_events_def example_readings_def example_reading_def elems_def)




text \<open>Configuring the Kafka pump over the bus: after the service has handled the messages a
  client sends to set known properties to strings, in any order and number, each setting has
  the last value it was set to and every other one is as before; and when that gives a broker
  \<open>host:port\<close> and a topic, the pump's waiting loop ends at its next turn with exactly these.\<close>

theorem kafkapump_configuration_arrives:
  assumes "mb_sendError b = None" and "fst ` set sets \<subseteq> fst ` set kafkapump_items"
  shows "\<exists>d'. config_run mock_ops (map (set_command q) sets)
        (NewConfigService b ''/kafkapump/config'' kafkapump_items c) = (d', Ok ())
    \<and> (\<forall>k. setting (cs_State d') k = (case map_of (rev sets) k of Some v \<Rightarrow> v | None \<Rightarrow> setting c k))
    \<and> (\<forall>host port k. setting (cs_State d') ''kafkaBroker'' = host @ '':'' @ port \<longrightarrow> host \<noteq> [] \<longrightarrow>
        CHR '':'' \<notin> set host \<longrightarrow> CHR '':'' \<notin> set port \<longrightarrow> setting (cs_State d') ''kafkaTopic'' \<noteq> [] \<longrightarrow>
        (\<exists>k'. kafkapump_wait [cs_State d'] k = Some k' \<and> kp_broker k' = [host, port]
          \<and> kp_topic k' = setting (cs_State d') ''kafkaTopic''))"
proof -
  let ?d = "NewConfigService b ''/kafkapump/config'' kafkapump_items c"
  have "mb_sendError (cs_Bus ?d) = None" using assms(1) by (simp add: NewConfigService_def)
  moreover have "cs_Entries ?d = string_items ''unknown property ''
     [(''kafkaBroker'', []), (''kafkaTopic'', []), (''kafkaAlertTopic'', []), (''kafkaPartition'', ''0''),
      (''kafkaCACert'', []), (''kafkaClientCert'', []), (''kafkaClientKey'', []), (''kafkaSkipVerify'', [])]"
    by (simp add: NewConfigService_def kafkapump_items_def)
  moreover have "fst ` set sets \<subseteq> fst ` set
     [(''kafkaBroker'', [] :: string), (''kafkaTopic'', []), (''kafkaAlertTopic'', []), (''kafkaPartition'', ''0''),
      (''kafkaCACert'', []), (''kafkaClientCert'', []), (''kafkaClientKey'', []), (''kafkaSkipVerify'', [])]"
    using assms(2) by (simp add: kafkapump_items_def string_items_def)
  ultimately obtain d' where d': "config_run mock_ops (map (set_command q) sets) ?d = (d', Ok ())"
    "cs_State d' = fold (\<lambda>p. alist_put (fst p) (snd p)) sets (cs_State ?d)"
    using set_commands_handled by blast
  have c: "cs_State ?d = c" by (simp add: NewConfigService_def)
  have "\<exists>k'. kafkapump_wait [cs_State d'] k = Some k' \<and> kp_broker k' = [host, port]
          \<and> kp_topic k' = setting (cs_State d') ''kafkaTopic''"
    if "setting (cs_State d') ''kafkaBroker'' = host @ '':'' @ port" "host \<noteq> []" "CHR '':'' \<notin> set host"
      "CHR '':'' \<notin> set port" "setting (cs_State d') ''kafkaTopic'' \<noteq> []" for host port k
    using that by (simp add: kafkapump_read_def kafkapump_configured_def split_on_append split_on_no_sep)
  with d' show ?thesis by (auto simp: c setting_fold_put)
qed

theorem kafkapump_configuration_arrives_witness:
  "\<exists>d' k'. config_run mock_ops (map (set_command ''/kconfigui'') [(''kafkaBroker'', ''kafka:9092''), (''kafkaTopic'', ''idrac'')])
        (NewConfigService NewMockMessageBus ''/kafkapump/config'' kafkapump_items kafkapump_defaults) = (d', Ok ())
    \<and> kafkapump_wait [cs_State d'] kafkapump_unread = Some k'
    \<and> kp_broker k' = [''kafka'', ''9092''] \<and> kp_topic k' = ''idrac''"
proof -
  let ?sets = "[(''kafkaBroker'', ''kafka:9092''), (''kafkaTopic'', ''idrac'')]"
  have up: "mb_sendError NewMockMessageBus = None" by (simp add: NewMockMessageBus_def)
  have "fst ` set ?sets \<subseteq> fst ` set kafkapump_items" by (simp add: kafkapump_items_def string_items_def)
  from kafkapump_configuration_arrives [OF up this, of "''/kconfigui''" kafkapump_defaults] obtain d' where
    d': "config_run mock_ops (map (set_command ''/kconfigui'') ?sets)
          (NewConfigService NewMockMessageBus ''/kafkapump/config'' kafkapump_items kafkapump_defaults) = (d', Ok ())"
    "\<forall>k. setting (cs_State d') k = (case map_of (rev ?sets) k of Some v \<Rightarrow> v | None \<Rightarrow> setting kafkapump_defaults k)"
    and w: "\<And>host port k. setting (cs_State d') ''kafkaBroker'' = host @ '':'' @ port \<Longrightarrow> host \<noteq> [] \<Longrightarrow>
        CHR '':'' \<notin> set host \<Longrightarrow> CHR '':'' \<notin> set port \<Longrightarrow> setting (cs_State d') ''kafkaTopic'' \<noteq> [] \<Longrightarrow>
        \<exists>k'. kafkapump_wait [cs_State d'] k = Some k' \<and> kp_broker k' = [host, port]
          \<and> kp_topic k' = setting (cs_State d') ''kafkaTopic''" by blast
  from d'(2) have s: "setting (cs_State d') ''kafkaBroker'' = ''kafka'' @ '':'' @ ''9092''"
    "setting (cs_State d') ''kafkaTopic'' = ''idrac''" by simp_all
  from w [OF s(1), of kafkapump_unread] s(2) d'(1) show ?thesis by auto
qed

end
