(* ===== verification/Splunkpump.thy ===== *)
theory Splunkpump
  imports Pumps
begin

text \<open>
  \<^verbatim>\<open>cmd/splunkpump/splunkpump.go\<close>: the pump that posts each group of the data bus to a Splunk
  HTTP event collector.

  The HTTP client is a parameter: \<open>post h r\<close> is the new state of the network and the status of
  the answer to the request \<open>r\<close>, or the error of creating or doing it.
\<close>

subsection \<open>Events\<close>

record SplunkEventFields =
  sf_Value :: float64
  sf_MetricName :: string
  sf_Source :: string

record SplunkEvent =
  se_Time :: int
  se_Event :: string
  se_Host :: string
  se_Fields :: SplunkEventFields

definition enc_splunk_event :: "SplunkEvent \<Rightarrow> json option" where
  "enc_splunk_event e =
     map_option (\<lambda>j.
         JObj [(''time'', enc_int (se_Time e)), (''event'', JStr (se_Event e)), (''host'', JStr (se_Host e)),
               (''fields'', JObj [(''_value'', j), (''metric_name'', JStr (sf_MetricName (se_Fields e))),
                                   (''source'', JStr (sf_Source (se_Fields e)))])])
       (json_of_float (sf_Value (se_Fields e)))"

text \<open>The event at an index stays nil when its time stamp cannot be read. The value is what
  \<open>ParseFloat\<close> returns, also with an error.\<close>

definition splunk_event :: "settings \<Rightarrow> DataValue \<Rightarrow> SplunkEvent option" where
  "splunk_event c v =
     map_option (\<lambda>t. \<lparr>se_Time = Unix t, se_Event = ''metric'', se_Host = dv_System v,
         se_Fields = \<lparr>sf_Value = fst (ParseFloat (dv_Value v)), sf_MetricName = reading_name v,
                      sf_Source = ''http:'' @ setting c ''splunkIndex''\<rparr>\<rparr>)
       (reading_time (dv_Timestamp v))"

text \<open>\<open>b, _ := json.Marshal(event)\<close>: a nil pointer is \<open>null\<close>, an error leaves \<open>b\<close> empty.\<close>

definition splunk_text :: "SplunkEvent option \<Rightarrow> string" where
  "splunk_text e =
     (case e of
        None \<Rightarrow> ''null''
      | Some ev \<Rightarrow> (case enc_splunk_event ev of None \<Rightarrow> [] | Some j \<Rightarrow> json_print j))"

subsection \<open>Posting\<close>

record splunk_request =
  sr_url :: string
  sr_Authorization :: string
  sr_ContentType :: string
  sr_body :: string

type_synonym 'h splunk_post = "'h \<Rightarrow> splunk_request \<Rightarrow> 'h \<times> int outcome"

definition splunk_request_of :: "settings \<Rightarrow> SplunkEvent option list \<Rightarrow> splunk_request" where
  "splunk_request_of c events =
     \<lparr>sr_url = setting c ''splunkURL'' @ ''/services/collector'',
      sr_Authorization = ''Splunk '' @ setting c ''splunkKey'',
      sr_ContentType = ''application/json'',
      sr_body = concat (map splunk_text events)\<rparr>"

text \<open>Neither an error nor the status of the answer changes what the pump does next.\<close>

definition logToSplunk :: "'h splunk_post \<Rightarrow> settings \<Rightarrow> SplunkEvent option list \<Rightarrow> ('h, unit) go" where
  "logToSplunk post c events =
     tryS (\<lambda>h. post h (splunk_request_of c events)) (\<lambda>status. liftS (Ok ())) (\<lambda>e. liftS (Ok ()))"

definition splunkpump_group :: "'h splunk_post \<Rightarrow> settings \<times> DataGroup \<Rightarrow> ('h, unit) go" where
  "splunkpump_group post cg =
     (case cg of (c, g) \<Rightarrow> logToSplunk post c (map (splunk_event c) (elems (dg_Values g))))"

definition splunkpump_groups :: "'h splunk_post \<Rightarrow> (settings \<times> DataGroup) list \<Rightarrow> ('h, unit) go" where
  "splunkpump_groups post = each_group (splunkpump_group post)"

subsection \<open>Configuration\<close>

definition splunkpump_defaults :: settings where
  "splunkpump_defaults = bus_defaults @ [(''splunkURL'', ''http://splunkhost:8088''), (''splunkKey'', [])]"

definition splunkpump_items :: "(string \<times> settings ConfigEntry) list" where
  "splunkpump_items = string_items ''Unknown property ''
     [(''splunkURL'', ''http://splunkhost:8088''), (''splunkKey'', []), (''splunkIndex'', [])]"

definition splunkpump_env :: "(string \<Rightarrow> string) \<Rightarrow> settings \<Rightarrow> settings" where
  "splunkpump_env env c = env_override env
     (bus_vars @ [(''SPLUNK_HEC_URL'', ''splunkURL''), (''SPLUNK_HEC_KEY'', ''splunkKey''),
        (''SPLUNK_HEC_INDEX'', ''splunkIndex'')]) c"

text \<open>The ini file, when it can be loaded: the string of a key, empty when there is none, and the
  integer of a key, if it has one. The command line has an empty string or zero for an option
  that is not given.\<close>

record ini_values =
  ini_string :: "string \<Rightarrow> string \<Rightarrow> string"
  ini_int :: "string \<Rightarrow> string \<Rightarrow> int option"

record splunk_flags =
  fl_mbhost :: string
  fl_mbport :: int
  fl_url :: string
  fl_key :: string
  fl_index :: string

definition splunkpump_ini :: "ini_values \<Rightarrow> settings \<Rightarrow> settings" where
  "splunkpump_ini ini c =
     (let must = (\<lambda>key sec name c. alist_put key
                    (if ini_string ini sec name \<noteq> [] then ini_string ini sec name else setting c key) c);
          c1 = must ''mbhost'' ''General'' ''StompHost'' c;
          port = fst (parse_int64 (setting c1 ''mbport''));
          c2 = alist_put ''mbport'' (int_dec (case ini_int ini ''General'' ''StompPort'' of None \<Rightarrow> port | Some p \<Rightarrow> p)) c1 in
      must ''splunkKey'' ''Splunk'' ''Key'' (must ''splunkURL'' ''Splunk'' ''URL'' c2))"

definition splunkpump_flags :: "splunk_flags \<Rightarrow> settings \<Rightarrow> settings" where
  "splunkpump_flags fl c =
     set_nonempty ''splunkIndex'' (fl_index fl) (set_nonempty ''splunkKey'' (fl_key fl)
       (set_nonempty ''splunkURL'' (fl_url fl)
         (set_nonempty ''mbport'' (if fl_mbport fl \<noteq> 0 then int_dec (fl_mbport fl) else [])
           (set_nonempty ''mbhost'' (fl_mbhost fl) c))))"

definition splunkpump_settings :: "splunk_flags \<Rightarrow> ini_values option \<Rightarrow> (string \<Rightarrow> string) \<Rightarrow> settings" where
  "splunkpump_settings fl ini env =
     splunkpump_flags fl (splunkpump_env env
       (case ini of None \<Rightarrow> splunkpump_defaults | Some i \<Rightarrow> splunkpump_ini i splunkpump_defaults))"

text \<open>The loop that waits for a key, a URL and an index; a value once read is kept.\<close>

fun splunkpump_wait :: "settings list \<Rightarrow> string \<times> string \<times> string \<Rightarrow> (string \<times> string \<times> string) option" where
  "splunkpump_wait [] final = None"
| "splunkpump_wait (c # cs) (key, url, index) =
     (let keep = (\<lambda>k old. if setting c k \<noteq> [] then setting c k else old);
          key' = keep ''splunkKey'' key; url' = keep ''splunkURL'' url; index' = keep ''splunkIndex'' index in
      if key' \<noteq> [] \<and> url' \<noteq> [] \<and> index' \<noteq> [] then Some (key', url', index')
      else splunkpump_wait cs (key', url', index'))"

definition splunkpump_start ::
  "'b bus_ops \<Rightarrow> 'b \<Rightarrow> settings \<Rightarrow> 'b BaseClient \<times> ('b, settings) ConfigService" where
  "splunkpump_start ops bus c =
     (let bc = fst (pump_subscribe ops ''/spunk'' (NewDataBusClient bus ''splunkpump'')) in
      (bc, NewConfigService (bc_Bus bc) ''/splunkpump/config'' splunkpump_items c))"

subsection \<open>What the collector reads\<close>

text \<open>A stream of JSON values, one after the other; the fuel is one more than the values there can be.\<close>

fun stream_from :: "nat \<Rightarrow> string \<Rightarrow> json list option" where
  "stream_from 0 s = None"
| "stream_from (Suc f) s =
     (if skip_ws s = [] then Some []
      else (case parse_val (Suc (2 * length s)) s of
              None \<Rightarrow> None
            | Some (v, r) \<Rightarrow> map_option (Cons v) (stream_from f r)))"

definition json_stream :: "string \<Rightarrow> json list option" where
  "json_stream s = stream_from (Suc (length s)) s"

text \<open>The JSON of a value in the stream, if there is any.\<close>

definition splunk_json :: "settings \<Rightarrow> DataValue \<Rightarrow> json option" where
  "splunk_json c v =
     (case reading_time (dv_Timestamp v) of
        None \<Rightarrow> Some JNull
      | Some t \<Rightarrow>
          map_option (\<lambda>x. JObj [(''time'', JNum (int_dec (Unix t))), (''event'', JStr ''metric''),
              (''host'', JStr (dv_System v)),
              (''fields'', JObj [(''_value'', x), (''metric_name'', JStr (dv_Context v @ ''_'' @ dv_ID v)),
                                  (''source'', JStr (''http:'' @ setting c ''splunkIndex''))])])
            (json_of_float (fst (ParseFloat (dv_Value v)))))"

text \<open>Values that can stand next to each other in a stream.\<close>

definition stream_val :: "json \<Rightarrow> bool" where
  "stream_val j \<longleftrightarrow> json_ok j \<and> (j = JNull \<or> (\<exists>ms. j = JObj ms))"

lemma stream_val_end: "stream_val j \<Longrightarrow> val_end (json_print j @ r)"
  by (auto simp: stream_val_def val_end_def is_digit_def)

lemma stream_text_end: "list_all stream_val js \<Longrightarrow> val_end (concat (map json_print js))"
  by (cases js) (simp_all add: stream_val_end)

lemma stream_from_print:
  "list_all stream_val js \<Longrightarrow> length js < f \<Longrightarrow> stream_from f (concat (map json_print js)) = Some js"
proof (induction js arbitrary: f)
  case Nil
  then obtain g where "f = Suc g" by (cases f) auto
  then show ?case by simp
next
  case (Cons j js)
  let ?s = "concat (map json_print (j # js))"
  obtain g where g: "f = Suc g" "length js < g" using Cons.prems by (cases f) auto
  have ok: "json_ok j" using Cons.prems by (simp add: stream_val_def)
  obtain c cs where c: "json_print j = c # cs" "\<not> is_ws c" using json_print_first [OF ok] by blast
  have "need j \<le> Suc (2 * length ?s)" using need_bound(1) [OF ok] by simp
  then have "parse_val (Suc (2 * length ?s)) (json_print j @ concat (map json_print js))
      = Some (j, concat (map json_print js))"
    using Cons.prems by (intro parse_print(1) ok stream_text_end) auto
  moreover have "skip_ws ?s \<noteq> []" using c by simp
  ultimately show ?case using Cons.IH [of g] Cons.prems g by (simp del: parse_val.simps)
qed

lemma json_stream_print: "list_all stream_val js \<Longrightarrow> json_stream (concat (map json_print js)) = Some js"
proof -
  assume ok: "list_all stream_val js"
  then have "length js \<le> length (concat (map json_print js))"
  proof (induction js)
    case (Cons j js)
    then have "json_print j \<noteq> []" using json_print_nonempty by (auto simp: stream_val_def)
    then have "1 \<le> length (json_print j)" by (cases "json_print j") auto
    with Cons show ?case by simp
  qed simp
  then show ?thesis unfolding json_stream_def by (intro stream_from_print ok) simp
qed

lemma splunk_text_json: "splunk_text (splunk_event c v) = (case splunk_json c v of None \<Rightarrow> [] | Some j \<Rightarrow> json_print j)"
  by (simp add: splunk_text_def splunk_event_def splunk_json_def enc_splunk_event_def enc_int_def reading_name_def
      split: option.split)

lemma splunk_json_ok: "splunk_json c v = Some j \<Longrightarrow> stream_val j"
  by (auto simp: splunk_json_def stream_val_def json_of_float_ok split: option.splits)

subsection \<open>Properties\<close>

text \<open>The state of a network that remembers the requests and answers them all alike.\<close>

definition answering :: "int outcome \<Rightarrow> splunk_request list splunk_post" where
  "answering r h req = (h @ [req], r)"

text \<open>What a request brings the collector of the group it was made for.\<close>

definition collector_gets :: "settings \<times> DataGroup \<Rightarrow> splunk_request \<Rightarrow> bool" where
  "collector_gets cg req \<longleftrightarrow> (case cg of (c, g) \<Rightarrow>
     sr_url req = setting c ''splunkURL'' @ ''/services/collector''
     \<and> sr_Authorization req = ''Splunk '' @ setting c ''splunkKey''
     \<and> json_stream (sr_body req) = Some (List.map_filter (splunk_json c) (elems (dg_Values g))))"

lemma collector_gets_request:
  "collector_gets (c, g) (splunk_request_of c (map (splunk_event c) (elems (dg_Values g))))"
proof -
  let ?vs = "elems (dg_Values g)"
  have "concat (map splunk_text (map (splunk_event c) vs)) = concat (map json_print (List.map_filter (splunk_json c) vs))" for vs
    by (induction vs) (auto simp: splunk_text_json map_filter_def split: option.split)
  moreover have "list_all stream_val (List.map_filter (splunk_json c) ?vs)"
    by (auto simp: list_all_iff map_filter_def dest: splunk_json_ok)
  ultimately show ?thesis
    by (simp add: collector_gets_def splunk_request_of_def json_stream_print del: map_map)
qed

text \<open>C19: the Splunk pump posts every group exactly once, in order and whatever the collector
  answers: each request goes to the collector's endpoint with the configured key, and its body
  is a stream of JSON values, in the order of the group's values: an event with the system,
  name, time and value for each value whose time stamp can be read and whose value is a
  finite number, a \<open>null\<close> for each one whose time stamp cannot be read, and nothing for the
  others.\<close>

theorem splunkpump_posts_groups:
  assumes "r = Ok status \<or> r = Err e"
  shows "\<exists>h'. splunkpump_groups (answering r) cgs h = (h @ h', Ok ())
    \<and> list_all2 collector_gets cgs h'"
proof (induction cgs arbitrary: h)
  case Nil
  show ?case by (simp add: splunkpump_groups_def liftS_def)
next
  case (Cons cg cgs)
  obtain c g where cg: "cg = (c, g)" by (cases cg)
  let ?req = "splunk_request_of c (map (splunk_event c) (elems (dg_Values g)))"
  have "splunkpump_group (answering r) (c, g) h = (h @ [?req], Ok ())"
    using assms by (auto simp: splunkpump_group_def logToSplunk_def tryS_def liftS_def answering_def)
  moreover from Cons.IH [of "h @ [?req]"] obtain h' where
    "splunkpump_groups (answering r) cgs (h @ [?req]) = ((h @ [?req]) @ h', Ok ())"
    "list_all2 collector_gets cgs h'" by blast
  ultimately show ?case using collector_gets_request [of c g]
    by (intro exI [of _ "?req # h'"]) (simp add: splunkpump_groups_def bindS_def cg)
qed

theorem splunkpump_posts_groups_witness:
  "\<exists>req. splunkpump_groups (answering (Ok 503)) [([(''splunkKey'', ''k'')],
        zero_group\<lparr>dg_Values := Some [zero_value\<lparr>dv_Timestamp := ''yesterday''\<rparr>,
          zero_value\<lparr>dv_Value := ''NaN'', dv_Timestamp := ''2024-01-01T00:00:00+0000''\<rparr>]\<rparr>)] [] = ([req], Ok ())
    \<and> sr_Authorization req = ''Splunk k'' \<and> json_stream (sr_body req) = Some [JNull]"
proof -
  let ?c = "[(''splunkKey'', ''k'')]"
  let ?g = "zero_group\<lparr>dg_Values := Some [zero_value\<lparr>dv_Timestamp := ''yesterday''\<rparr>,
          zero_value\<lparr>dv_Value := ''NaN'', dv_Timestamp := ''2024-01-01T00:00:00+0000''\<rparr>]\<rparr>"
  have t: "reading_time ''yesterday'' = None" "reading_time ''2024-01-01T00:00:00+0000'' \<noteq> None" by code_simp+
  have "fst (ParseFloat ''NaN'') = NaN" by code_simp
  then have "List.map_filter (splunk_json ?c) (elems (dg_Values ?g)) = [JNull]"
    using t by (auto simp: elems_def map_filter_def splunk_json_def json_of_float_def)
  moreover from splunkpump_posts_groups [of "Ok 503" 503 "[]" "[(?c, ?g)]" "[]"] obtain h' where
    "splunkpump_groups (answering (Ok 503)) [(?c, ?g)] [] = (h', Ok ())"
    "list_all2 collector_gets [(?c, ?g)] h'" by auto
  ultimately show ?thesis
    by (auto simp: list_all2_Cons1 collector_gets_def setting_def)
qed

text \<open>The precedence of the Splunk pump's settings: an option on the command line wins over the
  environment, the environment over the ini file, and the ini file over the default.\<close>

theorem splunkpump_precedence:
  "setting (splunkpump_settings fl ini env) ''splunkURL'' =
     (if fl_url fl \<noteq> [] then fl_url fl
      else if env ''SPLUNK_HEC_URL'' \<noteq> [] then env ''SPLUNK_HEC_URL''
      else case ini of
             None \<Rightarrow> ''http://splunkhost:8088''
           | Some i \<Rightarrow> if ini_string i ''Splunk'' ''URL'' \<noteq> [] then ini_string i ''Splunk'' ''URL''
                       else ''http://splunkhost:8088'')
   \<and> setting (splunkpump_settings fl ini env) ''splunkIndex'' =
     (if fl_index fl \<noteq> [] then fl_index fl else env ''SPLUNK_HEC_INDEX'')"
  by (simp add: splunkpump_settings_def splunkpump_flags_def splunkpump_env_def setting_env_override bus_vars_def
      splunkpump_ini_def Let_def splunkpump_defaults_def bus_defaults_def split: option.split)
    (simp add: setting_def splunkpump_defaults_def bus_defaults_def)

end
