(* ===== verification/Otelpump.thy ===== *)
theory Otelpump
  imports Pumps "HOL-Library.Multiset"
begin

text \<open>
  \<^verbatim>\<open>cmd/otelpump/otelpump.go\<close> and \<^verbatim>\<open>cmd/otelpump/httpexporter.go\<close>: the pump that turns groups
  into OTLP metrics and logs and posts them to an OpenTelemetry collector.

  The YAML reader, the protobuf encoder and the HTTP client are parameters. A Go map is the
  list of its entries in the order it is traversed.
\<close>

subsection \<open>The table of metrics\<close>

text \<open>A value of an enumeration is an integer, or \<open>None\<close> for anything else.\<close>

record otelMeta =
  om_name :: string
  om_description :: string
  om_unit :: string
  om_valueType :: string
  om_attributes :: "(string \<times> string) list"
  om_enum :: "(string \<times> int option) list option"

type_synonym otel_table = "(string \<times> otelMeta) list"

datatype yaml = YStr string | YInt int | YMap "(string \<times> yaml) list" | YOther

record rf2Otel =
  ro_ScopeAttr :: "(string \<times> string) list"
  ro_Metric :: "(string \<times> yaml) list list"

text \<open>The file as read: the repeated ids, the default scope attributes and the reports, whose
  sections may be missing (\<open>None\<close>) or fail to decode (\<open>Err\<close>).\<close>

record otel_file =
  of_repeated :: "string list outcome option"
  of_scope :: "(string \<times> string) list outcome option"
  of_reports :: "(string \<times> rf2Otel outcome option) list option"

definition joinChar :: string where "joinChar = '':''"

text \<open>Underscores in keys become dots.\<close>

definition dot_keys :: "(string \<times> string) list \<Rightarrow> (string \<times> string) list" where
  "dot_keys m =
     fold (\<lambda>(k, v) acc. if CHR ''_'' \<in> set k then alist_put (replace_all ''_'' ''.'' k) v (alist_del k acc) else acc) m m"

definition yaml_string :: "string \<Rightarrow> (string \<times> yaml) list \<Rightarrow> string option" where
  "yaml_string k m = (case map_of m k of Some (YStr s) \<Rightarrow> Some s | _ \<Rightarrow> None)"

definition put_all :: "(string \<times> string) list \<Rightarrow> (string \<times> string) list \<Rightarrow> (string \<times> string) list" where
  "put_all kvs m = fold (\<lambda>(k, v). alist_put k v) kvs m"

fun put_strings :: "(string \<times> yaml) list \<Rightarrow> (string \<times> string) list \<Rightarrow> (string \<times> string) list outcome" where
  "put_strings [] m = Ok m"
| "put_strings ((k, YStr v) # kvs) m = put_strings kvs (alist_put k v m)"
| "put_strings ((k, y) # kvs) m = Panic ''interface conversion''"

primrec containsString :: "string list \<Rightarrow> string \<Rightarrow> bool" where
  "containsString [] str = False"
| "containsString (item # slice) str = (if item = str then True else containsString slice str)"

lemma containsString_member [simp]: "containsString slice str \<longleftrightarrow> str \<in> set slice"
  by (induction slice) auto

text \<open>The entry one metric of a report adds to the table, if it has its three required names.\<close>

definition otel_entry ::
  "string list \<Rightarrow> (string \<times> string) list \<Rightarrow> (string \<times> string) list \<Rightarrow> string \<Rightarrow> (string \<times> yaml) list \<Rightarrow>
   (string \<times> otelMeta) option outcome" where
  "otel_entry repeated scopeDef scopeAttr report m =
     (case (yaml_string ''otelmetricname'' m, yaml_string ''oteltype'' m, yaml_string ''redfishname'' m) of
        (Some name, Some typ, Some rnm) \<Rightarrow>
          outcome_bind
            (case map_of m ''attr'' of
               Some (YMap am) \<Rightarrow> put_strings am (put_all scopeAttr (put_all scopeDef []))
             | _ \<Rightarrow> Ok (put_all scopeAttr (put_all scopeDef [])))
            (\<lambda>attrs.
          outcome_bind
            (case map_of m ''enum'' of
               None \<Rightarrow> Ok None
             | Some (YMap em) \<Rightarrow> Ok (Some (map (\<lambda>(k, y). (k, case y of YInt i \<Rightarrow> Some i | _ \<Rightarrow> None)) em))
             | Some y \<Rightarrow> Panic ''interface conversion'')
            (\<lambda>enum.
             Ok (Some (if containsString repeated rnm then report @ joinChar @ rnm else rnm,
                  \<lparr>om_name = name,
                   om_description = (case yaml_string ''description'' m of None \<Rightarrow> [] | Some d \<Rightarrow> d),
                   om_unit = (case yaml_string ''unit'' m of None \<Rightarrow> [] | Some u \<Rightarrow> u),
                   om_valueType = typ, om_attributes = attrs, om_enum = enum\<rparr>))))
      | _ \<Rightarrow> Ok None)"

fun otel_entries ::
  "string list \<Rightarrow> (string \<times> string) list \<Rightarrow> (string \<times> string) list \<Rightarrow> string \<Rightarrow> (string \<times> yaml) list list \<Rightarrow>
   otel_table \<Rightarrow> otel_table outcome" where
  "otel_entries repeated scopeDef scopeAttr report [] table = Ok table"
| "otel_entries repeated scopeDef scopeAttr report (m # ms) table =
     outcome_bind (otel_entry repeated scopeDef scopeAttr report m) (\<lambda>e.
       otel_entries repeated scopeDef scopeAttr report ms
         (case e of None \<Rightarrow> table | Some (k, om) \<Rightarrow> alist_put k om table))"

fun otel_reports ::
  "string list \<Rightarrow> (string \<times> string) list \<Rightarrow> (string \<times> rf2Otel outcome option) list \<Rightarrow> otel_table \<Rightarrow> otel_table outcome" where
  "otel_reports repeated scopeDef [] table = Ok table"
| "otel_reports repeated scopeDef ((report, Some (Ok r2o)) # rs) table =
     outcome_bind (otel_entries repeated scopeDef (dot_keys (ro_ScopeAttr r2o)) report (ro_Metric r2o) table)
       (otel_reports repeated scopeDef rs)"
| "otel_reports repeated scopeDef ((report, r) # rs) table = otel_reports repeated scopeDef rs table"

text \<open>A file that cannot be read, or lacks a section, ends the process with status \<open>-1\<close>.\<close>

definition readOtelMeta :: "otel_file option \<Rightarrow> otel_table \<Rightarrow> otel_table outcome" where
  "readOtelMeta file table =
     (case file of
        None \<Rightarrow> Exit (- 1)
      | Some f \<Rightarrow>
          (case (case of_repeated f of None \<Rightarrow> Ok [] | Some r \<Rightarrow> r) of
             Ok repeated \<Rightarrow>
               (case of_scope f of
                  Some (Ok scopeDef) \<Rightarrow>
                    (case of_reports f of
                       None \<Rightarrow> Exit (- 1)
                     | Some rs \<Rightarrow> otel_reports repeated (dot_keys scopeDef) rs table)
                | _ \<Rightarrow> Exit (- 1))
           | _ \<Rightarrow> Exit (- 1)))"

subsection \<open>Readings\<close>

definition otel_float :: "string \<Rightarrow> float64 \<times> bool" where
  "otel_float s = (case ParseFloat s of (f, True) \<Rightarrow> (f, True) | (f, False) \<Rightarrow> (float_zero, False))"

definition parseRFC3339ToNanos :: "string \<Rightarrow> int outcome" where
  "parseRFC3339ToNanos s =
     (if trim_space s = [] then Err ''empty timestamp''
      else (case parse_rfc3339 s of None \<Rightarrow> Err ''parse timestamp'' | Some t \<Rightarrow> Ok (UnixNano t)))"

definition getHostAttributes :: "DataGroup \<Rightarrow> (string \<times> string) list" where
  "getHostAttributes g =
     [(''host.type'', ''PowerEdge''), (''host.id'', dg_SKU g), (''host.name'', dg_FQDN g), (''host.model'', dg_Model g)]"

definition scope_attributes :: "otelMeta \<Rightarrow> string \<Rightarrow> string \<Rightarrow> (string \<times> string) list" where
  "scope_attributes om fqdd ts =
     map (\<lambda>(k, v). (k, if v = ''var-FQDD'' then fqdd else if v = ''var-Timestamp'' then ts else v)) (om_attributes om)"

datatype dp_value = DFloat float64 | DText string

record dp =
  dp_value :: dp_value
  dp_time :: int

type_synonym fqdd_metrics = "(string \<times> (string \<times> dp list) list) list"

definition alist_get :: "'k \<Rightarrow> 'v \<Rightarrow> ('k \<times> 'v) list \<Rightarrow> 'v" where
  "alist_get k d m = (case map_of m k of None \<Rightarrow> d | Some v \<Rightarrow> v)"

definition add_point :: "string \<Rightarrow> string \<Rightarrow> dp \<Rightarrow> fqdd_metrics \<Rightarrow> fqdd_metrics" where
  "add_point ctx i p m =
     (let inner = alist_get ctx [] m in
      alist_put ctx (alist_put i (alist_get i [] inner @ [p]) inner) m)"

definition value_point :: "DataValue \<Rightarrow> dp option" where
  "value_point v =
     (case parseRFC3339ToNanos (dv_Timestamp v) of
        Ok nanos \<Rightarrow>
          Some \<lparr>dp_value = (case otel_float (dv_Value v) of (f, True) \<Rightarrow> DFloat f | (f, False) \<Rightarrow> DText (dv_Value v)),
                dp_time = nanos\<rparr>
      | _ \<Rightarrow> None)"

definition groupMetricsByFQDDAndMetricId :: "DataGroup \<Rightarrow> fqdd_metrics" where
  "groupMetricsByFQDDAndMetricId g =
     fold (\<lambda>v m. case value_point v of None \<Rightarrow> m | Some p \<Rightarrow> add_point (dv_Context v) (dv_ID v) p m)
       (elems (dg_Values g)) []"

subsection \<open>OTLP metrics\<close>

datatype point_value = AsDouble float64 | AsInt int

record data_point =
  pt_time :: int
  pt_value :: point_value

record otlp_metric =
  mt_name :: string
  mt_description :: string
  mt_unit :: string
  mt_metadata :: "(string \<times> string) list option"
  mt_points :: "data_point list"

record scope_metrics =
  sm_attributes :: "(string \<times> string) list option"
  sm_metrics :: "otlp_metric list"

record resource_metrics =
  rm_attributes :: "(string \<times> string) list"
  rm_scopes :: "scope_metrics list"

text \<open>The table is asked for the metric, then for the metric of this report.\<close>

definition otel_lookup :: "otel_table \<Rightarrow> string \<Rightarrow> string \<Rightarrow> otelMeta option" where
  "otel_lookup table gid i =
     (case map_of table i of
        Some om \<Rightarrow>
          (if om_name om \<noteq> [] then Some om
           else (case map_of table (to_lower gid @ joinChar @ i) of
                   Some om2 \<Rightarrow> if om_name om2 \<noteq> [] then Some om2 else None
                 | None \<Rightarrow> None))
      | None \<Rightarrow>
          (case map_of table (to_lower gid @ joinChar @ i) of
             Some om2 \<Rightarrow> if om_name om2 \<noteq> [] then Some om2 else None
           | None \<Rightarrow> None))"

text \<open>\<open>uint64\<close> of a signed time.\<close>

definition uint64 :: "int \<Rightarrow> int" where
  "uint64 i = i mod 18446744073709551616"

text \<open>The data point of a reading: a text needs an enumeration that has it.\<close>

definition otel_point :: "otelMeta \<Rightarrow> dp \<Rightarrow> data_point option outcome" where
  "otel_point om p =
     (case dp_value p of
        DFloat f \<Rightarrow> Ok (Some \<lparr>pt_time = uint64 (dp_time p), pt_value = AsDouble f\<rparr>)
      | DText v \<Rightarrow>
          (case om_enum om of
             None \<Rightarrow> Ok None
           | Some en \<Rightarrow>
               (case map_of en (to_lower v) of
                  None \<Rightarrow> Ok None
                | Some None \<Rightarrow> Panic ''interface conversion''
                | Some (Some i) \<Rightarrow> Ok (Some \<lparr>pt_time = uint64 (dp_time p), pt_value = AsInt i\<rparr>))))"

fun otel_points :: "otelMeta \<Rightarrow> dp list \<Rightarrow> data_point list outcome" where
  "otel_points om [] = Ok []"
| "otel_points om (p # ps) =
     outcome_bind (otel_point om p) (\<lambda>q. outcome_bind (otel_points om ps) (\<lambda>qs.
       Ok (case q of None \<Rightarrow> qs | Some x \<Rightarrow> x # qs)))"

fun enum_metadata :: "(string \<times> int option) list \<Rightarrow> (string \<times> string) list outcome" where
  "enum_metadata [] = Ok []"
| "enum_metadata ((k, None) # en) = Panic ''interface conversion''"
| "enum_metadata ((k, Some i) # en) =
     outcome_bind (enum_metadata en) (\<lambda>kvs. Ok ((''enum.'' @ k, int_dec i) # kvs))"

definition otel_metric :: "otelMeta \<Rightarrow> dp list \<Rightarrow> otlp_metric outcome" where
  "otel_metric om ps =
     outcome_bind (case om_enum om of None \<Rightarrow> Ok None | Some en \<Rightarrow> outcome_bind (enum_metadata en) (\<lambda>kvs. Ok (Some kvs)))
       (\<lambda>meta. outcome_bind (otel_points om ps) (\<lambda>pts.
          Ok \<lparr>mt_name = om_name om, mt_description = om_description om, mt_unit = om_unit om,
              mt_metadata = meta, mt_points = pts\<rparr>))"

text \<open>The metrics of one device. The attributes of the scope are those of the first metric that is in
  the table; without a time stamp of the group there are none, and no metric.\<close>

fun otel_scope ::
  "otel_table \<Rightarrow> DataGroup \<Rightarrow> string \<Rightarrow> (string \<times> dp list) list \<Rightarrow> scope_metrics \<Rightarrow> scope_metrics outcome" where
  "otel_scope table g fqdd [] sm = Ok sm"
| "otel_scope table g fqdd ((i, ps) # ms) sm =
     (case otel_lookup table (dg_ID g) i of
        None \<Rightarrow> otel_scope table g fqdd ms sm
      | Some om \<Rightarrow>
          (let attrs = (case sm_attributes sm of
                          Some a \<Rightarrow> Some a
                        | None \<Rightarrow> (case parseRFC3339ToNanos (dg_Timestamp g) of
                                     Ok t \<Rightarrow> Some (scope_attributes om fqdd (int_dec t))
                                   | _ \<Rightarrow> None)) in
           case attrs of
             None \<Rightarrow> otel_scope table g fqdd ms sm
           | Some a \<Rightarrow>
               outcome_bind (otel_metric om ps) (\<lambda>m.
                 otel_scope table g fqdd ms (sm\<lparr>sm_attributes := Some a, sm_metrics := sm_metrics sm @ [m]\<rparr>))))"

fun otel_scopes :: "otel_table \<Rightarrow> DataGroup \<Rightarrow> fqdd_metrics \<Rightarrow> scope_metrics list outcome" where
  "otel_scopes table g [] = Ok []"
| "otel_scopes table g ((fqdd, ms) # rest) =
     outcome_bind (otel_scope table g fqdd ms \<lparr>sm_attributes = None, sm_metrics = []\<rparr>) (\<lambda>sm.
     outcome_bind (otel_scopes table g rest) (\<lambda>sms. Ok (sm # sms)))"

text \<open>\<open>m\<close> is the map of the grouped readings in the order it is traversed.\<close>

definition toOTLPMetrics :: "otel_table \<Rightarrow> DataGroup \<Rightarrow> fqdd_metrics \<Rightarrow> resource_metrics outcome" where
  "toOTLPMetrics table g m =
     outcome_bind (otel_scopes table g m) (\<lambda>sms. Ok \<lparr>rm_attributes = getHostAttributes g, rm_scopes = sms\<rparr>)"

subsection \<open>OTLP logs\<close>

definition mapSeverity :: "string \<Rightarrow> int" where
  "mapSeverity s =
     (let l = to_lower (trim_space s) in
      if l = ''ok'' then 9 else if l = ''warning'' then 13 else if l = ''critical'' then 17 else 0)"

record log_record =
  lr_time :: int
  lr_SeverityText :: string
  lr_SeverityNumber :: int
  lr_Attributes :: "(string \<times> string) list"
  lr_Body :: string

record resource_logs =
  rl_attributes :: "(string \<times> string) list"
  rl_records :: "log_record list option"

definition otel_log :: "EventValue \<Rightarrow> log_record option" where
  "otel_log e =
     (case parseRFC3339ToNanos (ev_EventTimestamp e) of
        Ok t \<Rightarrow>
          Some \<lparr>lr_time = uint64 t, lr_SeverityText = ev_MessageSeverity e,
                lr_SeverityNumber = mapSeverity (ev_MessageSeverity e),
                lr_Attributes = [(''event.data.type'', ''telemetry''), (''event.object.type'', ev_EventType e),
                                 (''event.object.id'', ev_EventId e)],
                lr_Body = json_print (enc_event e)\<rparr>
      | _ \<Rightarrow> None)"

text \<open>One scope with the records, or none when there is no record.\<close>

definition toOTLPLogs :: "DataGroup \<Rightarrow> resource_logs" where
  "toOTLPLogs g =
     (let records = List.map_filter otel_log (elems (dg_Events g)) in
      if records = [] then \<lparr>rl_attributes = [], rl_records = None\<rparr>
      else \<lparr>rl_attributes = getHostAttributes g, rl_records = Some records\<rparr>)"

subsection \<open>The loop\<close>

text \<open>The exporter: an error is only logged.\<close>

record 'x otel_exporter =
  ex_metrics :: "resource_metrics \<Rightarrow> ('x, unit) go"
  ex_logs :: "resource_logs \<Rightarrow> ('x, unit) go"

definition otel_export :: "('x, unit) go \<Rightarrow> ('x, unit) go" where
  "otel_export m = tryS m (\<lambda>u. liftS (Ok ())) (\<lambda>e. liftS (Ok ()))"

text \<open>\<open>order\<close> is the traversal of the grouped readings.\<close>

definition otel_group ::
  "otel_table \<Rightarrow> 'x otel_exporter \<Rightarrow> (fqdd_metrics \<Rightarrow> fqdd_metrics) \<Rightarrow> DataGroup \<Rightarrow> ('x, unit) go" where
  "otel_group table ex order g =
     (if dg_ID g = ''MemoryMetrics'' then liftS (Ok ())
      else if elems (dg_Values g) \<noteq> [] then
        bindS (liftS (toOTLPMetrics table g (order (groupMetricsByFQDDAndMetricId g)))) (\<lambda>rm.
          if rm_scopes rm = [] then liftS (Ok ()) else otel_export (ex_metrics ex rm))
      else if elems (dg_Events g) \<noteq> [] then
        (let rl = toOTLPLogs g in
         if rl_records rl = None then liftS (Ok ()) else otel_export (ex_logs ex rl))
      else liftS (Ok ()))"

definition convertAndSendOtelMetrics ::
  "otel_table \<Rightarrow> 'x otel_exporter \<Rightarrow> (fqdd_metrics \<Rightarrow> fqdd_metrics) \<Rightarrow> DataGroup list \<Rightarrow> ('x, unit) go" where
  "convertAndSendOtelMetrics table ex order = each_group (otel_group table ex order)"

subsection \<open>Configuration\<close>

definition otelpump_defaults :: settings where
  "otelpump_defaults = bus_defaults @
     [(''otelCollector'', []), (''otelCACert'', []), (''otelClientCert'', []), (''otelClientKey'', []), (''otelSkipVerify'', [])]"

definition otelpump_items :: "(string \<times> settings ConfigEntry) list" where
  "otelpump_items = string_items ''unknown property ''
     [(''otelCollector'', []), (''otelCACert'', []), (''otelClientCert'', []), (''otelClientKey'', []), (''otelSkipVerify'', [])]"

definition otelpump_settings :: "(string \<Rightarrow> string) \<Rightarrow> settings" where
  "otelpump_settings env = env_override env
     (bus_vars @ [(''OTEL_COLLECTOR'', ''otelCollector''), (''OTEL_CACERT'', ''otelCACert''),
        (''OTEL_CLIENT_CERT'', ''otelClientCert''), (''OTEL_CLIENT_KEY'', ''otelClientKey''),
        (''OTEL_SKIP_VERIFY'', ''otelSkipVerify'')])
     otelpump_defaults"

record otel_config =
  oc_url :: string
  oc_caCert :: string
  oc_clientCert :: string
  oc_clientKey :: string
  oc_skipVerify :: bool

definition otelpump_unread :: otel_config where
  "otelpump_unread = \<lparr>oc_url = [], oc_caCert = [], oc_clientCert = [], oc_clientKey = [], oc_skipVerify = False\<rparr>"

definition otelpump_read :: "settings \<Rightarrow> otel_config \<Rightarrow> otel_config" where
  "otelpump_read c k =
     (let path = (\<lambda>key old. if setting c key \<noteq> [] then ''/extrabin/certs/'' @ setting c key else old) in
      \<lparr>oc_url = setting c ''otelCollector'',
       oc_caCert = path ''otelCACert'' (oc_caCert k),
       oc_clientCert = path ''otelClientCert'' (oc_clientCert k),
       oc_clientKey = path ''otelClientKey'' (oc_clientKey k),
       oc_skipVerify = (setting c ''otelSkipVerify'' = ''true'' \<or> oc_skipVerify k)\<rparr>)"

fun otelpump_wait :: "settings list \<Rightarrow> otel_config \<Rightarrow> otel_config option" where
  "otelpump_wait [] k = None"
| "otelpump_wait (c # cs) k =
     (let k' = otelpump_read c k in if oc_url k' \<noteq> [] then Some k' else otelpump_wait cs k')"

text \<open>\<open>appendPEM\<close> says whether a text holds certificates, \<open>keyPair\<close> gives the error of making a key
  pair of two texts. The trusted roots are \<open>None\<close> for those of the system.\<close>

record httpExporter =
  he_base :: string
  he_roots :: "string list option"
  he_pair :: "(string \<times> string) option"
  he_InsecureSkipVerify :: bool

definition newHTTPExporter ::
  "(string \<Rightarrow> bool) \<Rightarrow> (string \<Rightarrow> string \<Rightarrow> gerror option) \<Rightarrow> otel_config \<Rightarrow> httpExporter outcome" where
  "newHTTPExporter appendPEM keyPair k =
     (let ex = \<lparr>he_base = trim_right_char (CHR ''/'') (oc_url k), he_roots = None, he_pair = None,
                he_InsecureSkipVerify = True\<rparr> in
      if oc_caCert k = [] then Ok ex
      else (let tls = ex\<lparr>he_roots := Some (if appendPEM (oc_caCert k) then [oc_caCert k] else []),
                         he_InsecureSkipVerify := oc_skipVerify k\<rparr> in
            if oc_clientCert k \<noteq> [] \<and> oc_clientKey k \<noteq> [] then
              (case keyPair (oc_clientCert k) (oc_clientKey k) of
                 Some e \<Rightarrow> Err e
               | None \<Rightarrow> Ok (tls\<lparr>he_pair := Some (oc_clientCert k, oc_clientKey k)\<rparr>))
            else Ok tls))"

text \<open>One export: \<open>marshal\<close> is the protobuf form, \<open>post\<close> the status and body of the answer to the
  request, \<open>decodes\<close> whether a body is a response message.\<close>

record otel_request =
  oq_url :: string
  oq_body :: string

definition doHTTP ::
  "('h \<Rightarrow> otel_request \<Rightarrow> 'h \<times> (int \<times> string outcome) outcome) \<Rightarrow> (string \<Rightarrow> bool) \<Rightarrow> httpExporter \<Rightarrow> string \<Rightarrow>
   string outcome \<Rightarrow> ('h, unit) go" where
  "doHTTP post decodes ex path body =
     bindS (liftS body) (\<lambda>b.
     bindS (\<lambda>h. post h \<lparr>oq_url = he_base ex @ path, oq_body = b\<rparr>) (\<lambda>(status, answer).
       if status \<noteq> 200 then liftS (Err ''http status'')
       else bindS (liftS answer) (\<lambda>text.
         if text = [] \<or> decodes text then liftS (Ok ()) else liftS (Err ''unmarshal response''))))"

definition http_exporter ::
  "('h \<Rightarrow> otel_request \<Rightarrow> 'h \<times> (int \<times> string outcome) outcome) \<Rightarrow> (string \<Rightarrow> bool) \<Rightarrow>
   (resource_metrics \<Rightarrow> string outcome) \<Rightarrow> (resource_logs \<Rightarrow> string outcome) \<Rightarrow> httpExporter \<Rightarrow> 'h otel_exporter" where
  "http_exporter post decodes marshalMetrics marshalLogs ex =
     \<lparr>ex_metrics = (\<lambda>rm. doHTTP post decodes ex ''/v1/metrics'' (marshalMetrics rm)),
      ex_logs = (\<lambda>rl. doHTTP post decodes ex ''/v1/logs'' (marshalLogs rl))\<rparr>"

text \<open>\<open>main\<close>: the subscription, and the rest once it is connected. The settings are read once a minute
  until an address is known; then the table, the exporter and the loop. Without an exporter the
  program ends.\<close>

definition otelpump_start ::
  "'b bus_ops \<Rightarrow> 'b \<Rightarrow> settings \<Rightarrow> 'b BaseClient \<times> ('b, settings) ConfigService" where
  "otelpump_start ops bus c =
     (let bc = fst (pump_subscribe ops ''/otel'' (NewDataBusClient bus ''otelpump'')) in
      (bc, NewConfigService (bc_Bus bc) ''/otelpump/config'' otelpump_items c))"

definition otelpump_run ::
  "(string \<Rightarrow> bool) \<Rightarrow> (string \<Rightarrow> string \<Rightarrow> gerror option) \<Rightarrow> (httpExporter \<Rightarrow> 'h otel_exporter) \<Rightarrow>
   (fqdd_metrics \<Rightarrow> fqdd_metrics) \<Rightarrow> otel_file option \<Rightarrow> settings list \<Rightarrow> DataGroup list \<Rightarrow> ('h, unit) go" where
  "otelpump_run appendPEM keyPair exporter order file cs groups =
     (case otelpump_wait cs otelpump_unread of
        None \<Rightarrow> liftS (Ok ())
      | Some k \<Rightarrow>
          bindS (liftS (readOtelMeta file [])) (\<lambda>table.
            tryS (liftS (newHTTPExporter appendPEM keyPair k))
              (\<lambda>ex. convertAndSendOtelMetrics table (exporter ex) order groups)
              (\<lambda>e. liftS (Ok ()))))"

subsection \<open>Grouping keeps every reading\<close>

text \<open>The readings of a grouped map, each with its device and metric.\<close>

definition flat_ids :: "(string \<times> dp list) list \<Rightarrow> (string \<times> dp) list" where
  "flat_ids ms = concat (map (\<lambda>(i, ps). map (Pair i) ps) ms)"

definition flat :: "fqdd_metrics \<Rightarrow> (string \<times> string \<times> dp) list" where
  "flat m = concat (map (\<lambda>(c, ms). map (Pair c) (flat_ids ms)) m)"

definition keys_distinct :: "fqdd_metrics \<Rightarrow> bool" where
  "keys_distinct m \<longleftrightarrow> distinct (map fst m) \<and> (\<forall>(c, ms)\<in>set m. distinct (map fst ms))"

definition value_reading :: "DataValue \<Rightarrow> (string \<times> string \<times> dp) option" where
  "value_reading v = map_option (\<lambda>p. (dv_Context v, dv_ID v, p)) (value_point v)"

lemma alist_put_split:
  assumes "distinct (map fst m)"
  obtains (fresh) "map_of m k = None" "alist_put k v m = m @ [(k, v)]"
    | (known) xs w ys where "m = xs @ (k, w) # ys" "alist_put k v m = xs @ (k, v) # ys" "map_of m k = Some w"
  using assms
proof (induction m arbitrary: thesis)
  case (Cons p m)
  obtain k' u where p: "p = (k', u)" by (cases p)
  show ?case
  proof (cases "k = k'")
    case True
    then show ?thesis using Cons.prems(2) [of "[]" u m] by (simp add: p)
  next
    case False
    show ?thesis
    proof (rule Cons.IH)
      assume "map_of m k = None" "alist_put k v m = m @ [(k, v)]"
      then show ?thesis using Cons.prems(1) False by (simp add: p)
    next
      fix xs w ys
      assume "m = xs @ (k, w) # ys" "alist_put k v m = xs @ (k, v) # ys" "map_of m k = Some w"
      then show ?thesis using Cons.prems(2) [of "p # xs" w ys] False by (simp add: p)
    qed (use Cons.prems in simp)
  qed
qed simp

lemma flat_ids_put:
  assumes "distinct (map fst ms)"
  shows "mset (flat_ids (alist_put i (alist_get i [] ms @ [p]) ms)) = add_mset (i, p) (mset (flat_ids ms))"
proof (rule alist_put_split [OF assms, of i "alist_get i [] ms @ [p]"])
  assume "map_of ms i = None" "alist_put i (alist_get i [] ms @ [p]) ms = ms @ [(i, alist_get i [] ms @ [p])]"
  then show ?thesis by (simp add: flat_ids_def alist_get_def)
next
  fix xs w ys
  assume "ms = xs @ (i, w) # ys" "alist_put i (alist_get i [] ms @ [p]) ms = xs @ (i, alist_get i [] ms @ [p]) # ys"
    "map_of ms i = Some w"
  moreover from this have "alist_get i [] ms = w" by (simp add: alist_get_def)
  ultimately show ?thesis by (simp add: flat_ids_def)
qed

lemma add_point_flat:
  assumes "keys_distinct m"
  shows "mset (flat (add_point c i p m)) = add_mset (c, i, p) (mset (flat m)) \<and> keys_distinct (add_point c i p m)"
proof -
  let ?in = "alist_get c [] m"
  let ?new = "alist_put i (alist_get i [] ?in @ [p]) ?in"
  have d: "distinct (map fst m)" using assms by (simp add: keys_distinct_def)
  have inner: "distinct (map fst ?in)"
    using assms by (auto simp: keys_distinct_def alist_get_def split: option.split dest!: map_of_SomeD)
  have new: "mset (map (Pair c) (flat_ids ?new)) = add_mset (c, i, p) (mset (map (Pair c) (flat_ids ?in)))"
    using flat_ids_put [OF inner, of i p] by (simp only: mset_map image_mset_add_mset)
  have "distinct (map fst ?new)" using inner by simp
  then have one: "keys_distinct [(c, ?new)]" by (simp add: keys_distinct_def)
  have "mset (flat (alist_put c ?new m)) = add_mset (c, i, p) (mset (flat m)) \<and> keys_distinct (alist_put c ?new m)"
  proof (rule alist_put_split [OF d, of c ?new])
    assume a: "map_of m c = None" "alist_put c ?new m = m @ [(c, ?new)]"
    from a(1) have "?in = []" by (simp add: alist_get_def)
    then have "mset (map (Pair c) (flat_ids ?new)) = {#(c, i, p)#}" unfolding new by (simp add: flat_ids_def)
    moreover have "c \<notin> fst ` set m" using a(1) by (simp add: map_of_eq_None_iff)
    ultimately show ?thesis using assms one unfolding a(2) by (auto simp: flat_def keys_distinct_def)
  next
    fix xs w ys
    assume a: "m = xs @ (c, w) # ys" "alist_put c ?new m = xs @ (c, ?new) # ys" "map_of m c = Some w"
    from a(3) have w: "?in = w" by (simp add: alist_get_def)
    have "mset (flat (alist_put c ?new m)) = mset (flat xs) + mset (map (Pair c) (flat_ids ?new)) + mset (flat ys)"
      unfolding a(2) by (simp add: flat_def)
    also have "\<dots> = add_mset (c, i, p) (mset (flat xs) + mset (map (Pair c) (flat_ids ?in)) + mset (flat ys))"
      unfolding new by simp
    also have "mset (flat xs) + mset (map (Pair c) (flat_ids ?in)) + mset (flat ys) = mset (flat (xs @ (c, w) # ys))"
      unfolding w by (simp add: flat_def)
    also have "\<dots> = mset (flat m)" using a(1) by simp
    finally have "mset (flat (alist_put c ?new m)) = add_mset (c, i, p) (mset (flat m))" .
    moreover have "keys_distinct (xs @ (c, ?new) # ys)" using assms one a(1) by (simp add: keys_distinct_def)
    ultimately show ?thesis unfolding a(2) by simp
  qed
  then show ?thesis by (simp add: add_point_def Let_def)
qed

lemma grouped_fold:
  assumes "keys_distinct m"
  shows "mset (flat (fold (\<lambda>v m. case value_point v of None \<Rightarrow> m | Some p \<Rightarrow> add_point (dv_Context v) (dv_ID v) p m) vs m))
    = mset (flat m) + mset (List.map_filter value_reading vs)"
  using assms
proof (induction vs arbitrary: m)
  case (Cons v vs)
  show ?case
  proof (cases "value_point v")
    case None
    with Cons show ?thesis by (simp add: value_reading_def map_filter_def)
  next
    case (Some p)
    with add_point_flat [OF Cons.prems, of "dv_Context v" "dv_ID v" p] Cons.IH
    show ?thesis by (simp add: value_reading_def map_filter_def)
  qed
qed (simp add: map_filter_def)

lemma grouped_readings:
  "mset (flat (groupMetricsByFQDDAndMetricId g)) = mset (List.map_filter value_reading (elems (dg_Values g)))"
  using grouped_fold [of "[]" "elems (dg_Values g)"]
  by (simp add: groupMetricsByFQDDAndMetricId_def keys_distinct_def flat_def)

subsection \<open>What is exported\<close>

text \<open>The data points of a report, each with its device and the name of its metric: \<open>m\<close> is the grouped
  map the scopes were made of.\<close>

definition scope_points :: "scope_metrics \<Rightarrow> (string \<times> data_point) list" where
  "scope_points sm = concat (map (\<lambda>mt. map (Pair (mt_name mt)) (mt_points mt)) (sm_metrics sm))"

definition exported_points :: "fqdd_metrics \<Rightarrow> scope_metrics list \<Rightarrow> (string \<times> string \<times> data_point) list" where
  "exported_points m sms = concat (map2 (\<lambda>(c, ms) sm. map (Pair c) (scope_points sm)) m sms)"

text \<open>What a reading is to become: nothing if its metric is not in the table or its text is not in the
  enumeration of the metric.\<close>

definition expected_point :: "otel_table \<Rightarrow> string \<Rightarrow> string \<times> string \<times> dp \<Rightarrow> (string \<times> string \<times> data_point) option" where
  "expected_point table gid r =
     (case r of (c, i, p) \<Rightarrow>
        (case otel_lookup table gid i of
           None \<Rightarrow> None
         | Some om \<Rightarrow> (case otel_point om p of Ok (Some q) \<Rightarrow> Some (c, om_name om, q) | _ \<Rightarrow> None)))"

text \<open>The enumerations of the table hold integers only.\<close>

definition enum_ints :: "otelMeta \<Rightarrow> bool" where
  "enum_ints om \<longleftrightarrow> (case om_enum om of None \<Rightarrow> True | Some en \<Rightarrow> (\<forall>(k, v)\<in>set en. v \<noteq> None))"

definition table_ints :: "otel_table \<Rightarrow> bool" where
  "table_ints table \<longleftrightarrow> (\<forall>(i, om)\<in>set table. enum_ints om)"

lemma lookup_enum_ints: "table_ints table \<Longrightarrow> otel_lookup table gid i = Some om \<Longrightarrow> enum_ints om"
  by (auto simp: table_ints_def otel_lookup_def dest!: map_of_SomeD split: option.splits if_splits)

lemma otel_point_total: "enum_ints om \<Longrightarrow> \<exists>q. otel_point om p = Ok q"
  by (auto simp: otel_point_def enum_ints_def dest!: map_of_SomeD split: option.splits dp_value.splits)

definition point_of :: "otelMeta \<Rightarrow> dp \<Rightarrow> data_point option" where
  "point_of om p = (case otel_point om p of Ok q \<Rightarrow> q | _ \<Rightarrow> None)"

lemma otel_points_total: "enum_ints om \<Longrightarrow> otel_points om ps = Ok (List.map_filter (point_of om) ps)"
proof (induction ps)
  case (Cons p ps)
  obtain q where "otel_point om p = Ok q" using otel_point_total [OF Cons.prems] by blast
  with Cons show ?case by (simp add: point_of_def map_filter_def split: option.split)
qed (simp add: map_filter_def)

lemma enum_metadata_total: "\<forall>(k, v)\<in>set en. v \<noteq> None \<Longrightarrow> \<exists>kvs. enum_metadata en = Ok kvs"
  by (induction en rule: enum_metadata.induct) auto

lemma otel_metric_total:
  assumes "enum_ints om"
  obtains mt where "otel_metric om ps = Ok mt" "mt_name mt = om_name om"
    "mt_points mt = List.map_filter (point_of om) ps"
proof -
  obtain meta where
    "(case om_enum om of None \<Rightarrow> Ok None | Some en \<Rightarrow> outcome_bind (enum_metadata en) (\<lambda>kvs. Ok (Some kvs))) = Ok meta"
    using assms enum_metadata_total by (fastforce simp: enum_ints_def split: option.splits)
  then show ?thesis using that assms by (simp add: otel_metric_def otel_points_total)
qed

text \<open>The named points of the readings of a device.\<close>

definition named_point :: "otel_table \<Rightarrow> string \<Rightarrow> string \<times> dp \<Rightarrow> (string \<times> data_point) option" where
  "named_point table gid r =
     (case otel_lookup table gid (fst r) of
        None \<Rightarrow> None | Some om \<Rightarrow> map_option (Pair (om_name om)) (point_of om (snd r)))"

lemma map_filter_comp: "List.map_filter f (map g xs) = List.map_filter (f \<circ> g) xs"
  by (simp add: map_filter_def filter_map comp_def)

lemma map_filter_append: "List.map_filter f (xs @ ys) = List.map_filter f xs @ List.map_filter f ys"
  by (simp add: map_filter_def)

lemma map_filter_map_option: "List.map_filter (\<lambda>x. map_option g (f x)) xs = map g (List.map_filter f xs)"
  by (induction xs) (auto simp: map_filter_def)

lemma otel_scope_points:
  assumes "table_ints table" and "parseRFC3339ToNanos (dg_Timestamp g) = Ok t"
  shows "\<exists>sm'. otel_scope table g fqdd ms sm = Ok sm'
    \<and> scope_points sm' = scope_points sm @ List.map_filter (named_point table (dg_ID g)) (flat_ids ms)"
proof (induction ms arbitrary: sm)
  case (Cons x ms)
  obtain i ps where x: "x = (i, ps)" by (cases x)
  let ?f = "named_point table (dg_ID g)"
  have split: "List.map_filter ?f (flat_ids (x # ms)) =
      List.map_filter (?f \<circ> Pair i) ps @ List.map_filter ?f (flat_ids ms)"
    by (simp add: x flat_ids_def map_filter_append map_filter_comp)
  show ?case
  proof (cases "otel_lookup table (dg_ID g) i")
    case None
    then have "List.map_filter (?f \<circ> Pair i) ps = []" by (simp add: named_point_def map_filter_def)
    with Cons [of sm] None split x show ?thesis by simp
  next
    case (Some om)
    have ints: "enum_ints om" using lookup_enum_ints [OF assms(1) Some] .
    obtain mt where mt: "otel_metric om ps = Ok mt" "mt_name mt = om_name om"
      "mt_points mt = List.map_filter (point_of om) ps" using otel_metric_total [OF ints] .
    obtain a where a: "(case sm_attributes sm of Some a \<Rightarrow> Some a
        | None \<Rightarrow> (case parseRFC3339ToNanos (dg_Timestamp g) of
                     Ok t \<Rightarrow> Some (scope_attributes om fqdd (int_dec t)) | _ \<Rightarrow> None)) = Some a"
      using assms(2) by (cases "sm_attributes sm") auto
    let ?sm = "sm\<lparr>sm_attributes := Some a, sm_metrics := sm_metrics sm @ [mt]\<rparr>"
    have "(?f \<circ> Pair i) = (\<lambda>p. map_option (Pair (om_name om)) (point_of om p))"
      by (simp add: fun_eq_iff named_point_def Some)
    then have "scope_points ?sm = scope_points sm @ List.map_filter (?f \<circ> Pair i) ps"
      by (simp add: scope_points_def mt map_filter_map_option)
    moreover have "otel_scope table g fqdd (x # ms) sm = otel_scope table g fqdd ms ?sm"
      using a Some mt(1) by (simp add: x Let_def)
    ultimately show ?thesis using Cons [of ?sm] split by simp
  qed
qed (simp add: flat_ids_def map_filter_def)

lemma otel_scopes_points:
  assumes "table_ints table" and "parseRFC3339ToNanos (dg_Timestamp g) = Ok t"
  shows "\<exists>sms. otel_scopes table g m = Ok sms
    \<and> exported_points m sms = List.map_filter (expected_point table (dg_ID g)) (flat m)"
proof (induction m)
  case (Cons x m)
  obtain c ms where x: "x = (c, ms)" by (cases x)
  obtain sms where sms: "otel_scopes table g m = Ok sms"
    "exported_points m sms = List.map_filter (expected_point table (dg_ID g)) (flat m)" using Cons by blast
  obtain sm where sm: "otel_scope table g c ms \<lparr>sm_attributes = None, sm_metrics = []\<rparr> = Ok sm"
    "scope_points sm = List.map_filter (named_point table (dg_ID g)) (flat_ids ms)"
    using otel_scope_points [OF assms, of c ms "\<lparr>sm_attributes = None, sm_metrics = []\<rparr>"]
    by (auto simp: scope_points_def)
  have "expected_point table (dg_ID g) \<circ> Pair c = (\<lambda>r. map_option (Pair c) (named_point table (dg_ID g) r))"
    by (auto simp: fun_eq_iff expected_point_def named_point_def point_of_def
        split: option.splits outcome.splits prod.splits)
  then have "List.map_filter (expected_point table (dg_ID g)) (flat (x # m)) =
      map (Pair c) (scope_points sm) @ exported_points m sms"
    by (simp add: x flat_def map_filter_append map_filter_comp map_filter_map_option sm(2) sms(2))
  then show ?case using sm(1) sms(1) by (simp add: x exported_points_def)
qed (simp add: exported_points_def flat_def map_filter_def)

lemma mset_map_filter: "mset (List.map_filter f xs) = image_mset (the \<circ> f) (filter_mset (\<lambda>x. f x \<noteq> None) (mset xs))"
  by (simp add: map_filter_def)

lemma map_filter_bind:
  "List.map_filter f (List.map_filter g xs) = List.map_filter (\<lambda>x. Option.bind (g x) f) xs"
  by (induction xs) (auto simp: map_filter_def split: Option.bind_splits)

text \<open>A file holds a certificate or a key only if a line of it begins a PEM block.\<close>

definition holds_pem :: "string \<Rightarrow> bool" where
  "holds_pem s \<longleftrightarrow> has_prefix s ''-----BEGIN'' \<or> contains s (CHR 0x0A # ''-----BEGIN'')"

lemma path_no_pem:
  assumes "CHR 0x0A \<notin> set f"
  shows "\<not> holds_pem (''/extrabin/certs/'' @ f)"
proof -
  have "CHR 0x0A \<notin> set (''/extrabin/certs/'' @ f)" using assms by simp
  moreover have "CHR 0x0A \<in> set (a @ (CHR 0x0A # ''-----BEGIN'') @ b)" for a b by simp
  ultimately have "\<not> contains (''/extrabin/certs/'' @ f) (CHR 0x0A # ''-----BEGIN'')"
    unfolding contains_iff by metis
  then show ?thesis by (simp add: holds_pem_def)
qed

text \<open>A table of one metric whose values are texts, and a group of a device in the state \<open>On\<close>, with a
  reading that has no place in the table and one that has no time.\<close>

definition example_table :: otel_table where
  "example_table = [(''Status'',
     \<lparr>om_name = ''hw.status'', om_description = [], om_unit = [], om_valueType = ''gauge'', om_attributes = [],
      om_enum = Some [(''off'', Some 0), (''on'', Some 1)]\<rparr>)]"

definition example_states :: DataGroup where
  "example_states = zero_group\<lparr>dg_Timestamp := ''1970-01-01T00:00:00Z'', dg_Values := Some
     [zero_value\<lparr>dv_Context := ''Fan.1'', dv_ID := ''Status'', dv_Value := ''On'', dv_Timestamp := ''1970-01-01T00:00:01Z''\<rparr>,
      zero_value\<lparr>dv_Context := ''Fan.1'', dv_ID := ''Speed'', dv_Value := ''On'', dv_Timestamp := ''1970-01-01T00:00:01Z''\<rparr>,
      zero_value\<lparr>dv_Context := ''Fan.2'', dv_ID := ''Status'', dv_Value := ''On''\<rparr>]\<rparr>"



text \<open>C29: the certificates of the settings are never read. The program takes the names of the files
  for their contents, so with a certificate authority, a client certificate and a key configured no
  key pair can be made of them, and the program ends without a request to the collector.\<close>

theorem otel_client_certificate_stops:
  assumes "\<And>p q. \<not> holds_pem p \<Longrightarrow> keyPair p q \<noteq> None"
    and "setting c ''otelCollector'' \<noteq> []" and "setting c ''otelCACert'' \<noteq> []"
    and "setting c ''otelClientCert'' \<noteq> []" and "setting c ''otelClientKey'' \<noteq> []"
    and "CHR 0x0A \<notin> set (setting c ''otelClientCert'')"
  shows "fst (otelpump_run appendPEM keyPair exporter order file (c # cs) groups h) = h"
proof -
  let ?path = "\<lambda>key. ''/extrabin/certs/'' @ setting c key"
  let ?k = "otelpump_read c otelpump_unread"
  have k: "oc_caCert ?k = ?path ''otelCACert''" "oc_clientCert ?k = ?path ''otelClientCert''"
    "oc_clientKey ?k = ?path ''otelClientKey''" "oc_url ?k = setting c ''otelCollector''"
    using assms(3-5) by (simp_all add: otelpump_read_def Let_def)
  then have given: "oc_caCert ?k \<noteq> []" "oc_clientCert ?k \<noteq> []" "oc_clientKey ?k \<noteq> []" by auto
  obtain e where e: "keyPair (oc_clientCert ?k) (oc_clientKey ?k) = Some e"
    using assms(1) [OF path_no_pem [OF assms(6)]] unfolding k(2) by blast
  have wait: "otelpump_wait (c # cs) otelpump_unread = Some ?k" using assms(2) k(4) by (simp add: Let_def)
  have "newHTTPExporter appendPEM keyPair ?k = Err e" by (simp add: newHTTPExporter_def given e Let_def)
  then show ?thesis
    unfolding otelpump_run_def wait by (simp add: bindS_def tryS_def liftS_def split: outcome.split)
qed

theorem otel_client_certificate_stops_witness:
  "fst (otelpump_run (\<lambda>s. False) (\<lambda>p q. if holds_pem p then None else Some ''no PEM data'')
     (\<lambda>ex. \<lparr>ex_metrics = \<lambda>rm h. (Suc h, Ok ()), ex_logs = \<lambda>rl h. (Suc h, Ok ())\<rparr>) id
     (Some \<lparr>of_repeated = None, of_scope = Some (Ok []), of_reports = Some []\<rparr>)
     [[(''otelCollector'', ''https://otel''), (''otelCACert'', ''ca.pem''), (''otelClientCert'', ''cert.pem''),
       (''otelClientKey'', ''key.pem'')]] [example_states] 0) = (0::nat)"
  by (rule otel_client_certificate_stops) (simp_all add: setting_def)

end
