(* ===== verification/PumpRuns.thy ===== *)
theory PumpRuns
  imports Programs Kafkapump Splunkpump Otelpump
begin

text \<open>
  The pumps that are configured from the page, as running programs: the \<open>main\<close> functions of
  \<^verbatim>\<open>cmd/kafkapump\<close>, \<^verbatim>\<open>cmd/splunkpump\<close> and \<^verbatim>\<open>cmd/otelpump\<close>.

  In each of them three goroutines run: one handles the messages of the configuration service,
  one turns the messages of the data bus into groups on a channel, and \<open>main\<close> waits for a
  configuration, opens its destination and then handles the groups. An event is a message to one
  of the first two or a turn of the loop \<open>main\<close> is in; a run is any sequence of events. The
  channel has room for ten groups, behind which the messages wait in their order: it is a list.
\<close>

subsection \<open>Runs\<close>

text \<open>A program: what it keeps of the settings while it waits, whether that is enough, the \<open>n\<close>th
  attempt to open the destination, and the handling of a group.\<close>

datatype 'x opened = Retry | Opened 'x | Ended "unit outcome"

record ('k, 'x) pump_program =
  pp_read :: "settings \<Rightarrow> 'k \<Rightarrow> 'k"
  pp_ready :: "'k \<Rightarrow> bool"
  pp_open :: "nat \<Rightarrow> 'k \<Rightarrow> 'x opened"
  pp_handle :: "settings \<times> DataGroup \<Rightarrow> ('x, unit) go"

datatype ('k, 'x) pump_phase = Waiting 'k | Opening nat 'k | Handling 'x | Stopped "unit outcome"

record ('b, 'k, 'x) pump_run =
  pr_service :: "('b, settings) ConfigService"
  pr_groups :: "DataGroup list"
  pr_phase :: "('k, 'x) pump_phase"

datatype pump_event = Configure string | Receive string | Turn

definition pump_turn :: "('k, 'x) pump_program \<Rightarrow> ('b, 'k, 'x) pump_run \<Rightarrow> ('b, 'k, 'x) pump_run" where
  "pump_turn p r =
     (let c = cs_State (pr_service r) in
      case pr_phase r of
        Waiting k \<Rightarrow>
          (let k' = pp_read p c k in r\<lparr>pr_phase := if pp_ready p k' then Opening 0 k' else Waiting k'\<rparr>)
      | Opening n k \<Rightarrow>
          r\<lparr>pr_phase := (case pp_open p n k of Retry \<Rightarrow> Opening (Suc n) k | Opened x \<Rightarrow> Handling x | Ended q \<Rightarrow> Stopped q)\<rparr>
      | Handling x \<Rightarrow>
          (case pr_groups r of
             [] \<Rightarrow> r
           | g # gs \<Rightarrow>
               (case pp_handle p (c, g) x of
                  (x', Ok u) \<Rightarrow> r\<lparr>pr_groups := gs, pr_phase := Handling x'\<rparr>
                | (x', q) \<Rightarrow> r\<lparr>pr_groups := gs, pr_phase := Stopped q\<rparr>))
      | Stopped q \<Rightarrow> r)"

text \<open>The groups a message of the data bus brings: one, or none if it is something else.\<close>

definition message_groups :: "string \<Rightarrow> DataGroup list" where
  "message_groups m = decode_groups (fst (listen_filtered DATAGROUP [Message m]))"

text \<open>A panic of the configuration service ends the program.\<close>

definition pump_step ::
  "'b bus_ops \<Rightarrow> ('k, 'x) pump_program \<Rightarrow> pump_event \<Rightarrow> ('b, 'k, 'x) pump_run \<Rightarrow> ('b, 'k, 'x) pump_run" where
  "pump_step ops p e r =
     (case pr_phase r of
        Stopped q \<Rightarrow> r
      | _ \<Rightarrow>
          (case e of
             Configure m \<Rightarrow>
               (case config_message ops m (pr_service r) of
                  (d, Ok u) \<Rightarrow> r\<lparr>pr_service := d\<rparr>
                | (d, q) \<Rightarrow> r\<lparr>pr_service := d, pr_phase := Stopped q\<rparr>)
           | Receive m \<Rightarrow> r\<lparr>pr_groups := pr_groups r @ message_groups m\<rparr>
           | Turn \<Rightarrow> pump_turn p r))"

definition run_events ::
  "'b bus_ops \<Rightarrow> ('k, 'x) pump_program \<Rightarrow> pump_event list \<Rightarrow> ('b, 'k, 'x) pump_run \<Rightarrow> ('b, 'k, 'x) pump_run" where
  "run_events ops p es r = fold (pump_step ops p) es r"

text \<open>\<open>main\<close> once the internal bus is connected: both goroutines are started, and when the data bus
  cannot be subscribed to, its messages never arrive.\<close>

definition pump_begin ::
  "'b bus_ops \<Rightarrow> string \<Rightarrow> nat \<Rightarrow> nat \<Rightarrow> 'b BaseClient \<times> ('b, settings) ConfigService \<Rightarrow> 'k \<Rightarrow>
   ('b, 'k, 'x) pump_run \<times> bool" where
  "pump_begin ops queue ch1 ch2 started k =
     (case started of (bc, d) \<Rightarrow>
        (case recv_msg ops (cs_Bus d) ch1 queue of
           (b, q) \<Rightarrow>
             (\<lparr>pr_service = fst (config_Run ops ch2 [] (d\<lparr>cs_Bus := b\<rparr>)), pr_groups = [], pr_phase = Waiting k\<rparr>,
              q = Ok ())))"

fun arriving :: "bool \<Rightarrow> pump_event list \<Rightarrow> pump_event list" where
  "arriving listening [] = []"
| "arriving listening (Receive m # es) = (if listening then Receive m # arriving listening es else arriving listening es)"
| "arriving listening (e # es) = e # arriving listening es"

definition pump_main ::
  "'b bus_ops \<Rightarrow> ('k, 'x) pump_program \<Rightarrow> string \<Rightarrow> nat \<Rightarrow> nat \<Rightarrow> 'b BaseClient \<times> ('b, settings) ConfigService \<Rightarrow>
   'k \<Rightarrow> pump_event list \<Rightarrow> ('b, 'k, 'x) pump_run" where
  "pump_main ops p queue ch1 ch2 started k es =
     (case pump_begin ops queue ch1 ch2 started k of
        (r, listening) \<Rightarrow> run_events ops p (arriving listening es) r)"

subsection \<open>The three programs\<close>

text \<open>The Kafka pump: \<open>nets n\<close> is the network of the \<open>n\<close>th attempt to connect, \<open>net\<close> the one of the
  messages that follow.\<close>

definition kafka_program ::
  "(string \<Rightarrow> string outcome) \<Rightarrow> (string \<Rightarrow> string \<Rightarrow> gerror option) \<Rightarrow> (nat \<Rightarrow> kafka_net) \<Rightarrow> kafka_net \<Rightarrow>
   (kafkapump_config, KafkaMessagebus) pump_program" where
  "kafka_program readFile keyPair nets net =
     \<lparr>pp_read = kafkapump_read, pp_ready = kafkapump_configured,
      pp_open = (\<lambda>n k. case kafkapump_connect readFile keyPair [nets n] k of
                   None \<Rightarrow> Retry | Some (Ok b) \<Rightarrow> Opened b | Some (Err e) \<Rightarrow> Ended (Err e)
                 | Some (Panic w) \<Rightarrow> Ended (Panic w) | Some (Exit m) \<Rightarrow> Ended (Exit m)),
      pp_handle = kafkapump_group (kafka_ops net)\<rparr>"

definition kafkapump_main ::
  "StompMessagebus bus_ops \<Rightarrow> (string \<Rightarrow> string outcome) \<Rightarrow> (string \<Rightarrow> string \<Rightarrow> gerror option) \<Rightarrow>
   (nat \<Rightarrow> kafka_net) \<Rightarrow> kafka_net \<Rightarrow> dialler \<Rightarrow> (string \<Rightarrow> string) \<Rightarrow> nat \<Rightarrow> nat \<Rightarrow> pump_event list \<Rightarrow>
   (StompMessagebus, kafkapump_config, KafkaMessagebus) pump_run option" where
  "kafkapump_main ops readFile keyPair nets net dial env ch1 ch2 es =
     (let c = kafkapump_settings env in
      map_option
        (\<lambda>mb. pump_main ops (kafka_program readFile keyPair nets net) ''/kafka'' ch1 ch2
                (kafkapump_start ops mb c) kafkapump_unread es)
        (connect_bus dial c 0))"

text \<open>The Splunk pump has nothing to open: it waits for a key, a URL and an index, and the groups are
  then posted under the settings in force. \<open>h\<close> is the state of the HTTP client.\<close>

definition splunk_program :: "'h splunk_post \<Rightarrow> 'h \<Rightarrow> (string \<times> string \<times> string, 'h) pump_program" where
  "splunk_program post h =
     \<lparr>pp_read = (\<lambda>c (key, url, index).
        (let keep = (\<lambda>k old. if setting c k \<noteq> [] then setting c k else old) in
         (keep ''splunkKey'' key, keep ''splunkURL'' url, keep ''splunkIndex'' index))),
      pp_ready = (\<lambda>(key, url, index). key \<noteq> [] \<and> url \<noteq> [] \<and> index \<noteq> []),
      pp_open = (\<lambda>n k. Opened h),
      pp_handle = splunkpump_group post\<rparr>"

definition splunkpump_main ::
  "StompMessagebus bus_ops \<Rightarrow> 'h splunk_post \<Rightarrow> 'h \<Rightarrow> dialler \<Rightarrow> splunk_flags \<Rightarrow> ini_values option \<Rightarrow>
   (string \<Rightarrow> string) \<Rightarrow> nat \<Rightarrow> nat \<Rightarrow> pump_event list \<Rightarrow>
   (StompMessagebus, string \<times> string \<times> string, 'h) pump_run option" where
  "splunkpump_main ops post h dial fl ini env ch1 ch2 es =
     (let c = splunkpump_settings fl ini env in
      map_option
        (\<lambda>mb. pump_main ops (splunk_program post h) ''/spunk'' ch1 ch2 (splunkpump_start ops mb c) ([], [], []) es)
        (connect_bus dial c 0))"

text \<open>The OpenTelemetry pump: its table is read from a file and its exporter made once; a failure of
  the exporter is logged and ends the program.\<close>

definition otel_open ::
  "(string \<Rightarrow> bool) \<Rightarrow> (string \<Rightarrow> string \<Rightarrow> gerror option) \<Rightarrow> otel_file option \<Rightarrow> 'h \<Rightarrow> otel_config \<Rightarrow>
   (otel_table \<times> httpExporter \<times> 'h) opened" where
  "otel_open appendPEM keyPair file h k =
     (case readOtelMeta file [] of
        Ok table \<Rightarrow>
          (case newHTTPExporter appendPEM keyPair k of
             Ok ex \<Rightarrow> Opened (table, ex, h)
           | Err e \<Rightarrow> Ended (Ok ())
           | Panic w \<Rightarrow> Ended (Panic w)
           | Exit n \<Rightarrow> Ended (Exit n))
      | Err e \<Rightarrow> Ended (Err e)
      | Panic w \<Rightarrow> Ended (Panic w)
      | Exit n \<Rightarrow> Ended (Exit n))"

definition otel_program ::
  "(string \<Rightarrow> bool) \<Rightarrow> (string \<Rightarrow> string \<Rightarrow> gerror option) \<Rightarrow> (httpExporter \<Rightarrow> 'h otel_exporter) \<Rightarrow>
   (fqdd_metrics \<Rightarrow> fqdd_metrics) \<Rightarrow> otel_file option \<Rightarrow> 'h \<Rightarrow>
   (otel_config, otel_table \<times> httpExporter \<times> 'h) pump_program" where
  "otel_program appendPEM keyPair exporter order file h =
     \<lparr>pp_read = otelpump_read, pp_ready = (\<lambda>k. oc_url k \<noteq> []),
      pp_open = (\<lambda>n. otel_open appendPEM keyPair file h),
      pp_handle = (\<lambda>(c, g) (table, ex, h).
        case otel_group table (exporter ex) order g h of (h', q) \<Rightarrow> ((table, ex, h'), q))\<rparr>"

definition otelpump_main ::
  "StompMessagebus bus_ops \<Rightarrow> (string \<Rightarrow> bool) \<Rightarrow> (string \<Rightarrow> string \<Rightarrow> gerror option) \<Rightarrow> (httpExporter \<Rightarrow> 'h otel_exporter) \<Rightarrow>
   (fqdd_metrics \<Rightarrow> fqdd_metrics) \<Rightarrow> otel_file option \<Rightarrow> 'h \<Rightarrow> dialler \<Rightarrow> (string \<Rightarrow> string) \<Rightarrow> nat \<Rightarrow> nat \<Rightarrow>
   pump_event list \<Rightarrow> (StompMessagebus, otel_config, otel_table \<times> httpExporter \<times> 'h) pump_run option" where
  "otelpump_main ops appendPEM keyPair exporter order file h dial env ch1 ch2 es =
     (let c = otelpump_settings env in
      map_option
        (\<lambda>mb. pump_main ops (otel_program appendPEM keyPair exporter order file h) ''/otel'' ch1 ch2
                (otelpump_start ops mb c) otelpump_unread es)
        (connect_bus dial c 0))"

subsection \<open>What a run has done\<close>

definition received :: "pump_event list \<Rightarrow> DataGroup list" where
  "received es = concat (map (\<lambda>e. case e of Receive m \<Rightarrow> message_groups m | _ \<Rightarrow> []) es)"

text \<open>The settings there have been while the program handled groups.\<close>

definition settings_seen ::
  "'b bus_ops \<Rightarrow> ('k, 'x) pump_program \<Rightarrow> pump_event list \<Rightarrow> ('b, 'k, 'x) pump_run \<Rightarrow> settings set" where
  "settings_seen ops p es r = 
     {c. \<exists>es1 es2 x. es = es1 @ es2 \<and> pr_phase (run_events ops p es1 r) = Handling x
           \<and> c = cs_State (pr_service (run_events ops p es1 r))}"

text \<open>No group is lost while the program waits, and once it handles groups, those it has handled are
  the first it received, each under settings of its time.\<close>

definition pump_done ::
  "('k, 'x) pump_program \<Rightarrow> settings set \<Rightarrow> DataGroup list \<Rightarrow> ('b, 'k, 'x) pump_run \<Rightarrow> bool" where
  "pump_done p cs gs r =
     (case pr_phase r of
        Waiting k \<Rightarrow> pr_groups r = gs
      | Opening n k \<Rightarrow> pr_groups r = gs \<and> pp_ready p k
      | Handling x \<Rightarrow>
          (\<exists>n k x0 cgs. pp_ready p k \<and> pp_open p n k = Opened x0 \<and> gs = map snd cgs @ pr_groups r
            \<and> fst ` set cgs \<subseteq> cs \<and> each_group (pp_handle p) cgs x0 = (x, Ok ()))
      | Stopped q \<Rightarrow> True)"

lemma received_simps [simp]:
  "received [] = []" "received (es @ es') = received es @ received es'"
  "received (Configure m # es) = received es" "received (Receive m # es) = message_groups m @ received es"
  "received (Turn # es) = received es"
  by (simp_all add: received_def)

lemma run_events_simps [simp]:
  "run_events ops p [] r = r" "run_events ops p (es @ es') r = run_events ops p es' (run_events ops p es r)"
  "run_events ops p (e # es) r = run_events ops p es (pump_step ops p e r)"
  by (simp_all add: run_events_def)

lemma settings_seen_mono: "settings_seen ops p es r \<subseteq> settings_seen ops p (es @ es') r"
proof
  fix c
  assume "c \<in> settings_seen ops p es r"
  then obtain es1 es2 x where "es = es1 @ es2" "pr_phase (run_events ops p es1 r) = Handling x"
    "c = cs_State (pr_service (run_events ops p es1 r))"
    by (auto simp: settings_seen_def)
  moreover from this have "es @ es' = es1 @ (es2 @ es')" by simp
  ultimately show "c \<in> settings_seen ops p (es @ es') r" unfolding settings_seen_def by blast
qed

lemma settings_seen_now:
  "pr_phase (run_events ops p es r) = Handling x \<Longrightarrow> cs_State (pr_service (run_events ops p es r)) \<in> settings_seen ops p es r"
  unfolding settings_seen_def by blast

lemma pump_done_mono: "pump_done p cs gs r \<Longrightarrow> cs \<subseteq> cs' \<Longrightarrow> pump_done p cs' gs r"
  unfolding pump_done_def by (auto split: pump_phase.splits) blast

lemma pump_done_service: "pump_done p cs gs (r\<lparr>pr_service := d\<rparr>) = pump_done p cs gs r"
  by (cases "pr_phase r") (simp_all add: pump_done_def)

lemma pump_done_receive:
  assumes "pump_done p cs gs r"
  shows "pump_done p cs (gs @ gs') (r\<lparr>pr_groups := pr_groups r @ gs'\<rparr>)"
  using assms by (auto simp: pump_done_def split: pump_phase.splits)

lemma pump_done_stopped: "pr_phase r = Stopped q \<Longrightarrow> pump_done p cs gs r"
  by (simp add: pump_done_def)

lemma pump_done_turn:
  assumes "pump_done p cs gs r" and "\<And>x. pr_phase r = Handling x \<Longrightarrow> cs_State (pr_service r) \<in> cs"
  shows "pump_done p cs gs (pump_turn p r)"
proof (cases "pr_phase r")
  case (Handling x)
  show ?thesis
  proof (cases "pr_groups r")
    case Nil
    with Handling assms(1) show ?thesis by (simp add: pump_turn_def Let_def)
  next
    case (Cons g gs1)
    let ?c = "cs_State (pr_service r)"
    obtain x' q where h: "pp_handle p (?c, g) x = (x', q)" by (cases "pp_handle p (?c, g) x")
    show ?thesis
    proof (cases "q = Ok ()")
      case True
      from assms(1) Handling obtain n k x0 cgs where
        i: "pp_ready p k" "pp_open p n k = Opened x0" "gs = map snd cgs @ pr_groups r" "fst ` set cgs \<subseteq> cs"
          "each_group (pp_handle p) cgs x0 = (x, Ok ())" by (auto simp: pump_done_def)
      have "each_group (pp_handle p) (cgs @ [(?c, g)]) x0 = (x', Ok ())"
        using i(5) h True by (simp add: each_group_append bindS_def liftS_def)
      moreover have "gs = map snd (cgs @ [(?c, g)]) @ gs1" using i(3) Cons by simp
      moreover have "fst ` set (cgs @ [(?c, g)]) \<subseteq> cs" using i(4) assms(2) [OF Handling] by simp
      ultimately have "\<exists>n k x0 cgs. pp_ready p k \<and> pp_open p n k = Opened x0 \<and> gs = map snd cgs @ gs1
          \<and> fst ` set cgs \<subseteq> cs \<and> each_group (pp_handle p) cgs x0 = (x', Ok ())"
        using i(1,2) by blast
      then show ?thesis using Handling Cons h True by (simp add: pump_turn_def pump_done_def)
    next
      case False
      then have "\<exists>q. pr_phase (pump_turn p r) = Stopped q"
        using Handling Cons h by (cases q) (auto simp: pump_turn_def)
      then show ?thesis using pump_done_stopped by blast
    qed
  qed
next
  case (Opening n k)
  with assms(1) show ?thesis
    by (cases "pp_open p n k")
      (auto simp: pump_turn_def pump_done_def liftS_def intro!: exI [of _ n] exI [of _ k] exI [of _ "[]"])
qed (use assms(1) in \<open>auto simp: pump_turn_def pump_done_def Let_def\<close>)

lemma pump_done_step:
  assumes "pump_done p cs gs r" and "\<And>x. pr_phase r = Handling x \<Longrightarrow> cs_State (pr_service r) \<in> cs"
  shows "pump_done p cs (gs @ received [e]) (pump_step ops p e r)"
proof (cases "\<exists>q. pr_phase r = Stopped q")
  case True
  then show ?thesis by (auto simp: pump_step_def pump_done_def)
next
  case False
  show ?thesis
  proof (cases e)
    case (Configure m)
    obtain d q where "config_message ops m (pr_service r) = (d, q)" by (cases "config_message ops m (pr_service r)")
    then have "pump_step ops p e r = r\<lparr>pr_service := d\<rparr> \<or> (\<exists>q. pr_phase (pump_step ops p e r) = Stopped q)"
      using False Configure by (cases q; cases "pr_phase r") (auto simp: pump_step_def)
    then show ?thesis using assms(1) pump_done_stopped Configure by (auto simp: pump_done_service)
  next
    case (Receive m)
    with False have "pump_step ops p e r = r\<lparr>pr_groups := pr_groups r @ message_groups m\<rparr>"
      by (cases "pr_phase r") (auto simp: pump_step_def)
    then show ?thesis using pump_done_receive [OF assms(1)] Receive by simp
  next
    case Turn
    with False have "pump_step ops p e r = pump_turn p r"
      by (cases "pr_phase r") (auto simp: pump_step_def)
    then show ?thesis using pump_done_turn [OF assms(1)] assms(2) Turn by simp
  qed
qed

theorem run_done:
  assumes "pr_phase r = Waiting k" and "pr_groups r = []"
  shows "pump_done p (settings_seen ops p es r) (received es) (run_events ops p es r)"
proof (induction es rule: rev_induct)
  case Nil
  show ?case using assms by (simp add: pump_done_def)
next
  case (snoc e es)
  from pump_done_step [OF snoc settings_seen_now, where e = e and ops = ops]
  have "pump_done p (settings_seen ops p es r) (received (es @ [e])) (run_events ops p (es @ [e]) r)" by simp
  then show ?case by (rule pump_done_mono) (rule settings_seen_mono)
qed

text \<open>Turns alone take a program that has what it needs through its groups.\<close>

lemma turns_stopped [simp]: "pr_phase r = Stopped q \<Longrightarrow> run_events ops p es r = r"
  by (induction es) (simp_all add: pump_step_def)

lemma step_turn [simp]: "pump_step ops p Turn r = pump_turn p r"
  by (cases "pr_phase r") (simp_all add: pump_step_def pump_turn_def Let_def)

lemma turn_service [simp]: "pr_service (pump_turn p r) = pr_service r"
  by (auto simp: pump_turn_def Let_def split: pump_phase.split list.split prod.split outcome.split)

lemma turns_service [simp]: "pr_service (run_events ops p (replicate n Turn) r) = pr_service r"
  by (induction n arbitrary: r) simp_all

lemma turns_open:
  assumes "pr_phase r = Opening i k" and "i \<le> m" and "pp_open p m k = Opened x" and "\<forall>j<m. pp_open p j k = Retry"
  shows "run_events ops p (replicate (Suc (m - i)) Turn) r = r\<lparr>pr_phase := Handling x\<rparr>"
  using assms
proof (induction "m - i" arbitrary: i r)
  case 0
  then have "i = m" by simp
  with 0 show ?case by (simp add: pump_turn_def)
next
  case (Suc d)
  then have i: "i < m" by simp
  then have "m - i = Suc (m - Suc i)" by simp
  moreover have "pump_turn p r = r\<lparr>pr_phase := Opening (Suc i) k\<rparr>" using Suc.prems(1,4) i by (simp add: pump_turn_def)
  moreover have "d = m - Suc i" using Suc.hyps(2) by simp
  ultimately show ?case using Suc.hyps(1) [of "Suc i" "r\<lparr>pr_phase := Opening (Suc i) k\<rparr>"] Suc.prems i by simp
qed

text \<open>What can come of a number of turns that is enough for the groups there are.\<close>

definition turned_out :: "('k, 'x) pump_program \<Rightarrow> ('b, 'k, 'x) pump_run \<Rightarrow> bool" where
  "turned_out p r \<longleftrightarrow> pr_groups r = [] \<and> (\<exists>x. pr_phase r = Handling x)
     \<or> (\<exists>q cg x x'. pr_phase r = Stopped q \<and> q \<noteq> Ok () \<and> pp_handle p cg x = (x', q))"

lemma turns_drain:
  assumes "pr_phase r = Handling x" and "length (pr_groups r) \<le> n"
  shows "turned_out p (run_events ops p (replicate n Turn) r)"
  using assms
proof (induction n arbitrary: r x)
  case 0
  then show ?case by (auto simp: turned_out_def)
next
  case (Suc n)
  let ?c = "cs_State (pr_service r)"
  show ?case
  proof (cases "pr_groups r")
    case Nil
    with Suc.prems have "pump_turn p r = r" by (simp add: pump_turn_def)
    with Suc.IH [of r x] Suc.prems Nil show ?thesis by simp
  next
    case (Cons g gs)
    obtain x' q where h: "pp_handle p (?c, g) x = (x', q)" by (cases "pp_handle p (?c, g) x")
    show ?thesis
    proof (cases "q = Ok ()")
      case True
      then have "pump_turn p r = r\<lparr>pr_groups := gs, pr_phase := Handling x'\<rparr>"
        using Suc.prems(1) Cons h by (simp add: pump_turn_def)
      with Suc.IH [of "r\<lparr>pr_groups := gs, pr_phase := Handling x'\<rparr>" x'] Suc.prems(2) Cons show ?thesis by simp
    next
      case False
      then have "pr_phase (pump_turn p r) = Stopped q"
        using Suc.prems(1) Cons h by (cases q) (auto simp: pump_turn_def)
      with h False show ?thesis by (auto simp: turned_out_def)
    qed
  qed
qed

subsection \<open>Pumps that write in order\<close>

text \<open>What a pump promises of its handler: what it was opened with stays, and a group that is handled
  adds what \<open>writes\<close> says to the outputs. The programs keep the order of the groups.\<close>

locale ordered_writer =
  fixes handle :: "settings \<times> DataGroup \<Rightarrow> ('x, unit) go"
    and base :: "'x \<Rightarrow> 'f"
    and out :: "'x \<Rightarrow> 't \<Rightarrow> 'm list"
    and writes :: "'f \<Rightarrow> settings \<times> DataGroup \<Rightarrow> 't \<Rightarrow> 'm list"
  assumes handle_base: "handle cg x = (x', Ok ()) \<Longrightarrow> base x' = base x"
    and handle_writes: "handle cg x = (x', Ok ()) \<Longrightarrow> out x' t = out x t @ writes (base x) cg t"
begin

lemma each_group_writes:
  "each_group handle cgs x = (x', Ok ()) \<Longrightarrow>
     base x' = base x \<and> out x' t = out x t @ concat (map (\<lambda>cg. writes (base x) cg t) cgs)"
proof (induction cgs arbitrary: x)
  case (Cons cg cgs)
  then obtain x1 where x1: "handle cg x = (x1, Ok ())" "each_group handle cgs x1 = (x', Ok ())"
    by (auto simp: bindS_Ok)
  show ?case using Cons.IH [OF x1(2)] handle_base [OF x1(1)] handle_writes [OF x1(1), of t] by simp
qed (simp add: liftS_def)

lemma run_writes:
  assumes "pp_handle p = handle" and "pr_phase r = Waiting k0" and "pr_groups r = []"
    and "pr_phase (run_events ops p es r) = Handling x"
  shows "\<exists>n k x0 cgs. pp_ready p k \<and> pp_open p n k = Opened x0
    \<and> received es = map snd cgs @ pr_groups (run_events ops p es r)
    \<and> fst ` set cgs \<subseteq> settings_seen ops p es r \<and> base x = base x0
    \<and> (\<forall>t. out x t = out x0 t @ concat (map (\<lambda>cg. writes (base x0) cg t) cgs))"
proof -
  from run_done [OF assms(2,3), of p ops es] assms(4) obtain n k x0 cgs where
    "pp_ready p k" "pp_open p n k = Opened x0" "received es = map snd cgs @ pr_groups (run_events ops p es r)"
    "fst ` set cgs \<subseteq> settings_seen ops p es r" and e: "each_group handle cgs x0 = (x, Ok ())"
    by (auto simp: pump_done_def assms(1))
  moreover have "base x = base x0 \<and> (\<forall>t. out x t = out x0 t @ concat (map (\<lambda>cg. writes (base x0) cg t) cgs))"
    using each_group_writes [OF e] by blast
  ultimately show ?thesis by blast
qed

text \<open>The settings with which a program begins to open its destination are final.\<close>

definition opened_with :: "('k, 'x) pump_program \<Rightarrow> 'k \<Rightarrow> ('b, 'k, 'x) pump_run \<Rightarrow> bool" where
  "opened_with p k r =
     (case pr_phase r of
        Waiting k' \<Rightarrow> False
      | Opening n k' \<Rightarrow> k' = k
      | Handling x \<Rightarrow> \<exists>n x0. pp_open p n k = Opened x0 \<and> base x = base x0
      | Stopped q \<Rightarrow> True)"

lemma opened_with_step:
  assumes "pp_handle p = handle" and "opened_with p k r"
  shows "opened_with p k (pump_step ops p e r)"
proof (cases "pr_phase r")
  case (Handling x)
  have "base x' = base x" if "pp_handle p cg x = (x', Ok ())" for cg x'
    using that handle_base unfolding assms(1) by blast
  with Handling assms(2) show ?thesis
    by (fastforce simp: opened_with_def pump_step_def pump_turn_def Let_def
        split: pump_event.splits prod.splits outcome.splits list.splits)
next
  case (Opening n k')
  with assms show ?thesis
    by (auto simp: opened_with_def pump_step_def pump_turn_def Let_def
        split: pump_event.splits prod.splits outcome.splits opened.splits)
qed (use assms in \<open>auto simp: opened_with_def pump_step_def\<close>)

lemma opened_with_run:
  "pp_handle p = handle \<Longrightarrow> opened_with p k r \<Longrightarrow> opened_with p k (run_events ops p es r)"
  by (induction es rule: rev_induct) (simp_all add: opened_with_step)

end

text \<open>The messages a group adds to a topic of Kafka.\<close>

definition kafka_writes :: "settings \<times> DataGroup \<Rightarrow> string \<Rightarrow> string list" where
  "kafka_writes cg t =
     (case cg of (c, g) \<Rightarrow>
       let topic = kafka_topic (setting c ''kafkaTopic''); alert_topic = setting c ''kafkaAlertTopic'' in
       if alert_topic = [] then (if t = topic then [kafka_events_text (kafka_metrics g @ kafka_alerts g)] else [])
       else (if t = topic \<and> kafka_metrics g \<noteq> [] then [kafka_events_text (kafka_metrics g)] else [])
          @ (if t = kafka_topic alert_topic \<and> kafka_alerts g \<noteq> [] then [kafka_events_text (kafka_alerts g)] else []))"

lemma kafkapump_group_writes:
  assumes "kafkapump_group (kafka_ops net) cg b = (b', Ok ())"
  shows "written (kb_log b') t = written (kb_log b) t @ kafka_writes cg t"
proof -
  obtain c g where cg: "cg = (c, g)" by (cases cg)
  show ?thesis
  proof (cases "setting c ''kafkaAlertTopic'' = []")
    case True
    from kafka.kafkapump_group_one_topic [OF assms [unfolded cg] True] True show ?thesis
      by (simp add: cg kafka_writes_def)
  next
    case False
    let ?m = "if kafka_metrics g \<noteq> [] then kafkapump_send (kafka_ops net) (kafka_metrics g) (setting c ''kafkaTopic'')
              else liftS (Ok ())"
    let ?a = "if kafka_alerts g \<noteq> [] then kafkapump_send (kafka_ops net) (kafka_alerts g) (setting c ''kafkaAlertTopic'')
              else liftS (Ok ())"
    from assms False obtain b1 where "?m b = (b1, Ok ())" and "?a b1 = (b', Ok ())"
      by (auto simp: cg kafkapump_group_def Let_def bindS_Ok)
    from kafka.kafkapump_part_sent [OF this(1)] kafka.kafkapump_part_sent [OF this(2)] False show ?thesis
      by (simp add: cg kafka_writes_def)
  qed
qed

text \<open>The certificates and the address of a connection stay those it was made with.\<close>

lemma drop_stale_tls: "kb_tls (drop_stale net t m) = kb_tls m"
  by (auto simp: drop_stale_def kafka_do_def Let_def split: option.splits)

lemma TopicConnect_tls: "TopicConnect net q m = (m', r) \<Longrightarrow> kb_tls m' = kb_tls m"
  by (auto simp: TopicConnect_def kafka_do_def Let_def split: option.splits)

lemma kafkapump_send_tls: "kafkapump_send (kafka_ops net) es q b = (b', r) \<Longrightarrow> kb_tls b' = kb_tls b"
  by (auto simp: kafkapump_send_def tryS_def liftS_def kafka_ops_def kafka_SendMessage_def kafka_send_def kafka_do_def
      drop_stale_tls Let_def dest!: TopicConnect_tls split: prod.splits outcome.splits option.splits if_splits)

lemma kafkapump_group_tls:
  assumes "kafkapump_group (kafka_ops net) cg b = (b', r)"
  shows "kb_tls b' = kb_tls b"
  using assms
  by (auto simp: kafkapump_group_def Let_def bindS_def liftS_def dest!: kafkapump_send_tls
      split: prod.splits outcome.splits if_splits)

interpretation kafka_out: ordered_writer "kafkapump_group (kafka_ops net)" kb_tls "\<lambda>b. written (kb_log b)" "\<lambda>u. kafka_writes"
  for net
  by unfold_locales (simp_all add: kafkapump_group_writes kafkapump_group_tls)

text \<open>The request of a group, over a network that remembers the requests and answers them all alike.\<close>

definition splunk_group_request :: "settings \<times> DataGroup \<Rightarrow> splunk_request" where
  "splunk_group_request cg = (case cg of (c, g) \<Rightarrow> splunk_request_of c (map (splunk_event c) (elems (dg_Values g))))"

interpretation splunk_out: ordered_writer "splunkpump_group (answering a)" "\<lambda>h. ()" "\<lambda>h (t :: unit). h"
  "\<lambda>u cg t. [splunk_group_request cg]"
  for a
  by unfold_locales
    (auto simp: splunkpump_group_def logToSplunk_def answering_def tryS_def liftS_def splunk_group_request_def
      split: prod.splits outcome.splits)

text \<open>The same for OpenTelemetry: the requests of a group, given the table and the exporter.\<close>

definition otel_answering :: "(int \<times> string outcome) outcome \<Rightarrow> otel_request list \<Rightarrow> otel_request \<Rightarrow>
    otel_request list \<times> (int \<times> string outcome) outcome" where
  "otel_answering a h req = (h @ [req], a)"

definition otel_body :: "httpExporter \<Rightarrow> string \<Rightarrow> string outcome \<Rightarrow> otel_request list" where
  "otel_body ex path body = (case body of Ok b \<Rightarrow> [\<lparr>oq_url = he_base ex @ path, oq_body = b\<rparr>] | _ \<Rightarrow> [])"

definition otel_requests ::
  "(resource_metrics \<Rightarrow> string outcome) \<Rightarrow> (resource_logs \<Rightarrow> string outcome) \<Rightarrow> (fqdd_metrics \<Rightarrow> fqdd_metrics) \<Rightarrow>
   otel_table \<times> httpExporter \<Rightarrow> DataGroup \<Rightarrow> otel_request list" where
  "otel_requests marshalMetrics marshalLogs order opened g =
     (case opened of (table, ex) \<Rightarrow>
       if dg_ID g = ''MemoryMetrics'' then []
       else if elems (dg_Values g) \<noteq> [] then
         (case toOTLPMetrics table g (order (groupMetricsByFQDDAndMetricId g)) of
            Ok rm \<Rightarrow> if rm_scopes rm = [] then [] else otel_body ex ''/v1/metrics'' (marshalMetrics rm)
          | _ \<Rightarrow> [])
       else if elems (dg_Events g) \<noteq> [] \<and> rl_records (toOTLPLogs g) \<noteq> None then
         otel_body ex ''/v1/logs'' (marshalLogs (toOTLPLogs g))
       else [])"

lemma doHTTP_requests:
  "doHTTP (otel_answering a) decodes ex path body h = (h', q) \<Longrightarrow> h' = h @ otel_body ex path body"
  by (cases body) (auto simp: doHTTP_def otel_body_def bindS_def liftS_def otel_answering_def
      split: outcome.splits prod.splits if_splits)

lemma otel_export_state: "otel_export m h = (h', Ok ()) \<Longrightarrow> \<exists>q. m h = (h', q)"
  by (auto simp: otel_export_def tryS_def liftS_def split: prod.splits outcome.splits)

lemma otel_group_requests:
  assumes "otel_group table (http_exporter (otel_answering a) decodes mm ml ex) order g h = (h', Ok ())"
  shows "h' = h @ otel_requests mm ml order (table, ex) g"
  using assms
  by (auto simp: otel_group_def otel_requests_def http_exporter_def Let_def bindS_Ok liftS_def
      dest!: otel_export_state dest: doHTTP_requests split: if_splits outcome.splits)

interpretation otel_out: ordered_writer
  "pp_handle (otel_program appendPEM keyPair (http_exporter (otel_answering a) decodes mm ml) order yaml h)"
  "\<lambda>x. (fst x, fst (snd x))" "\<lambda>x (t :: unit). snd (snd x)" "\<lambda>opened cg t. otel_requests mm ml order opened (snd cg)"
  for appendPEM keyPair a decodes mm ml order yaml h
  by unfold_locales (auto simp: otel_program_def dest: otel_group_requests split: prod.splits)

subsection \<open>Commands of the page\<close>

lemma answers_stomp [simp]: "answers (stomp_ops net)"
  by (auto simp: answers_def stomp_ops_def stomp_SendMessage_def split: prod.splits option.splits)

lemma set_command_step:
  assumes "answers ops" and "cs_Entries d = string_items unknown items" and "fst p \<in> fst ` set items"
  shows "\<exists>d'. config_message ops (set_command q p) d = (d', Ok ())
    \<and> cs_State d' = alist_put (fst p) (snd p) (cs_State d) \<and> cs_Entries d' = cs_Entries d"
proof -
  let ?c = "\<lparr>cmd_Command = SET, cmd_ResponseQueue = q, cmd_Property = fst p, cmd_Value = JStr (snd p)\<rparr>"
  have m: "config_message ops (set_command q p) d = config_Set ops ?c d"
    unfolding set_command_def by (rule config_message_Set) simp_all
  obtain v where v: "map_of items (fst p) = Some v"
    using assms(3) by (cases "map_of items (fst p)") (auto simp: map_of_eq_None_iff)
  let ?r = "zero_response\<lparr>rsp_Command := SET, rsp_Value := JStr (snd p)\<rparr>"
  let ?d = "d\<lparr>cs_State := alist_put (fst p) (snd p) (cs_State d)\<rparr>"
  have s: "config_Set ops ?c d = config_reply ops (enc_response ?r) ?c ?d"
    using assms(3) by (simp add: config_Set_def config_assign_def assms(2) map_of_string_items v string_setter_def)
  obtain b x where b: "send_msg ops (cs_Bus ?d) (json_print (enc_response ?r)) q = (b, x)"
    by (cases "send_msg ops (cs_Bus ?d) (json_print (enc_response ?r)) q")
  with assms(1) have "x = Ok () \<or> (\<exists>e. x = Err e)" unfolding answers_def by blast
  with b have "config_reply ops (enc_response ?r) ?c ?d = (?d\<lparr>cs_Bus := b\<rparr>, Ok ())"
    by (auto simp: config_reply_def)
  with m s show ?thesis by simp
qed

definition configured :: "pump_event list \<Rightarrow> string list" where
  "configured es = concat (map (\<lambda>e. case e of Configure m \<Rightarrow> [m] | _ \<Rightarrow> []) es)"

lemma configured_simps [simp]:
  "configured [] = []" "configured (es @ es') = configured es @ configured es'"
  "configured (Configure m # es) = m # configured es" "configured (Receive m # es) = configured es"
  "configured (Turn # es) = configured es"
  by (simp_all add: configured_def)

text \<open>A message that carries a group.\<close>

lemma group_has_message: "\<exists>m. message_groups m = [g]"
proof -
  have "raw_ok (env_payload (group_envelope g))"
    unfolding raw_ok_def group_envelope_def using json_ok_group(3) [of g] by auto
  from EncodeEnvelope_Ok [OF this] obtain m where "DecodeEnvelope m = (group_envelope g, None)" by blast
  from received_groups [of "[m]" g] this show ?thesis by (intro exI [of _ m]) (simp add: message_groups_def)
qed

subsection \<open>Properties\<close>

lemma kafka_program_sel [simp]:
  "pp_handle (kafka_program rf kp nets net) = kafkapump_group (kafka_ops net)"
  "pp_read (kafka_program rf kp nets net) = kafkapump_read"
  "pp_ready (kafka_program rf kp nets net) = kafkapump_configured"
  by (simp_all add: kafka_program_def)

lemma kafka_open_plain:
  assumes "kc_ServerCA (kp_tls k) = []" and "kp_topic k \<noteq> []"
  shows "pp_open (kafka_program rf kp nets net) n k =
    (if nets n [] (Dial (kp_topic k)) = None
     then Opened \<lparr>kb_conns = [kp_topic k \<mapsto> 0],
            kb_addr = kp_broker k ! 0 @ '':'' @ int_dec (fst (parse_int64 (kp_broker k ! 1))),
            kb_tls = None, kb_subs = [], kb_log = [(Dial (kp_topic k), None)]\<rparr>
     else Retry)"
  using assms
  by (auto simp: kafka_program_def NewKafkaMessageBus_def kafka_do_def Let_def split: option.splits)

lemma kafka_open_written:
  assumes "pp_open (kafka_program rf kp nets net) n k = Opened b"
  shows "written (kb_log b) t = []"
  using assms
  by (auto simp: kafka_program_def NewKafkaMessageBus_def kafka_do_def outcome_bind_Ok_iff Let_def
      split: option.splits outcome.splits if_splits)

text \<open>C7: the Kafka pump as a running program, whatever the order of the configuration messages, of the
  messages of the data bus and of the turns of its loops, and whatever the networks do: while it
  waits for its configuration and for the broker no group is lost; once it is connected, the
  groups it has handled are the first it received, in their order, and what is on each topic is
  what these groups add to it, each under settings of its time, and nothing else.\<close>

theorem kafka_program_publishes:
  assumes "pr_phase r = Waiting k" and "pr_groups r = []"
    and "r' = run_events ops (kafka_program readFile keyPair nets net) es r"
  shows "case pr_phase r' of
      Waiting k' \<Rightarrow> pr_groups r' = received es
    | Opening n k' \<Rightarrow> pr_groups r' = received es
    | Handling b \<Rightarrow>
        (\<exists>cgs. received es = map snd cgs @ pr_groups r'
          \<and> fst ` set cgs \<subseteq> settings_seen ops (kafka_program readFile keyPair nets net) es r
          \<and> (\<forall>t. written (kb_log b) t = concat (map (\<lambda>cg. kafka_writes cg t) cgs)))
    | Stopped q \<Rightarrow> True"
proof (cases "pr_phase r'")
  case (Handling b)
  with assms(3) have h: "pr_phase (run_events ops (kafka_program readFile keyPair nets net) es r) = Handling b" by simp
  from kafka_out.run_writes [OF kafka_program_sel(1) assms(1,2) h] obtain n k x0 cgs where
    o: "pp_open (kafka_program readFile keyPair nets net) n k = Opened x0"
    and *: "received es = map snd cgs @ pr_groups r'"
      "fst ` set cgs \<subseteq> settings_seen ops (kafka_program readFile keyPair nets net) es r"
      "\<forall>t. written (kb_log b) t = written (kb_log x0) t @ concat (map (\<lambda>cg. kafka_writes cg t) cgs)"
    unfolding assms(3) by blast
  with Handling kafka_open_written [OF o] show ?thesis by auto
qed (use run_done [OF assms(1,2), of "kafka_program readFile keyPair nets net" ops es] assms(3) in
    \<open>auto simp: pump_done_def\<close>)

definition fresh_kafkapump :: "(StompMessagebus, kafkapump_config, KafkaMessagebus) pump_run" where
  "fresh_kafkapump = \<lparr>pr_service = NewConfigService NewStompMessageBusFromConn ''/kafkapump/config'' kafkapump_items kafkapump_defaults,
     pr_groups = [], pr_phase = Waiting kafkapump_unread\<rparr>"

theorem kafka_program_publishes_witness:
  "\<exists>m k. message_groups m = [zero_group\<lparr>dg_System := ''SVCTAG1''\<rparr>]
    \<and> pr_phase (run_events (stomp_ops (\<lambda>h c. None)) (kafka_program Ok (\<lambda>c k. None) (\<lambda>n h c. None) (\<lambda>h c. None))
        [Receive m, Turn, Receive m] fresh_kafkapump) = Waiting k
    \<and> pr_groups (run_events (stomp_ops (\<lambda>h c. None)) (kafka_program Ok (\<lambda>c k. None) (\<lambda>n h c. None) (\<lambda>h c. None))
        [Receive m, Turn, Receive m] fresh_kafkapump) = [zero_group\<lparr>dg_System := ''SVCTAG1''\<rparr>, zero_group\<lparr>dg_System := ''SVCTAG1''\<rparr>]"
proof -
  let ?ops = "stomp_ops (\<lambda>h c. None)" and ?p = "kafka_program Ok (\<lambda>c k. None) (\<lambda>n h c. None) (\<lambda>h c. None)"
  obtain m where m: "message_groups m = [zero_group\<lparr>dg_System := ''SVCTAG1''\<rparr>]" using group_has_message by blast
  let ?k = "kafkapump_read kafkapump_defaults kafkapump_unread"
  have "kp_topic ?k = []" by (simp add: kafkapump_read_def setting_def kafkapump_defaults_def bus_defaults_def)
  then have "\<not> kafkapump_configured ?k" by (simp add: kafkapump_configured_def)
  then have w: "pr_phase (run_events ?ops ?p [Receive m, Turn, Receive m] fresh_kafkapump) = Waiting ?k"
    by (simp add: pump_step_def pump_turn_def Let_def fresh_kafkapump_def NewConfigService_def)
  have "pr_phase fresh_kafkapump = Waiting kafkapump_unread" "pr_groups fresh_kafkapump = []"
    by (simp_all add: fresh_kafkapump_def)
  from kafka_program_publishes [OF this refl, of ?ops Ok "\<lambda>c k. None" "\<lambda>n h c. None" "\<lambda>h c. None" "[Receive m, Turn, Receive m]"] w
  have "pr_groups (run_events ?ops ?p [Receive m, Turn, Receive m] fresh_kafkapump) = received [Receive m, Turn, Receive m]" by simp
  with m w show ?thesis by auto
qed

text \<open>C26: certificates that come too late: the page sets the broker and the topic before the
  certificates; when the loop of the Kafka pump has a turn in between, everything that follows,
  in particular the setting of the certificates, leaves the program with the configuration it
  has: it connects without certificates, or tries for ever to, until it is started anew.\<close>

theorem kafka_certificates_too_late:
  assumes "answers ops" and "pr_phase r = Waiting k" and "cs_Entries (pr_service r) = kafkapump_items"
    and "kc_ServerCA (kp_tls k) = []" and "setting (cs_State (pr_service r)) ''kafkaCACert'' = []"
    and "host \<noteq> []" and "CHR '':'' \<notin> set host" and "CHR '':'' \<notin> set port" and "topic \<noteq> []"
    and "r' = run_events ops (kafka_program readFile keyPair nets net)
      ([Configure (set_command q (''kafkaBroker'', host @ '':'' @ port)), Configure (set_command q (''kafkaTopic'', topic)), Turn]
        @ es) r"
  shows "case pr_phase r' of
      Waiting k' \<Rightarrow> False
    | Opening n k' \<Rightarrow> kp_broker k' = [host, port] \<and> kp_topic k' = topic \<and> kc_ServerCA (kp_tls k') = []
    | Handling b \<Rightarrow> kb_tls b = None
    | Stopped q \<Rightarrow> True"
proof -
  let ?p = "kafka_program readFile keyPair nets net"
  let ?b = "(''kafkaBroker'', host @ '':'' @ port)" and ?t = "(''kafkaTopic'', topic)"
  have items: "kafkapump_items = string_items ''unknown property ''
     [(''kafkaBroker'', []), (''kafkaTopic'', []), (''kafkaAlertTopic'', []), (''kafkaPartition'', ''0''),
      (''kafkaCACert'', []), (''kafkaClientCert'', []), (''kafkaClientKey'', []), (''kafkaSkipVerify'', [])]"
    by (simp add: kafkapump_items_def)
  from set_command_step [OF assms(1) assms(3) [unfolded items], of ?b q] obtain d1 where
    d1: "config_message ops (set_command q ?b) (pr_service r) = (d1, Ok ())"
      "cs_State d1 = alist_put ''kafkaBroker'' (host @ '':'' @ port) (cs_State (pr_service r))"
      "cs_Entries d1 = kafkapump_items" using assms(3) by auto
  from set_command_step [OF assms(1) d1(3) [unfolded items], of ?t q] obtain d2 where
    d2: "config_message ops (set_command q ?t) d1 = (d2, Ok ())"
      "cs_State d2 = alist_put ''kafkaTopic'' topic (cs_State d1)" by auto
  let ?k = "kafkapump_read (cs_State d2) k"
  have k: "kp_broker ?k = [host, port]" "kp_topic ?k = topic" "kc_ServerCA (kp_tls ?k) = []"
    using assms(4,5,7,8) by (simp_all add: kafkapump_read_def d1(2) d2(2) split_on_append split_on_no_sep cert_path_def)
  then have "kafkapump_configured ?k" using assms(6,9) by (simp add: kafkapump_configured_def)
  then have r': "r' = run_events ops ?p es (r\<lparr>pr_service := d2, pr_phase := Opening 0 ?k\<rparr>)"
    using assms(2,10) d1(1) d2(1) by (simp add: pump_step_def pump_turn_def Let_def)
  have "kafka_out.opened_with ?p ?k (r\<lparr>pr_service := d2, pr_phase := Opening 0 ?k\<rparr>)"
    by (simp add: kafka_out.opened_with_def)
  from kafka_out.opened_with_run [OF kafka_program_sel(1) this, of ops es]
  have "kafka_out.opened_with ?p ?k r'" using r' by simp
  moreover have "kb_tls x0 = None" if "pp_open ?p n ?k = Opened x0" for n x0
    using that k(2,3) assms(9) by (auto simp: kafka_open_plain split: if_splits)
  ultimately show ?thesis using k
    by (auto simp: kafka_out.opened_with_def split: pump_phase.splits)
qed

theorem kafka_certificates_too_late_witness:
  "\<exists>k. pr_phase (run_events (stomp_ops (\<lambda>h c. None)) (kafka_program Ok (\<lambda>c k. None) (\<lambda>n h c. Some KEof) (\<lambda>h c. None))
      [Configure (set_command ''/kconfigui'' (''kafkaBroker'', ''kafka:9093'')), Configure (set_command ''/kconfigui'' (''kafkaTopic'', ''idrac'')),
       Turn, Configure (set_command ''/kconfigui'' (''kafkaCACert'', ''kafkaCACert'')), Turn] fresh_kafkapump) = k
    \<and> (case k of Opening n k' \<Rightarrow> kp_topic k' = ''idrac'' \<and> kc_ServerCA (kp_tls k') = [] | Handling b \<Rightarrow> kb_tls b = None | Stopped q \<Rightarrow> True
        | Waiting k \<Rightarrow> False)"
proof -
  let ?ops = "stomp_ops (\<lambda>h c. None)" and ?es = "[Configure (set_command ''/kconfigui'' (''kafkaCACert'', ''kafkaCACert'')), Turn]"
  have r: "pr_phase fresh_kafkapump = Waiting kafkapump_unread" "cs_Entries (pr_service fresh_kafkapump) = kafkapump_items"
    "kc_ServerCA (kp_tls kafkapump_unread) = []" "setting (cs_State (pr_service fresh_kafkapump)) ''kafkaCACert'' = []"
    by (simp_all add: fresh_kafkapump_def NewConfigService_def kafkapump_unread_def setting_def kafkapump_defaults_def bus_defaults_def)
  have s: "''kafka'' \<noteq> ([] :: string)" "CHR '':'' \<notin> set ''kafka''" "CHR '':'' \<notin> set ''9093''" "''idrac'' \<noteq> ([] :: string)" by simp_all
  from kafka_certificates_too_late [OF answers_stomp r s refl, of "\<lambda>h c. None" Ok "\<lambda>c k. None" "\<lambda>n h c. Some KEof" "\<lambda>h c. None"
      "''/kconfigui''" ?es]
  show ?thesis by (auto split: pump_phase.splits)
qed

text \<open>The same of the other two pumps, over networks that answer all requests alike.\<close>

theorem splunk_program_posts:
  assumes "pr_phase r = Waiting k" and "pr_groups r = []"
    and "pr_phase (run_events ops (splunk_program (answering a) []) es r) = Handling h"
  shows "\<exists>cgs. received es = map snd cgs @ pr_groups (run_events ops (splunk_program (answering a) []) es r)
    \<and> fst ` set cgs \<subseteq> settings_seen ops (splunk_program (answering a) []) es r \<and> list_all2 collector_gets cgs h"
proof -
  have "pp_handle (splunk_program (answering a) []) = splunkpump_group (answering a)" by (simp add: splunk_program_def)
  from splunk_out.run_writes [OF this assms] obtain n k x0 cgs where
    o: "pp_open (splunk_program (answering a) []) n k = Opened x0" and
    c: "received es = map snd cgs @ pr_groups (run_events ops (splunk_program (answering a) []) es r)"
      "fst ` set cgs \<subseteq> settings_seen ops (splunk_program (answering a) []) es r"
    and h: "h = x0 @ concat (map (\<lambda>cg. [splunk_group_request cg]) cgs)" by blast
  have "x0 = []" using o by (simp add: splunk_program_def)
  with h have "h = map splunk_group_request cgs" by simp
  moreover have "collector_gets cg (splunk_group_request cg)" for cg
    using collector_gets_request by (cases cg) (simp add: splunk_group_request_def)
  ultimately show ?thesis using c by (intro exI [of _ cgs]) (simp add: list_all2_conv_all_nth)
qed

theorem otel_program_exports:
  fixes p :: "(otel_config, otel_table \<times> httpExporter \<times> otel_request list) pump_program"
  assumes p: "p = otel_program appendPEM keyPair (http_exporter (otel_answering a) decodes mm ml) order yaml []"
    and "pr_phase r = Waiting k" and "pr_groups r = []" and "pr_phase (run_events ops p es r) = Handling x"
  shows "\<exists>gs. received es = gs @ pr_groups (run_events ops p es r) \<and> readOtelMeta yaml [] = Ok (fst x)
    \<and> snd (snd x) = concat (map (otel_requests mm ml order (fst x, fst (snd x))) gs)"
proof -
  have h: "pp_handle p = pp_handle (otel_program appendPEM keyPair (http_exporter (otel_answering a) decodes mm ml) order yaml [])"
    by (simp add: p)
  from otel_out.run_writes [OF h assms(2-4)] obtain n k x0 and cgs :: "(settings \<times> DataGroup) list" where
    o: "pp_open p n k = Opened x0" and c: "received es = map snd cgs @ pr_groups (run_events ops p es r)"
    and b: "(fst x, fst (snd x)) = (fst x0, fst (snd x0))"
    and w: "\<forall>t :: unit. snd (snd x) = snd (snd x0) @ concat (map (\<lambda>cg. otel_requests mm ml order (fst x0, fst (snd x0)) (snd cg)) cgs)"
    by blast
  from o have "readOtelMeta yaml [] = Ok (fst x0)" "snd (snd x0) = []"
    by (auto simp: p otel_program_def otel_open_def split: outcome.splits)
  with b w have "readOtelMeta yaml [] = Ok (fst x)"
    "snd (snd x) = concat (map (otel_requests mm ml order (fst x, fst (snd x))) (map snd cgs))"
    by (simp_all add: comp_def)
  with c show ?thesis by blast
qed

subsection \<open>A Kafka pump that is given a broker and a topic\<close>

lemma kafkapump_group_stops:
  "kafkapump_group (kafka_ops net) cg b = (b', q) \<Longrightarrow> q \<noteq> Ok () \<Longrightarrow> q = Exit 1"
  using kafkapump_group_ends by (cases cg) blast

text \<open>Settings of one topic and no certificate authority, as the page gives them when only a broker and
  a topic are entered, and the states a program can be in under them.\<close>

definition plain_set :: "string \<Rightarrow> string \<times> string \<Rightarrow> bool" where
  "plain_set topic p \<longleftrightarrow> fst p \<in> fst ` set kafkapump_items \<and> fst p \<noteq> ''kafkaCACert''
     \<and> (fst p = ''kafkaTopic'' \<longrightarrow> snd p = topic) \<and> (fst p = ''kafkaAlertTopic'' \<longrightarrow> snd p = [])"

definition plain_event :: "string \<Rightarrow> pump_event \<Rightarrow> bool" where
  "plain_event topic e = (case e of Configure m \<Rightarrow> (\<exists>q p. m = set_command q p \<and> plain_set topic p) | _ \<Rightarrow> True)"

definition plain_settings :: "string \<Rightarrow> settings \<Rightarrow> bool" where
  "plain_settings topic c \<longleftrightarrow> setting c ''kafkaCACert'' = [] \<and> setting c ''kafkaAlertTopic'' = []
     \<and> setting c ''kafkaTopic'' \<in> {[], topic}"

definition plain_phase :: "string \<Rightarrow> nat \<Rightarrow> settings \<Rightarrow> (kafkapump_config, KafkaMessagebus) pump_phase \<Rightarrow> bool" where
  "plain_phase topic m c ph =
     (case ph of
        Waiting k \<Rightarrow> kc_ServerCA (kp_tls k) = []
      | Opening n k \<Rightarrow> n \<le> m \<and> kc_ServerCA (kp_tls k) = [] \<and> kp_topic k = topic \<and> setting c ''kafkaTopic'' = topic
      | Handling b \<Rightarrow> setting c ''kafkaTopic'' = topic
      | Stopped q \<Rightarrow> q = Exit 1)"

definition plain_run :: "string \<Rightarrow> nat \<Rightarrow> ('b, kafkapump_config, KafkaMessagebus) pump_run \<Rightarrow> bool" where
  "plain_run topic m r \<longleftrightarrow> cs_Entries (pr_service r) = kafkapump_items
     \<and> plain_settings topic (cs_State (pr_service r)) \<and> plain_phase topic m (cs_State (pr_service r)) (pr_phase r)"

lemma kafkapump_read_plain:
  assumes "plain_settings topic c" and "kc_ServerCA (kp_tls k) = []"
  shows "kc_ServerCA (kp_tls (kafkapump_read c k)) = []" "kp_topic (kafkapump_read c k) = setting c ''kafkaTopic''"
    "kafkapump_configured (kafkapump_read c k) \<Longrightarrow> setting c ''kafkaTopic'' = topic"
  using assms by (auto simp: kafkapump_read_def plain_settings_def cert_path_def kafkapump_configured_def)

lemma plain_turn:
  assumes "plain_run topic m r" and "topic \<noteq> []" and "nets m [] (Dial topic) = None" and "\<forall>j<m. nets j [] (Dial topic) \<noteq> None"
  shows "plain_run topic m (pump_turn (kafka_program rf kp nets net) r)"
proof (cases "pr_phase r")
  case (Waiting k)
  with assms(1) kafkapump_read_plain [of topic "cs_State (pr_service r)" k] show ?thesis
    by (auto simp: plain_run_def plain_phase_def pump_turn_def Let_def)
next
  case (Opening n k)
  with assms(1) have k: "n \<le> m" "kc_ServerCA (kp_tls k) = []" "kp_topic k = topic" by (auto simp: plain_run_def plain_phase_def)
  then show ?thesis using assms Opening kafka_open_plain [of k rf kp nets net n]
    by (cases "n = m") (auto simp: plain_run_def plain_phase_def pump_turn_def split: if_splits)
next
  case (Handling b)
  with assms(1) show ?thesis
    by (auto simp: plain_run_def plain_phase_def pump_turn_def Let_def split: list.splits prod.splits outcome.splits
        dest: kafkapump_group_stops)
qed (use assms(1) in \<open>simp add: pump_turn_def\<close>)

lemma plain_step:
  assumes "plain_run topic m r" and "topic \<noteq> []" and "nets m [] (Dial topic) = None" and "\<forall>j<m. nets j [] (Dial topic) \<noteq> None"
    and "answers ops" and "plain_event topic e"
  shows "plain_run topic m (pump_step ops (kafka_program rf kp nets net) e r)"
proof (cases e)
  case (Configure msg)
  with assms(6) obtain q p where p: "msg = set_command q p" "plain_set topic p" by (auto simp: plain_event_def)
  have entries: "cs_Entries (pr_service r) = string_items ''unknown property ''
     [(''kafkaBroker'', []), (''kafkaTopic'', []), (''kafkaAlertTopic'', []), (''kafkaPartition'', ''0''),
      (''kafkaCACert'', []), (''kafkaClientCert'', []), (''kafkaClientKey'', []), (''kafkaSkipVerify'', [])]"
    using assms(1) by (simp add: plain_run_def kafkapump_items_def)
  have "fst p \<in> fst ` set [(''kafkaBroker'', [] :: string), (''kafkaTopic'', []), (''kafkaAlertTopic'', []),
      (''kafkaPartition'', ''0''), (''kafkaCACert'', []), (''kafkaClientCert'', []), (''kafkaClientKey'', []), (''kafkaSkipVerify'', [])]"
    using p(2) unfolding plain_set_def kafkapump_items_def string_items_def by auto
  from set_command_step [OF assms(5) entries this, of q] obtain d' where
    d': "config_message ops msg (pr_service r) = (d', Ok ())"
      "cs_State d' = alist_put (fst p) (snd p) (cs_State (pr_service r))" "cs_Entries d' = cs_Entries (pr_service r)"
    unfolding p(1) by blast
  have "plain_settings topic (cs_State d')" "plain_phase topic m (cs_State d') (pr_phase r)"
    using assms(1) p(2) by (auto simp: d'(2) plain_run_def plain_settings_def plain_set_def plain_phase_def split: pump_phase.splits)
  then have "plain_run topic m (r\<lparr>pr_service := d'\<rparr>)" using assms(1) d'(3) by (simp add: plain_run_def)
  moreover have "pump_step ops (kafka_program rf kp nets net) e r = r\<lparr>pr_service := d'\<rparr>
      \<or> pump_step ops (kafka_program rf kp nets net) e r = r"
    using d'(1) Configure by (auto simp: pump_step_def split: pump_phase.split)
  ultimately show ?thesis using assms(1) by auto
next
  case (Receive msg)
  then show ?thesis using assms(1) by (auto simp: pump_step_def plain_run_def split: pump_phase.split)
qed (use plain_turn [where nets = nets and m = m, OF assms(1-4)] in simp)

lemma plain_events:
  assumes "plain_run topic m r" and "topic \<noteq> []" and "nets m [] (Dial topic) = None" and "\<forall>j<m. nets j [] (Dial topic) \<noteq> None"
    and "answers ops" and "\<forall>e\<in>set es. plain_event topic e"
  shows "plain_run topic m (run_events ops (kafka_program rf kp nets net) es r)"
  using assms(6)
proof (induction es rule: rev_induct)
  case (snoc e es)
  with plain_step [where nets = nets and m = m, OF _ assms(2-5)] show ?case by simp
qed (simp add: assms(1))

text \<open>The settings at the end are those the commands have put.\<close>

lemma run_settings:
  assumes "answers ops" and "cs_Entries (pr_service r) = kafkapump_items" and "configured es = map (set_command q) sets"
    and "fst ` set sets \<subseteq> fst ` set kafkapump_items" and "\<forall>x. pr_phase (run_events ops p es r) \<noteq> Stopped x"
  shows "cs_State (pr_service (run_events ops p es r)) = fold (\<lambda>p. alist_put (fst p) (snd p)) sets (cs_State (pr_service r))
    \<and> cs_Entries (pr_service (run_events ops p es r)) = kafkapump_items"
  using assms(3-5)
proof (induction es arbitrary: sets rule: rev_induct)
  case Nil
  then show ?case using assms(2) by simp
next
  case (snoc e es)
  let ?r = "run_events ops p es r"
  have run: "\<forall>x. pr_phase ?r \<noteq> Stopped x" using snoc.prems(3) by (auto simp: pump_step_def)
  show ?case
  proof (cases e)
    case (Configure msg)
    then obtain before s where s: "sets = before @ [s]" "configured es = map (set_command q) before" "msg = set_command q s"
      using snoc.prems(1) by (cases sets rule: rev_cases) auto
    from snoc.IH [OF s(2)] snoc.prems(2) run s(1) have ih:
      "cs_State (pr_service ?r) = fold (\<lambda>p. alist_put (fst p) (snd p)) before (cs_State (pr_service r))"
      "cs_Entries (pr_service ?r) = kafkapump_items" by auto
    have "fst s \<in> fst ` set [(''kafkaBroker'', [] :: string), (''kafkaTopic'', []), (''kafkaAlertTopic'', []),
      (''kafkaPartition'', ''0''), (''kafkaCACert'', []), (''kafkaClientCert'', []), (''kafkaClientKey'', []), (''kafkaSkipVerify'', [])]"
      using snoc.prems(2) unfolding s(1) kafkapump_items_def string_items_def by auto
    from set_command_step [OF assms(1) ih(2) [unfolded kafkapump_items_def] this, of q] obtain d' where
      "config_message ops msg (pr_service ?r) = (d', Ok ())"
      "cs_State d' = alist_put (fst s) (snd s) (cs_State (pr_service ?r))" "cs_Entries d' = kafkapump_items"
      using ih(2) unfolding s(3) by auto
    then show ?thesis using run Configure ih(1) s(1) by (auto simp: pump_step_def split: pump_phase.split)
  next
    case (Receive msg)
    then show ?thesis using snoc run by (auto simp: pump_step_def split: pump_phase.split)
  next
    case Turn
    then show ?thesis using snoc run by simp
  qed
qed

lemma turns_split: "run_events ops p (replicate (i + j) Turn) r = run_events ops p (replicate j Turn) (run_events ops p (replicate i Turn) r)"
  by (simp add: replicate_add)

text \<open>Enough turns after any beginning, when the settings name a broker and a topic.\<close>

lemma kafka_gets_through:
  assumes "answers ops" and "plain_run topic m r" and "topic \<noteq> []"
    and "nets m [] (Dial topic) = None" and "\<forall>j<m. nets j [] (Dial topic) \<noteq> None"
    and "setting (cs_State (pr_service r)) ''kafkaBroker'' = host @ '':'' @ port" and "host \<noteq> []"
    and "CHR '':'' \<notin> set host" and "CHR '':'' \<notin> set port" and "setting (cs_State (pr_service r)) ''kafkaTopic'' = topic"
    and "m + 2 + length (pr_groups r) \<le> n"
  shows "pr_phase (run_events ops (kafka_program rf kp nets net) (replicate n Turn) r) = Stopped (Exit 1)
    \<or> (\<exists>b. pr_phase (run_events ops (kafka_program rf kp nets net) (replicate n Turn) r) = Handling b)
      \<and> pr_groups (run_events ops (kafka_program rf kp nets net) (replicate n Turn) r) = []"
proof -
  let ?p = "kafka_program rf kp nets net"
  have out: ?thesis if "turned_out ?p (run_events ops ?p (replicate n Turn) r)"
    using that kafkapump_group_stops by (auto simp: turned_out_def)
  have drained: "turned_out ?p (run_events ops ?p (replicate (i + j) Turn) r)"
    if "run_events ops ?p (replicate i Turn) r = r\<lparr>pr_phase := Handling b\<rparr>" "length (pr_groups r) \<le> j" for i j b
    unfolding turns_split that(1) by (rule turns_drain) (use that(2) in simp_all)
  have begun: "turned_out ?p (run_events ops ?p (replicate (i + j) Turn) r)"
    if "run_events ops ?p (replicate i Turn) r = r\<lparr>pr_phase := Opening l k\<rparr>" "l \<le> m" "kc_ServerCA (kp_tls k) = []"
      "kp_topic k = topic" "Suc (m - l) + length (pr_groups r) \<le> j" for i j l k
  proof -
    note h = that
    obtain b where b: "pp_open ?p m k = Opened b" using kafka_open_plain [OF h(3)] h(4) assms(3,4) by auto
    have "\<forall>j<m. pp_open ?p j k = Retry" using kafka_open_plain [OF h(3)] h(4) assms(3,5) by auto
    from turns_open [OF _ h(2) b this, of "r\<lparr>pr_phase := Opening l k\<rparr>" ops]
    have "run_events ops ?p (replicate (Suc (m - l)) Turn) (run_events ops ?p (replicate i Turn) r) = r\<lparr>pr_phase := Handling b\<rparr>"
      by (simp add: h(1) del: replicate_Suc)
    then have "run_events ops ?p (replicate (i + Suc (m - l)) Turn) r = r\<lparr>pr_phase := Handling b\<rparr>"
      unfolding turns_split .
    from drained [OF this, of "j - Suc (m - l)"] h(5) show ?thesis by (simp add: algebra_simps)
  qed
  show ?thesis
  proof (cases "pr_phase r")
    case (Waiting k)
    let ?k = "kafkapump_read (cs_State (pr_service r)) k"
    have ca: "kc_ServerCA (kp_tls k) = []" and ps: "plain_settings topic (cs_State (pr_service r))"
      using assms(2) Waiting by (auto simp: plain_run_def plain_phase_def)
    have "kafkapump_configured ?k"
      using assms(3,6-10) by (simp add: kafkapump_configured_def kafkapump_read_def split_on_append split_on_no_sep)
    then have "run_events ops ?p (replicate 1 Turn) r = r\<lparr>pr_phase := Opening 0 ?k\<rparr>"
      using Waiting by (simp add: pump_turn_def Let_def)
    from begun [OF this, of "n - 1"] kafkapump_read_plain(1,2) [OF ps ca] assms(10,11) out show ?thesis by simp
  next
    case (Opening l k)
    then have "run_events ops ?p (replicate 0 Turn) r = r\<lparr>pr_phase := Opening l k\<rparr>" by simp
    from begun [OF this, of n] assms(2,11) Opening out show ?thesis by (auto simp: plain_run_def plain_phase_def)
  next
    case (Handling b)
    then have "run_events ops ?p (replicate 0 Turn) r = r\<lparr>pr_phase := Handling b\<rparr>" by simp
    from drained [OF this, of n] assms(11) out show ?thesis by simp
  next
    case (Stopped q)
    with assms(2) show ?thesis by (simp add: plain_run_def plain_phase_def)
  qed
qed

text \<open>What a consumer of one topic reads of a group whose values are finite numbers: the events of the
  values it can date, then those of the alerts.\<close>

definition kafka_carries :: "DataGroup \<Rightarrow> string \<Rightarrow> bool" where
  "kafka_carries g msg \<longleftrightarrow> (values_finite g \<longrightarrow>
     list_all2 metric_carries (readable_values g) (take (length (readable_values g)) (kafka_json msg))
     \<and> list_all2 (alert_carries (dg_System g)) (readable_events g) (drop (length (readable_values g)) (kafka_json msg)))"

lemma kafka_carries_text: "kafka_carries g (kafka_events_text (kafka_metrics g @ kafka_alerts g))"
  unfolding kafka_carries_def
proof
  assume fin: "values_finite g"
  let ?f = "\<lambda>e. is_finite (kf_Value (ke_Fields e))"
  have m: "\<forall>e\<in>set (kafka_metrics g). ?f e"
    using fin by (auto simp: kafka_metrics_map values_finite_def list_all_iff kafka_metric_event_def readable_values_def
        zero_kafka_fields_def)
  have a: "\<forall>e\<in>set (kafka_alerts g). ?f e"
    by (auto simp: kafka_alerts_map kafka_alert_event_def readable_events_def zero_kafka_fields_def is_finite_def float_zero_def)
  from m a have j: "kafka_json (kafka_events_text (kafka_metrics g @ kafka_alerts g))
      = kafka_json (kafka_events_text (kafka_metrics g)) @ kafka_json (kafka_events_text (kafka_alerts g))"
    by (subst (1 2 3) kafka_json_text) auto
  have "length (kafka_json (kafka_events_text (kafka_metrics g))) = length (readable_values g)"
    using list_all2_lengthD [OF metric_events_carried [OF fin]] by simp
  with j metric_events_carried [OF fin] alert_events_carried [of g]
  show "list_all2 metric_carries (readable_values g)
        (take (length (readable_values g)) (kafka_json (kafka_events_text (kafka_metrics g @ kafka_alerts g))))
      \<and> list_all2 (alert_carries (dg_System g)) (readable_events g)
        (drop (length (readable_values g)) (kafka_json (kafka_events_text (kafka_metrics g @ kafka_alerts g))))" by simp
qed

text \<open>With one topic and none for alerts, the messages of the groups.\<close>

lemma kafka_writes_one_topic:
  assumes "\<forall>c\<in>fst ` set cgs. setting c ''kafkaTopic'' = topic \<and> setting c ''kafkaAlertTopic'' = []"
  shows "concat (map (\<lambda>cg. kafka_writes cg (kafka_topic topic)) cgs)
    = map (\<lambda>g. kafka_events_text (kafka_metrics g @ kafka_alerts g)) (map snd cgs)"
  using assms by (induction cgs) (auto simp: kafka_writes_def Let_def split: prod.splits)

text \<open>How \<open>main\<close> begins when the bus takes its subscriptions.\<close>

lemma pump_main_begins:
  assumes "\<forall>h q. snet h (StompSubscribe q) = None"
  obtains r where "pr_phase r = Waiting k" and "pr_groups r = []"
    and "cs_State (pr_service r) = cs_State (snd started)" and "cs_Entries (pr_service r) = cs_Entries (snd started)"
    and "\<And>es. pump_main (stomp_ops snet) p queue ch1 ch2 started k es = run_events (stomp_ops snet) p es r"
proof -
  have all: "arriving True es = es" for es
    by (induction es rule: arriving.induct [where P = "\<lambda>l es. l \<longrightarrow> arriving l es = es", rule_format]) auto
  obtain bc d where s: "started = (bc, d)" by (cases started)
  have "recv_msg (stomp_ops snet) b c q = (b', x) \<Longrightarrow> x = Ok ()" for b c q b' x
    using assms by (auto simp: stomp_ops_def stomp_ReceiveMessage_def stomp_do_def Let_def)
  then show ?thesis
    using that [of "fst (pump_begin (stomp_ops snet) queue ch1 ch2 started k)"]
    by (simp add: s pump_main_def pump_begin_def config_Run_def all split: prod.splits)
qed

text \<open>The settings a Kafka pump has while it handles groups.\<close>

lemma plain_settings_seen:
  assumes "plain_run topic m r" and "topic \<noteq> []" and "nets m [] (Dial topic) = None" and "\<forall>j<m. nets j [] (Dial topic) \<noteq> None"
    and "answers ops" and "\<forall>e\<in>set es. plain_event topic e" and "c \<in> settings_seen ops (kafka_program rf kp nets net) es r"
  shows "setting c ''kafkaTopic'' = topic \<and> setting c ''kafkaAlertTopic'' = []"
proof -
  from assms(7) obtain es1 es2 x where pre: "es = es1 @ es2" "pr_phase (run_events ops (kafka_program rf kp nets net) es1 r) = Handling x"
    "c = cs_State (pr_service (run_events ops (kafka_program rf kp nets net) es1 r))" by (auto simp: settings_seen_def)
  with assms(6) have "\<forall>e\<in>set es1. plain_event topic e" by simp
  have "plain_run topic m (run_events ops (kafka_program rf kp nets net) es1 r)"
    by (rule plain_events [where nets = nets and m = m, OF assms(1-5)]) fact
  with pre(2,3) show ?thesis by (auto simp: plain_run_def plain_phase_def plain_settings_def)
qed

text \<open>A run under such settings that has handled all its groups has a message of each on the topic.\<close>

lemma plain_published:
  assumes "plain_run topic m r" and "topic \<noteq> []" and "nets m [] (Dial topic) = None" and "\<forall>j<m. nets j [] (Dial topic) \<noteq> None"
    and "answers ops" and "\<forall>e\<in>set es. plain_event topic e" and "pr_phase r = Waiting k0" and "pr_groups r = []"
    and "pr_phase (run_events ops (kafka_program rf kp nets net) es r) = Handling b"
    and "pr_groups (run_events ops (kafka_program rf kp nets net) es r) = []"
  shows "list_all2 kafka_carries (received es) (written (kb_log b) (kafka_topic topic))"
proof -
  let ?p = "kafka_program rf kp nets net"
  from kafka_out.run_writes [OF kafka_program_sel(1) assms(7-9)] obtain l k x0 cgs where
    o: "pp_open ?p l k = Opened x0" and w: "received es = map snd cgs @ pr_groups (run_events ops ?p es r)"
      "fst ` set cgs \<subseteq> settings_seen ops ?p es r"
      "\<forall>t. written (kb_log b) t = written (kb_log x0) t @ concat (map (\<lambda>cg. kafka_writes cg t) cgs)" by blast
  have "\<forall>c\<in>fst ` set cgs. setting c ''kafkaTopic'' = topic \<and> setting c ''kafkaAlertTopic'' = []"
    using w(2) plain_settings_seen [where nets = nets and m = m, OF assms(1-6)] by blast
  from kafka_writes_one_topic [OF this] w(1,3) kafka_open_written [OF o] assms(10)
  have "written (kb_log b) (kafka_topic topic) = map (\<lambda>g. kafka_events_text (kafka_metrics g @ kafka_alerts g)) (received es)" by simp
  then show ?thesis using kafka_carries_text by (simp add: list_all2_conv_all_nth)
qed

lemma received_turns [simp]: "received (replicate j Turn) = []"
  by (induction j) simp_all

lemma plain_commands:
  assumes "configured es = map (set_command q) sets" and "\<forall>x\<in>set sets. plain_set topic x"
  shows "\<forall>e\<in>set es. plain_event topic e"
proof
  fix e
  assume e: "e \<in> set es"
  show "plain_event topic e"
  proof (cases e)
    case (Configure x)
    with e have "x \<in> set (configured es)" by (auto simp: configured_def)
    with assms Configure show ?thesis by (auto simp: plain_event_def)
  qed (simp_all add: plain_event_def)
qed

lemma plain_run_ends:
  assumes "plain_run topic m r" and "topic \<noteq> []" and "nets m [] (Dial topic) = None" and "\<forall>j<m. nets j [] (Dial topic) \<noteq> None"
    and "answers ops" and "pr_phase r = Waiting k0" and "pr_groups r = []"
    and "configured es = map (set_command q) sets" and "\<forall>x\<in>set sets. plain_set topic x"
    and "map_of (rev sets) ''kafkaBroker'' = Some (host @ '':'' @ port)" and "map_of (rev sets) ''kafkaTopic'' = Some topic"
    and "host \<noteq> []" and "CHR '':'' \<notin> set host" and "CHR '':'' \<notin> set port" and "m + 2 + length (received es) \<le> n"
    and "r' = run_events ops (kafka_program rf kp nets net) (es @ replicate n Turn) r"
  shows "pr_phase r' = Stopped (Exit 1)
    \<or> (\<exists>b. pr_phase r' = Handling b \<and> list_all2 kafka_carries (received es) (written (kb_log b) (kafka_topic topic)))"
proof -
  let ?p = "kafka_program rf kp nets net"
  let ?r1 = "run_events ops ?p es r"
  have r': "r' = run_events ops ?p (replicate n Turn) ?r1" unfolding assms(16) by (rule run_events_simps(2))
  note plain_es = plain_commands [OF assms(8,9)]
  note p1 = plain_events [where nets = nets and m = m, OF assms(1-5) plain_es]
  have names: "fst ` set sets \<subseteq> fst ` set kafkapump_items" using assms(9) by (auto simp: plain_set_def)
  have "pr_phase r' = Stopped (Exit 1) \<or> (\<exists>b. pr_phase r' = Handling b) \<and> pr_groups r' = []"
  proof (cases "\<exists>q. pr_phase ?r1 = Stopped q")
    case True
    then obtain q where q: "pr_phase ?r1 = Stopped q" by blast
    have "q = Exit 1" using p1 [of rf kp net] q by (simp add: plain_run_def plain_phase_def)
    with q show ?thesis unfolding r' turns_stopped [OF q] by simp
  next
    case False
    have entries: "cs_Entries (pr_service r) = kafkapump_items" using assms(1) by (simp add: plain_run_def)
    from False have s1: "cs_State (pr_service ?r1) = fold (\<lambda>p. alist_put (fst p) (snd p)) sets (cs_State (pr_service r))"
      using run_settings [OF assms(5) entries assms(8) names, of ?p] by blast
    have set1: "setting (cs_State (pr_service ?r1)) ''kafkaBroker'' = host @ '':'' @ port"
      "setting (cs_State (pr_service ?r1)) ''kafkaTopic'' = topic"
      by (simp_all add: s1 setting_fold_put assms(10,11))
    have "length (pr_groups ?r1) \<le> length (received es)"
      using run_done [OF assms(6,7), of ?p ops es] False by (auto simp: pump_done_def split: pump_phase.splits)
    with assms(15) have "m + 2 + length (pr_groups ?r1) \<le> n" by simp
    from kafka_gets_through [where nets = nets and m = m, OF assms(5) p1 assms(2-4) set1(1) assms(12-14) set1(2) this]
    show ?thesis unfolding r' .
  qed
  moreover have "list_all2 kafka_carries (received es) (written (kb_log b) (kafka_topic topic))"
    if "pr_phase r' = Handling b" "pr_groups r' = []" for b
  proof -
    have "\<forall>e\<in>set (es @ replicate n Turn). plain_event topic e" using plain_es by (auto simp: plain_event_def)
    from plain_published [where nets = nets and m = m, OF assms(1-5) this assms(6,7)] that show ?thesis
      unfolding assms(16) by fastforce
  qed
  ultimately show ?thesis by blast
qed

lemma kafkapump_main_publishes:
  assumes "dial i (bus_address (kafkapump_settings env)) = None" and "\<forall>h q. snet h (StompSubscribe q) = None"
    and "nets m [] (Dial topic) = None" and "topic \<noteq> []"
    and "env ''KAFKA_TOPIC'' = []" and "env ''KAFKA_ALERT_TOPIC'' = []" and "env ''KAFKA_CACERT'' = []"
    and "\<forall>x\<in>set sets. plain_set topic x"
    and "map_of (rev sets) ''kafkaBroker'' = Some (host @ '':'' @ port)" and "map_of (rev sets) ''kafkaTopic'' = Some topic"
    and "host \<noteq> []" and "CHR '':'' \<notin> set host" and "CHR '':'' \<notin> set port" and "configured es = map (set_command q) sets"
  shows "\<exists>r. kafkapump_main (stomp_ops snet) readFile keyPair nets net dial env ch1 ch2
        (es @ replicate (m + 2 + length (received es)) Turn) = Some r
      \<and> (pr_phase r = Stopped (Exit 1) \<or> (\<exists>b. pr_phase r = Handling b
          \<and> list_all2 kafka_carries (received es) (written (kb_log b) (kafka_topic topic))))"
proof -
  let ?c = "kafkapump_settings env" and ?ops = "stomp_ops snet" and ?p = "kafka_program readFile keyPair nets net"
  let ?n = "m + 2 + length (received es)"
  define M where "M = (LEAST j. nets j [] (Dial topic) = None)"
  have M: "nets M [] (Dial topic) = None" "\<forall>j<M. nets j [] (Dial topic) \<noteq> None" "M \<le> m"
    using LeastI [of "\<lambda>j. nets j [] (Dial topic) = None", OF assms(3)] Least_le [of "\<lambda>j. nets j [] (Dial topic) = None", OF assms(3)]
      not_less_Least [of _ "\<lambda>j. nets j [] (Dial topic) = None"] unfolding M_def by blast+
  obtain mb where mb: "connect_bus dial ?c 0 = Some mb"
    using connect_bus_some [where dial = dial and n = 0 and k = i and c = ?c] assms(1) by simp
  let ?started = "kafkapump_start ?ops mb ?c"
  obtain r where r: "pr_phase r = Waiting kafkapump_unread" "pr_groups r = []" "cs_State (pr_service r) = ?c"
      "cs_Entries (pr_service r) = kafkapump_items"
    and main: "\<And>es. pump_main ?ops ?p ''/kafka'' ch1 ch2 ?started kafkapump_unread es = run_events ?ops ?p es r"
    using pump_main_begins [OF assms(2), of kafkapump_unread ?started ?p "''/kafka''" ch1 ch2]
    by (auto simp: kafkapump_start_def NewConfigService_def Let_def)
  have defaults: "setting kafkapump_defaults ''kafkaTopic'' = []" "setting kafkapump_defaults ''kafkaAlertTopic'' = []"
    "setting kafkapump_defaults ''kafkaCACert'' = []"
    by (simp_all add: setting_def kafkapump_defaults_def bus_defaults_def)
  have "setting ?c ''kafkaTopic'' = []" "setting ?c ''kafkaAlertTopic'' = []" "setting ?c ''kafkaCACert'' = []"
    using assms(5-7) defaults by (simp_all add: kafkapump_settings_def setting_env_override bus_vars_def)
  then have plain: "plain_run topic M r"
    using r by (simp add: plain_run_def plain_settings_def plain_phase_def kafkapump_unread_def)
  have "kafkapump_main ?ops readFile keyPair nets net dial env ch1 ch2 (es @ replicate ?n Turn)
      = Some (run_events ?ops ?p (es @ replicate ?n Turn) r)"
    by (simp only: kafkapump_main_def Let_def mb option.map main)
  with plain_run_ends [where nets = nets and m = M, OF plain assms(4) M(1,2) answers_stomp r(1,2) assms(14,8,9,10,11-13) _ refl,
      where n = ?n] M(3)
  show ?thesis by auto
qed

end
