(* ===== verification/DbAuth.thy ===== *)
theory DbAuth
  imports Pumps "HOL-Library.Multiset"
begin

text \<open>
  \<^verbatim>\<open>cmd/dbdiscauth/dbdiscauth.go\<close>: the services and collectors of the pipeline in a MySQL
  database, and the loop that takes the commands of the authorization clients.

  The database is a parameter: a record of the statements the program runs. Broadcasts that
  the code starts as goroutines are pending until they are run, in any order.
\<close>

subsection \<open>The database\<close>

text \<open>A row of \<open>services\<close> is \<open>(serviceType, ip, authType, auth)\<close>, one of
  \<open>HttpEventCollector\<close> is \<open>(url, key, index)\<close>. An error of preparing a statement and one of
  running it are not told apart.\<close>

type_synonym service_row = "int \<times> string \<times> int \<times> string"
type_synonym hec_row = "string \<times> string \<times> string"

record 'd auth_db =
  sql_select_services :: "('d, service_row list) go"
  sql_select_hec :: "('d, hec_row list) go"
  sql_delete_service :: "string \<Rightarrow> ('d, unit) go"
  sql_insert_service :: "service_row \<Rightarrow> ('d, unit) go"
  sql_insert_hec :: "hec_row \<Rightarrow> ('d, unit) go"

record ('d, 'b) dbauth =
  da_db :: 'd
  da_bus :: 'b
  da_pending :: "AuthService list"

definition on_db :: "('d, 'a) go \<Rightarrow> (('d, 'b) dbauth, 'a) go" where
  "on_db m s = (case m (da_db s) of (d, r) \<Rightarrow> (s\<lparr>da_db := d\<rparr>, r))"

definition on_bus :: "('b \<Rightarrow> 'b \<times> 'a outcome) \<Rightarrow> (('d, 'b) dbauth, 'a) go" where
  "on_bus m s = (case m (da_bus s) of (b, r) \<Rightarrow> (s\<lparr>da_bus := b\<rparr>, r))"

text \<open>\<open>Scan\<close> is given four destinations for three columns, which is an error at the first row.\<close>

definition scan_hec :: "hec_row list \<Rightarrow> SplunkConfig list outcome" where
  "scan_hec rows =
     (if rows = [] then Ok [] else Err ''sql: expected 3 destination arguments in Scan, not 4'')"

definition getHECInstancesFromDB :: "'d auth_db \<Rightarrow> (('d, 'b) dbauth, SplunkConfig list) go" where
  "getHECInstancesFromDB db = bindS (on_db (sql_select_hec db)) (\<lambda>rows. liftS (scan_hec rows))"

fun scan_services :: "service_row list \<Rightarrow> AuthService list outcome" where
  "scan_services [] = Ok []"
| "scan_services ((stype, ip, atype, tmp) # rows) =
     (case unmarshal dec_strmap tmp None of
        (auth, Some e) \<Rightarrow> Err e
      | (auth, None) \<Rightarrow>
          outcome_bind (scan_services rows) (\<lambda>ret.
            Ok (\<lparr>svc_ServiceType = stype, svc_Ip = ip, svc_AuthType = atype, svc_Auth = auth, svc_State = []\<rparr> # ret)))"

definition getInstancesFromDB :: "'d auth_db \<Rightarrow> (('d, 'b) dbauth, AuthService list) go" where
  "getInstancesFromDB db = bindS (on_db (sql_select_services db)) (\<lambda>rows. liftS (scan_services rows))"

definition deleteServiceFromDB :: "'d auth_db \<Rightarrow> AuthService \<Rightarrow> (('d, 'b) dbauth, unit) go" where
  "deleteServiceFromDB db svc = on_db (sql_delete_service db (svc_Ip svc))"

definition service_row_of :: "AuthService \<Rightarrow> service_row" where
  "service_row_of svc = (svc_ServiceType svc, svc_Ip svc, svc_AuthType svc, json_print (enc_strmap (svc_Auth svc)))"

definition addServiceToDB :: "'d auth_db \<Rightarrow> 'b bus_ops \<Rightarrow> AuthService \<Rightarrow> (('d, 'b) dbauth, unit) go" where
  "addServiceToDB db ops svc =
     bindS (on_db (sql_insert_service db (service_row_of svc))) (\<lambda>u.
       tryS (on_bus (\<lambda>b. BroadcastService ops b svc)) (\<lambda>u. liftS (Ok ())) (\<lambda>e. liftS (Ok ())))"

definition splunkAddHECToDB :: "'d auth_db \<Rightarrow> 'b bus_ops \<Rightarrow> SplunkConfig \<Rightarrow> (('d, 'b) dbauth, unit) go" where
  "splunkAddHECToDB db ops c =
     bindS (on_db (sql_insert_hec db (sc_Url c, sc_Key c, sc_Index c))) (\<lambda>u.
       on_bus (\<lambda>b. send_new ops b auth_EventQueue (NewEnvelope ''splunkconfig'' (PVal (enc_splunk c)))))"

subsection \<open>Commands\<close>

definition logged :: "('s, 'a) go \<Rightarrow> ('s, unit) go" where
  "logged m = tryS m (\<lambda>x. liftS (Ok ())) (\<lambda>e. liftS (Ok ()))"

definition start_broadcasts :: "AuthService list \<Rightarrow> (('d, 'b) dbauth, unit) go" where
  "start_broadcasts svcs s = (s\<lparr>da_pending := da_pending s @ svcs\<rparr>, Ok ())"

definition dbauth_resend :: "'d auth_db \<Rightarrow> (('d, 'b) dbauth, unit) go" where
  "dbauth_resend db = tryS (getInstancesFromDB db) start_broadcasts (\<lambda>e. liftS (Ok ()))"

text \<open>A payload that does not decode is logged and the command skipped.\<close>

definition with_payload :: "'p dec \<Rightarrow> 'p \<Rightarrow> Envelope \<Rightarrow> ('p \<Rightarrow> ('s, unit) go) \<Rightarrow> ('s, unit) go" where
  "with_payload d z env f =
     (case DecodePayload (env_payload env) (Some d) z of
        (p, None) \<Rightarrow> f p
      | (p, Some e) \<Rightarrow> liftS (Ok ()))"

definition dbauth_command :: "'d auth_db \<Rightarrow> 'b bus_ops \<Rightarrow> Envelope \<Rightarrow> (('d, 'b) dbauth, unit) go" where
  "dbauth_command db ops env =
     (if env_type env = RESEND then dbauth_resend db
      else if env_type env = ADDSERVICE then
        with_payload dec_service zero_service env (\<lambda>svc. logged (addServiceToDB db ops svc))
      else if env_type env = DELETESERVICE then
        with_payload dec_service zero_service env (\<lambda>svc. logged (deleteServiceFromDB db svc))
      else if env_type env = SPLUNKADDHEC then
        with_payload dec_splunk zero_splunk env (\<lambda>c. logged (splunkAddHECToDB db ops c))
      else if env_type env = GETHECCONFIG then logged (getHECInstancesFromDB db)
      else if env_type env = TERMINATE then liftS (Exit 0)
      else liftS (Ok ()))"

text \<open>A message on the command queue.\<close>

definition dbauth_message :: "'d auth_db \<Rightarrow> 'b bus_ops \<Rightarrow> string \<Rightarrow> (('d, 'b) dbauth, unit) go" where
  "dbauth_message db ops message =
     each_group (dbauth_command db ops) (snd (ListenToQueue None [message] ()))"

text \<open>A goroutine runs; its error is not looked at.\<close>

definition run_broadcast :: "'b bus_ops \<Rightarrow> AuthService \<Rightarrow> (('d, 'b) dbauth, unit) go" where
  "run_broadcast ops svc =
     tryS (\<lambda>s. on_bus (\<lambda>b. BroadcastService ops b svc) (s\<lparr>da_pending := remove1 svc (da_pending s)\<rparr>))
       (\<lambda>u. liftS (Ok ())) (\<lambda>e. liftS (Ok ()))"

text \<open>The start of the program, once connected: it broadcasts what the database holds.\<close>

definition dbauth_start :: "'d auth_db \<Rightarrow> 'd \<Rightarrow> 'b \<Rightarrow> ('d, 'b) dbauth \<times> unit outcome" where
  "dbauth_start db d bus =
     dbauth_resend db \<lparr>da_db = d, da_bus = bs_Bus (NewAuthorizationService bus), da_pending = []\<rparr>"

inductive dbauth_step :: "'d auth_db \<Rightarrow> 'b bus_ops \<Rightarrow> ('d, 'b) dbauth \<Rightarrow> ('d, 'b) dbauth \<Rightarrow> bool"
  for db :: "'d auth_db" and ops :: "'b bus_ops" where
  step_message: "dbauth_message db ops message s = (s', Ok ()) \<Longrightarrow> dbauth_step db ops s s'"
| step_broadcast: "svc \<in> set (da_pending s) \<Longrightarrow> run_broadcast ops svc s = (s', Ok ()) \<Longrightarrow> dbauth_step db ops s s'"

subsection \<open>Settings\<close>

definition dbauth_defaults :: settings where
  "dbauth_defaults = bus_defaults @ [(''mysqluser'', []), (''mysqlpwd'', []), (''mysqlHost'', ''localhost''),
     (''mysqlHostPort'', ''3306''), (''mysqlDBName'', ''telemetrysource_services_db'')]"

text \<open>The port of the database is overridden whenever its host is, also by an empty one.\<close>

definition dbauth_settings :: "(string \<Rightarrow> string) \<Rightarrow> settings" where
  "dbauth_settings env =
     (let c1 = env_override env
            (bus_vars @ [(''MYSQL_USER'', ''mysqluser''), (''MYSQL_PASSWORD'', ''mysqlpwd''), (''MYSQL_HOST'', ''mysqlHost'')])
            dbauth_defaults;
          c2 = (if env ''MYSQL_HOST'' \<noteq> [] then alist_put ''mysqlHostPort'' (env ''MYSQL_HOST_PORT'') c1 else c1) in
      set_nonempty ''mysqlDBName'' (env ''MYSQL_DATABASE'') c2)"

definition mysql_address :: "settings \<Rightarrow> string" where
  "mysql_address c =
     setting c ''mysqluser'' @ '':'' @ setting c ''mysqlpwd'' @ ''@tcp('' @ setting c ''mysqlHost'' @ '':''
     @ setting c ''mysqlHostPort'' @ '')/'' @ setting c ''mysqlDBName''"

text \<open>Opening the database and creating each of its tables are tried until they succeed, given the
  results of the attempts; \<open>None\<close> while it is still trying.\<close>

definition first_ok :: "'a option list \<Rightarrow> 'a option" where
  "first_ok rs = (case dropWhile (\<lambda>r. r = None) rs of [] \<Rightarrow> None | r # _ \<Rightarrow> r)"

definition initMySQLDatabase ::
  "(string \<Rightarrow> 'd option) list \<Rightarrow> ('d \<Rightarrow> 'd option) list \<Rightarrow> ('d \<Rightarrow> 'd option) list \<Rightarrow> settings \<Rightarrow> 'd option" where
  "initMySQLDatabase opens create_services create_hec c =
     Option.bind (first_ok (map (\<lambda>f. f (mysql_address c)) opens)) (\<lambda>d.
     Option.bind (first_ok (map (\<lambda>f. f d) create_services)) (\<lambda>d1.
     first_ok (map (\<lambda>f. f d1) create_hec)))"

subsection \<open>What the program relies on of the database\<close>

text \<open>\<open>rows d\<close> is the table of services of the database \<open>d\<close>. A statement that fails leaves it alone.\<close>

definition table_laws :: "'d auth_db \<Rightarrow> ('d \<Rightarrow> service_row multiset) \<Rightarrow> bool" where
  "table_laws db rows \<longleftrightarrow>
     (\<forall>d d' rs. sql_select_services db d = (d', Ok rs) \<longrightarrow> mset rs = rows d)
     \<and> (\<forall>d. rows (fst (sql_select_services db d)) = rows d \<and> rows (fst (sql_select_hec db d)) = rows d)
     \<and> (\<forall>d h. rows (fst (sql_insert_hec db h d)) = rows d)
     \<and> (\<forall>d d' r x. sql_insert_service db r d = (d', x) \<longrightarrow>
           rows d' = (if x = Ok () then add_mset r (rows d) else rows d))
     \<and> (\<forall>d d' ip x. sql_delete_service db ip d = (d', x) \<longrightarrow>
           rows d' = (if x = Ok () then filter_mset (\<lambda>(t, i, a, j). i \<noteq> ip) (rows d) else rows d))"

lemma table_selectD: "table_laws db rows \<Longrightarrow> sql_select_services db d = (d', Ok rs) \<Longrightarrow> mset rs = rows d"
  unfolding table_laws_def by blast

lemma table_readD:
  "table_laws db rows \<Longrightarrow> rows (fst (sql_select_services db d)) = rows d"
  "table_laws db rows \<Longrightarrow> rows (fst (sql_select_hec db d)) = rows d"
  "table_laws db rows \<Longrightarrow> rows (fst (sql_insert_hec db h d)) = rows d"
  unfolding table_laws_def by blast+

lemma table_insertD:
  "table_laws db rows \<Longrightarrow> sql_insert_service db r d = (d', x) \<Longrightarrow>
     rows d' = (if x = Ok () then add_mset r (rows d) else rows d)"
  unfolding table_laws_def by blast

lemma table_deleteD:
  "table_laws db rows \<Longrightarrow> sql_delete_service db ip d = (d', x) \<Longrightarrow>
     rows d' = (if x = Ok () then filter_mset (\<lambda>(t, i, a, j). i \<noteq> ip) (rows d) else rows d)"
  unfolding table_laws_def by blast

text \<open>A table as a list with the address as its primary key; it fulfils the laws.\<close>

definition list_db :: "(service_row list \<times> hec_row list) auth_db" where
  "list_db = \<lparr>
     sql_select_services = (\<lambda>d. (d, Ok (fst d))),
     sql_select_hec = (\<lambda>d. (d, Ok (snd d))),
     sql_delete_service = (\<lambda>ip d. ((filter (\<lambda>(t, i, a, j). i \<noteq> ip) (fst d), snd d), Ok ())),
     sql_insert_service = (\<lambda>r d. if fst (snd r) \<in> (\<lambda>(t, i, a, j). i) ` set (fst d)
        then (d, Err ''Duplicate entry'') else ((fst d @ [r], snd d), Ok ())),
     sql_insert_hec = (\<lambda>h d. ((fst d, snd d @ [h]), Ok ()))\<rparr>"

lemma list_db_laws: "table_laws list_db (\<lambda>d. mset (fst d))"
  unfolding table_laws_def by (auto simp: list_db_def split: if_splits)

subsection \<open>Lemmas\<close>

lemma dec_auth_text:
  assumes "case svc_Auth svc of None \<Rightarrow> True | Some m \<Rightarrow> kv_sorted m"
  shows "unmarshal dec_strmap (json_print (enc_strmap (svc_Auth svc))) None = (svc_Auth svc, None)"
proof -
  have "dec_strmap (enc_strmap (svc_Auth svc)) None = (svc_Auth svc, True)"
    using assms by (intro dec_strmap_enc) simp
  then show ?thesis by (intro unmarshal_print json_ok_enc_strmap)
qed

text \<open>The service a row stands for; a row that cannot be read fails the whole query.\<close>

definition row_service :: "service_row \<Rightarrow> AuthService option" where
  "row_service r =
     (case r of (stype, ip, atype, tmp) \<Rightarrow>
       (case unmarshal dec_strmap tmp None of
          (auth, Some e) \<Rightarrow> None
        | (auth, None) \<Rightarrow> Some \<lparr>svc_ServiceType = stype, svc_Ip = ip, svc_AuthType = atype, svc_Auth = auth, svc_State = []\<rparr>))"

lemma scan_services_Ok:
  "scan_services rs = Ok ss \<longleftrightarrow> map row_service rs = map Some ss"
  by (induction rs arbitrary: ss rule: scan_services.induct)
    (auto simp: row_service_def outcome_bind_Ok_iff split: prod.splits option.splits)

lemma row_service_of: "service_ok svc \<Longrightarrow> row_service (service_row_of svc) = Some (svc\<lparr>svc_State := []\<rparr>)"
  by (simp add: row_service_def service_row_of_def dec_auth_text service_ok_def)

lemma dbauth_message_decoded:
  "DecodeEnvelope m = (env, None) \<Longrightarrow> dbauth_message db ops m s = bindS (dbauth_command db ops env) (\<lambda>u. liftS (Ok ())) s"
  by (simp add: dbauth_message_def ListenToQueue_def listen_message_def)

lemma bindS_unit: "bindS m (\<lambda>u. liftS (Ok ())) = (m :: ('s, unit) go)"
  by (auto simp: fun_eq_iff bindS_def liftS_def split: prod.splits outcome.splits)

lemma with_payload_print:
  assumes "json_ok j" and "d j z = (p, True)" and "env_payload env = json_print j"
  shows "with_payload d z env f = f p"
  using DecodePayload_print [of j d z p] assms by (simp add: with_payload_def)

text \<open>Adding a service that the database takes: one row more and one broadcast.\<close>

lemma dbauth_add:
  assumes "mb_sendError (da_bus a) = None" and "service_ok svc"
    and "DecodeEnvelope m = (empty_envelope\<lparr>env_type := ADDSERVICE, env_payload := json_print (enc_service svc)\<rparr>, None)"
    and "sql_insert_service db (service_row_of svc) (da_db a) = (d', Ok ())"
  shows "\<exists>a' e. dbauth_message db mock_ops m a = (a', Ok ()) \<and> da_db a' = d' \<and> da_pending a' = da_pending a
    \<and> mb_queueMsgs (da_bus a') = (mb_queueMsgs (da_bus a))(auth_EventQueue := mb_queueMsgs (da_bus a) auth_EventQueue @ [e])
    \<and> mb_sendError (da_bus a') = None
    \<and> DecodeEnvelope e = (empty_envelope\<lparr>env_type := SERVICE, env_payload := json_print (enc_service svc)\<rparr>, None)"
proof -
  from mock.service_SendTo_up [of "enc_service svc" "da_bus a" auth_EventQueue SERVICE] assms(1) obtain b e where
    b: "BroadcastService mock_ops (da_bus a) svc = (b, Ok ())"
    "mb_queueMsgs b = (mb_queueMsgs (da_bus a))(auth_EventQueue := mb_queueMsgs (da_bus a) auth_EventQueue @ [e])"
    "mb_sendError b = None"
    "DecodeEnvelope e = (empty_envelope\<lparr>env_type := SERVICE, env_payload := json_print (enc_service svc)\<rparr>, None)"
    by (auto simp: BroadcastService_def service_SendTo_def wire_simps fun_eq_iff)
  let ?env = "empty_envelope\<lparr>env_type := ADDSERVICE, env_payload := json_print (enc_service svc)\<rparr>"
  have "with_payload dec_service zero_service ?env (\<lambda>svc. logged (addServiceToDB db mock_ops svc))
      = logged (addServiceToDB db mock_ops svc)"
    by (rule with_payload_print [where j = "enc_service svc"]) (simp_all add: wire_simps assms(2))
  then have "dbauth_message db mock_ops m a = logged (addServiceToDB db mock_ops svc) a"
    unfolding dbauth_message_decoded [OF assms(3)] bindS_unit
    by (simp add: dbauth_command_def ADDSERVICE_def RESEND_def)
  also have "\<dots> = (a\<lparr>da_db := d', da_bus := b\<rparr>, Ok ())"
    by (simp add: logged_def addServiceToDB_def tryS_def bindS_def on_db_def on_bus_def liftS_def assms(4) b(1))
  finally show ?thesis using b
    by (intro exI [of _ "a\<lparr>da_db := d', da_bus := b\<rparr>"] exI [of _ e]) simp
qed

subsection \<open>The registry the table implements\<close>

text \<open>The credentials of a service as the database gives them back: sorted by name. A service has no
  state there.\<close>

definition stored_form :: "AuthService \<Rightarrow> AuthService" where
  "stored_form svc = svc\<lparr>svc_State := [], svc_Auth := map_option (\<lambda>m. foldr insert_kv m []) (svc_Auth svc)\<rparr>"

text \<open>The registry is a bag of services; \<open>registry_step\<close> is what a command means for it.\<close>

definition registry :: "service_row multiset \<Rightarrow> AuthService multiset" where
  "registry rs = image_mset (\<lambda>r. the (row_service r)) rs"

definition registry_step :: "Envelope \<Rightarrow> AuthService multiset \<Rightarrow> AuthService multiset" where
  "registry_step env R =
     (case DecodePayload (env_payload env) (Some dec_service) zero_service of
        (svc, None) \<Rightarrow>
          (if env_type env = ADDSERVICE then add_mset (stored_form svc) R
           else if env_type env = DELETESERVICE then filter_mset (\<lambda>x. svc_Ip x \<noteq> svc_Ip svc) R
           else R)
      | (svc, Some e) \<Rightarrow> R)"

definition rows_ok :: "service_row multiset \<Rightarrow> bool" where
  "rows_ok rs \<longleftrightarrow> (\<forall>r\<in>#rs. row_service r \<noteq> None)"

definition auth_distinct :: "AuthService \<Rightarrow> bool" where
  "auth_distinct svc \<longleftrightarrow> (case svc_Auth svc of None \<Rightarrow> True | Some m \<Rightarrow> distinct (map fst m))"

text \<open>What is decoded is a map: its keys are distinct.\<close>

lemma dec_entries_distinct: "distinct (map fst m) \<Longrightarrow> distinct (map fst (fst (dec_entries ms m)))"
proof (induction ms m rule: dec_entries.induct)
  case (2 k j ms m)
  then show ?case by (cases "dec_string j []") (auto split: prod.splits)
qed simp

lemma dec_strmap_distinct:
  assumes "\<And>m. old = Some m \<Longrightarrow> distinct (map fst m)" and "fst (dec_strmap j old) = Some m"
  shows "distinct (map fst m)"
proof (cases j)
  case (JObj ms)
  let ?m = "case old of None \<Rightarrow> [] | Some m \<Rightarrow> m"
  have "distinct (map fst (fst (dec_entries ms ?m)))"
    by (rule dec_entries_distinct) (use assms(1) in \<open>simp split: option.split\<close>)
  with assms(2) JObj show ?thesis by (cases "dec_entries ms ?m") (simp add: dec_strmap_def)
qed (use assms in \<open>simp_all add: dec_strmap_def\<close>)

lemma dec_fields_inv:
  assumes "\<And>k j x. I x \<Longrightarrow> I (fst (fld k j x))"
  shows "I x \<Longrightarrow> I (fst (dec_fields fld ms x))"
proof (induction ms arbitrary: x)
  case (Cons p ms)
  obtain k j where p: "p = (k, j)" by (cases p)
  obtain x1 ok where f: "fld k j x = (x1, ok)" by (cases "fld k j x")
  with assms [OF Cons.prems, of k j] have "I x1" by simp
  from Cons.IH [OF this] show ?case
    by (cases "dec_fields fld ms x1") (simp add: p f)
qed simp

lemma service_field_distinct: "auth_distinct x \<Longrightarrow> auth_distinct (fst (service_field k j x))"
proof -
  assume d: "auth_distinct x"
  have "distinct (map fst m)" if "fst (dec_strmap j (svc_Auth x)) = Some m" for m
    using that d by (intro dec_strmap_distinct [of "svc_Auth x" j m]) (auto simp: auth_distinct_def)
  with d show ?thesis
    by (auto simp: service_field_def dec_field_def auth_distinct_def split: prod.splits option.splits)
qed

lemma dec_service_distinct: "auth_distinct (fst (dec_service j zero_service))"
proof -
  have "auth_distinct zero_service" by (simp add: auth_distinct_def zero_service_def)
  then show ?thesis
    using dec_fields_inv [of auth_distinct service_field zero_service] service_field_distinct
    by (auto simp: dec_service_def dec_struct_def split: json.split)
qed

lemma payload_distinct:
  "DecodePayload raw (Some dec_service) zero_service = (svc, e) \<Longrightarrow> auth_distinct svc"
  using dec_service_distinct
  by (auto simp: DecodePayload_def unmarshal_def auth_distinct_def zero_service_def
      split: if_splits option.splits prod.splits)
     (metis fst_conv option.simps(5))+

lemma insert_kv_keys: "fst ` set (insert_kv p qs) = insert (fst p) (fst ` set qs)"
  by (induction p qs rule: insert_kv.induct) auto

lemma insert_kv_distinct:
  "distinct (map fst qs) \<Longrightarrow> fst p \<notin> fst ` set qs \<Longrightarrow> distinct (map fst (insert_kv p qs))"
  by (induction p qs rule: insert_kv.induct) (auto simp: insert_kv_keys image_iff)

lemma sorted_kv_distinct:
  "distinct (map fst m) \<Longrightarrow> distinct (map fst (foldr insert_kv m [])) \<and> fst ` set (foldr insert_kv m []) = fst ` set m"
  by (induction m) (auto simp: insert_kv_keys intro!: insert_kv_distinct)

lemma row_service_stored:
  assumes "auth_distinct svc"
  shows "row_service (service_row_of svc) = Some (stored_form svc)"
proof -
  have "dec_strmap (enc_strmap (svc_Auth svc)) None = (map_option (\<lambda>m. foldr insert_kv m []) (svc_Auth svc), True)"
  proof (cases "svc_Auth svc")
    case (Some m)
    with assms have "distinct (map fst (foldr insert_kv m []))" using sorted_kv_distinct by (simp add: auth_distinct_def)
    with Some dec_entries_map [of "[]" "foldr insert_kv m []"] show ?thesis
      by (simp add: dec_strmap_def enc_strmap_def)
  qed (simp add: dec_strmap_def enc_strmap_def)
  then have "unmarshal dec_strmap (json_print (enc_strmap (svc_Auth svc))) None
      = (map_option (\<lambda>m. foldr insert_kv m []) (svc_Auth svc), None)"
    by (intro unmarshal_print json_ok_enc_strmap)
  then show ?thesis by (simp add: row_service_def service_row_of_def stored_form_def)
qed

lemma row_service_ip: "row_service (t, ip, a, j) = Some svc \<Longrightarrow> svc_Ip svc = ip"
  by (auto simp: row_service_def split: prod.splits option.splits)

lemma registry_delete:
  assumes "rows_ok rs"
  shows "registry (filter_mset (\<lambda>(t, i, a, j). i \<noteq> ip) rs) = filter_mset (\<lambda>x. svc_Ip x \<noteq> ip) (registry rs)"
  using assms
proof (induction rs)
  case (add r rs)
  obtain t i a j where r: "r = (t, i, a, j)" by (cases r)
  from add.prems obtain svc where svc: "row_service (t, i, a, j) = Some svc" by (auto simp: rows_ok_def r)
  with row_service_ip [OF svc] add show ?case by (simp add: registry_def rows_ok_def r)
qed (simp add: registry_def)

text \<open>What each operation does to the database, however it ends.\<close>

lemma tryS_frame:
  assumes "\<And>s. g (fst (m s)) = before s" and "\<And>v s. g (fst (f v s)) = g s" and "\<And>e s. g (fst (h e s)) = g s"
  shows "g (fst (tryS m f h s)) = before s"
proof -
  obtain s1 x where x: "m s = (s1, x)" by (cases "m s")
  with assms(1) [of s] have "g s1 = before s" by simp
  with x assms(2,3) show ?thesis by (cases x) (simp_all add: tryS_def)
qed

lemma liftS_state [simp]: "fst (liftS r s) = s"
  by (simp add: liftS_def)

lemma bindS_frame:
  assumes "\<And>s. g (fst (m s)) = before s" and "\<And>v s. g (fst (f v s)) = g s"
  shows "g (fst (bindS m f s)) = before s"
proof -
  have "g (fst (liftS (Err e) s)) = g s" for e s by simp
  with assms show ?thesis unfolding bindS_tryS by (intro tryS_frame [of g m before]) blast+
qed

lemma on_db_db [simp]: "da_db (fst (on_db m s)) = fst (m (da_db s))"
  by (simp add: on_db_def split: prod.split)

lemma on_bus_db [simp]: "da_db (fst (on_bus m s)) = da_db s"
  by (simp add: on_bus_def split: prod.split)

lemma logged_db: "(\<And>s. da_db (fst (m s)) = before s) \<Longrightarrow> da_db (fst (logged m s)) = before s"
  unfolding logged_def by (rule tryS_frame [where g = da_db and before = before]) simp_all

lemma addServiceToDB_db:
  "da_db (fst (addServiceToDB db ops svc s)) = fst (sql_insert_service db (service_row_of svc) (da_db s))"
  unfolding addServiceToDB_def
  by (rule bindS_frame [where g = da_db and before = "\<lambda>s. fst (sql_insert_service db (service_row_of svc) (da_db s))"])
    (simp, rule tryS_frame [where g = da_db and before = da_db], simp_all)

lemma splunkAddHECToDB_db:
  "da_db (fst (splunkAddHECToDB db ops c s)) = fst (sql_insert_hec db (sc_Url c, sc_Key c, sc_Index c) (da_db s))"
  unfolding splunkAddHECToDB_def
  by (rule bindS_frame [where g = da_db and before = "\<lambda>s. fst (sql_insert_hec db (sc_Url c, sc_Key c, sc_Index c) (da_db s))"])
    simp_all

lemma getHECInstancesFromDB_db: "da_db (fst (getHECInstancesFromDB db s)) = fst (sql_select_hec db (da_db s))"
  unfolding getHECInstancesFromDB_def
  by (rule bindS_frame [where g = da_db and before = "\<lambda>s. fst (sql_select_hec db (da_db s))"]) simp_all

lemma getInstancesFromDB_db: "da_db (fst (getInstancesFromDB db s)) = fst (sql_select_services db (da_db s))"
  unfolding getInstancesFromDB_def
  by (rule bindS_frame [where g = da_db and before = "\<lambda>s. fst (sql_select_services db (da_db s))"]) simp_all

lemma dbauth_resend_db: "da_db (fst (dbauth_resend db s)) = fst (sql_select_services db (da_db s))"
  unfolding dbauth_resend_def
  by (rule tryS_frame [where g = da_db and before = "\<lambda>s. fst (sql_select_services db (da_db s))"])
    (simp_all add: getInstancesFromDB_db start_broadcasts_def)

lemma run_broadcast_db: "da_db (fst (run_broadcast ops svc s)) = da_db s"
  unfolding run_broadcast_def by (rule tryS_frame [where g = da_db and before = da_db]) simp_all

text \<open>One command, and what it means for the registry.\<close>

definition refines :: "('d \<Rightarrow> service_row multiset) \<Rightarrow> Envelope \<Rightarrow> 'd \<Rightarrow> 'd \<Rightarrow> bool" where
  "refines rows env d d' \<longleftrightarrow> rows_ok (rows d') \<and>
     (registry (rows d') = registry (rows d) \<or> registry (rows d') = registry_step env (registry (rows d)))"

lemma refines_same: "rows_ok (rows d) \<Longrightarrow> rows d' = rows d \<Longrightarrow> refines rows env d d'"
  by (simp add: refines_def)

lemma add_refines:
  assumes "table_laws db rows" and "rows_ok (rows d)" and "env_type env = ADDSERVICE"
    and "DecodePayload (env_payload env) (Some dec_service) zero_service = (svc, None)"
    and "sql_insert_service db (service_row_of svc) d = (d', x)"
  shows "refines rows env d d'"
proof (cases "x = Ok ()")
  case True
  from row_service_stored [OF payload_distinct [OF assms(4)]] assms(2) True table_insertD [OF assms(1,5)]
  have "rows_ok (rows d')" "registry (rows d') = add_mset (stored_form svc) (registry (rows d))"
    by (simp_all add: rows_ok_def registry_def)
  then show ?thesis by (simp add: refines_def registry_step_def assms(3,4))
qed (use assms table_insertD [OF assms(1,5)] in \<open>simp add: refines_same\<close>)

lemma delete_refines:
  assumes "table_laws db rows" and "rows_ok (rows d)" and "env_type env = DELETESERVICE"
    and "DecodePayload (env_payload env) (Some dec_service) zero_service = (svc, None)"
    and "sql_delete_service db (svc_Ip svc) d = (d', x)"
  shows "refines rows env d d'"
proof (cases "x = Ok ()")
  case True
  with table_deleteD [OF assms(1,5)] registry_delete [OF assms(2)] assms(2)
  have "rows_ok (rows d')" "registry (rows d') = filter_mset (\<lambda>x. svc_Ip x \<noteq> svc_Ip svc) (registry (rows d))"
    by (simp_all add: rows_ok_def)
  then show ?thesis by (simp add: refines_def registry_step_def assms(3,4) ADDSERVICE_def DELETESERVICE_def)
qed (use assms table_deleteD [OF assms(1,5)] in \<open>simp add: refines_same\<close>)

lemma command_refines:
  assumes laws: "table_laws db rows" and ok: "rows_ok (rows (da_db s))"
  shows "refines rows env (da_db s) (da_db (fst (dbauth_command db ops env s)))"
proof -
  have same: "refines rows env (da_db s) d'" if "rows d' = rows (da_db s)" for d'
    using refines_same [of rows "da_db s" d' env] ok that by blast
  let ?d = "da_db s" and ?d' = "da_db (fst (dbauth_command db ops env s))"
  have skip: "refines rows env ?d (da_db (fst (with_payload dc z env f s)))"
    if "\<And>p. DecodePayload (env_payload env) (Some dc) z = (p, None) \<Longrightarrow> refines rows env ?d (da_db (fst (f p s)))"
    for dc :: "'p dec" and z f
    using that same [of ?d] by (auto simp: with_payload_def split: prod.split option.split)
  consider "env_type env = RESEND" | "env_type env = ADDSERVICE" | "env_type env = DELETESERVICE"
    | "env_type env = SPLUNKADDHEC" | "env_type env = GETHECCONFIG"
    | "\<forall>t\<in>{RESEND, ADDSERVICE, DELETESERVICE, SPLUNKADDHEC, GETHECCONFIG}. env_type env \<noteq> t" by blast
  then show ?thesis
  proof cases
    case 1
    then show ?thesis using table_readD(1) [OF laws] by (simp add: dbauth_command_def dbauth_resend_db same)
  next
    case 2
    then have "dbauth_command db ops env = with_payload dec_service zero_service env (\<lambda>svc. logged (addServiceToDB db ops svc))"
      by (simp add: dbauth_command_def RESEND_def ADDSERVICE_def)
    moreover have "refines rows env ?d (da_db (fst (logged (addServiceToDB db ops p) s)))"
      if p: "DecodePayload (env_payload env) (Some dec_service) zero_service = (p, None)" for p
    proof -
      obtain d' x where "sql_insert_service db (service_row_of p) ?d = (d', x)"
        by (cases "sql_insert_service db (service_row_of p) ?d")
      with add_refines [OF laws ok 2 p this] show ?thesis by (simp add: logged_db [OF addServiceToDB_db])
    qed
    ultimately show ?thesis by (simp add: skip)
  next
    case 3
    then have "dbauth_command db ops env = with_payload dec_service zero_service env (\<lambda>svc. logged (deleteServiceFromDB db svc))"
      by (simp add: dbauth_command_def RESEND_def ADDSERVICE_def DELETESERVICE_def)
    moreover have "refines rows env ?d (da_db (fst (logged (deleteServiceFromDB db p) s)))"
      if p: "DecodePayload (env_payload env) (Some dec_service) zero_service = (p, None)" for p
    proof -
      obtain d' x where "sql_delete_service db (svc_Ip p) ?d = (d', x)" by (cases "sql_delete_service db (svc_Ip p) ?d")
      with delete_refines [OF laws ok 3 p this] show ?thesis
        by (simp add: logged_db [where before = "\<lambda>s. fst (sql_delete_service db (svc_Ip p) (da_db s))"] deleteServiceFromDB_def)
    qed
    ultimately show ?thesis by (simp add: skip)
  next
    case 4
    then have "dbauth_command db ops env = with_payload dec_splunk zero_splunk env (\<lambda>c. logged (splunkAddHECToDB db ops c))"
      by (simp add: dbauth_command_def RESEND_def ADDSERVICE_def DELETESERVICE_def SPLUNKADDHEC_def)
    moreover have "refines rows env ?d (da_db (fst (logged (splunkAddHECToDB db ops c) s)))" for c
      using table_readD(3) [OF laws] by (simp add: logged_db [OF splunkAddHECToDB_db] same)
    ultimately show ?thesis by (simp add: skip)
  next
    case 5
    then have "dbauth_command db ops env = logged (getHECInstancesFromDB db)"
      by (simp add: dbauth_command_def RESEND_def ADDSERVICE_def DELETESERVICE_def SPLUNKADDHEC_def GETHECCONFIG_def)
    then show ?thesis using table_readD(2) [OF laws]
      by (simp add: logged_db [OF getHECInstancesFromDB_db] same)
  next
    case 6
    then show ?thesis by (simp add: dbauth_command_def same)
  qed
qed

subsection \<open>Properties\<close>



end
