(* ===== verification/ConfigUi.thy ===== *)
theory ConfigUi
  imports DbAuth
begin

text \<open>
  \<^verbatim>\<open>cmd/configui/configui.go\<close>: the HTTP handlers of the configuration page, which turn requests
  into commands of the authorization service, of the data bus and of the configuration
  services of the pumps.

  The web framework is a parameter: a handler is given the outcome of binding the request to
  its structure, and adds what it tells the framework to answer to a list of replies.
\<close>

subsection \<open>Data\<close>

record MySys =
  ms_Hostname :: string
  ms_Username :: string
  ms_Password :: string

type_synonym MyDelSys = "string list"

record MyHec =
  mh_Url :: string
  mh_Key :: string
  mh_Index :: string

record KfkConfig =
  kk_Broker :: string
  kk_Topic :: string
  kk_AlertTopic :: string
  kk_CACert :: string
  kk_ClientCert :: string
  kk_ClientKey :: string
  kk_SkipVerify :: string
  kk_TLS :: string
  kk_ClientAuth :: string

record OtelConfig =
  ok_Collector :: string
  ok_CACert :: string
  ok_ClientCert :: string
  ok_ClientKey :: string
  ok_SkipVerify :: string
  ok_TLS :: string
  ok_ClientAuth :: string

definition zero_kafka_config :: KfkConfig where
  "zero_kafka_config = \<lparr>kk_Broker = [], kk_Topic = [], kk_AlertTopic = [], kk_CACert = [], kk_ClientCert = [],
     kk_ClientKey = [], kk_SkipVerify = [], kk_TLS = [], kk_ClientAuth = []\<rparr>"

text \<open>The value handed to \<open>c.JSON\<close> or \<open>c.String\<close>; \<open>AbortWithError\<close> with its error, which may be nil.\<close>

datatype ui_body =
    BSuccess | BError string | BProducers "DataProducer list" | BHec MyHec | BKafka KfkConfig | BText string | BFile string

datatype ui_reply = Reply int ui_body | AbortWithError int "gerror option"

text \<open>The three clients share one bus. \<open>ui_arrivals n\<close> is the first message on the response queue
  of the configuration client after its request number \<open>n\<close>, \<open>ui_requests\<close> the number of its
  requests; \<open>ui_files\<close> are the files written, the latest first.\<close>

record 'b ui =
  ui_bus :: 'b
  ui_auth :: "'b BaseClient"
  ui_databus :: "'b BaseClient"
  ui_config :: "'b ConfigClient"
  ui_arrivals :: "nat \<Rightarrow> string"
  ui_requests :: nat
  ui_replies :: "ui_reply list"
  ui_files :: "(string \<times> string) list"

definition reply :: "ui_reply \<Rightarrow> ('b ui, unit) go" where
  "reply r s = (s\<lparr>ui_replies := ui_replies s @ [r]\<rparr>, Ok ())"

definition on_auth :: "('b BaseClient \<Rightarrow> 'b BaseClient \<times> 'a outcome) \<Rightarrow> ('b ui, 'a) go" where
  "on_auth m s =
     (case m ((ui_auth s)\<lparr>bc_Bus := ui_bus s\<rparr>) of (ac, r) \<Rightarrow> (s\<lparr>ui_auth := ac, ui_bus := bc_Bus ac\<rparr>, r))"

definition on_databus :: "('b BaseClient \<Rightarrow> 'b BaseClient \<times> 'a outcome) \<Rightarrow> ('b ui, 'a) go" where
  "on_databus m s =
     (case m ((ui_databus s)\<lparr>bc_Bus := ui_bus s\<rparr>) of (dc, r) \<Rightarrow> (s\<lparr>ui_databus := dc, ui_bus := bc_Bus dc\<rparr>, r))"

text \<open>A request of the configuration client.\<close>

definition on_config :: "(string \<Rightarrow> 'b ConfigClient \<Rightarrow> 'b ConfigClient \<times> 'a outcome) \<Rightarrow> ('b ui, 'a) go" where
  "on_config m s =
     (case m (ui_arrivals s (ui_requests s)) ((ui_config s)\<lparr>cc_Bus := ui_bus s\<rparr>) of
        (cc, r) \<Rightarrow> (s\<lparr>ui_config := cc, ui_bus := cc_Bus cc, ui_requests := Suc (ui_requests s)\<rparr>, r))"

definition use_queues :: "string \<Rightarrow> string \<Rightarrow> ('b ui, unit) go" where
  "use_queues commands responses s =
     (s\<lparr>ui_config := (ui_config s)\<lparr>cc_CommandQueue := commands, cc_ResponseQueue := responses\<rparr>\<rparr>, Ok ())"

text \<open>Sequencing of two statements.\<close>

definition andThen :: "('s, unit) go \<Rightarrow> ('s, 'a) go \<Rightarrow> ('s, 'a) go" where
  "andThen m n = bindS m (\<lambda>u. n)"

subsection \<open>Systems\<close>

definition getSystemList :: "'b bus_ops \<Rightarrow> nat \<Rightarrow> entropy \<Rightarrow> string list \<Rightarrow> ('b ui, unit) go" where
  "getSystemList ops ch rnd arrivals =
     tryS (on_databus (GetProducers ops ch rnd arrivals))
       (\<lambda>producers. reply (Reply 200 (BProducers producers)))
       (\<lambda>e. reply (Reply 500 (BError ''Failed to get producers'')))"

definition idrac_service :: "string \<Rightarrow> string \<Rightarrow> string \<Rightarrow> AuthService" where
  "idrac_service host user password =
     \<lparr>svc_ServiceType = IDRAC, svc_Ip = host, svc_AuthType = AuthTypeUsernamePassword,
      svc_Auth = Some [(''password'', password), (''username'', user)], svc_State = []\<rparr>"

text \<open>When adding fails, the abort is given the error of the binding, which is nil.\<close>

definition add_idrac :: "'b bus_ops \<Rightarrow> string \<Rightarrow> string \<Rightarrow> string \<Rightarrow> ('b ui, unit) go" where
  "add_idrac ops host user password =
     tryS (on_auth (\<lambda>ac. AddService ops ac (idrac_service host user password)))
       (\<lambda>u. reply (Reply 200 BSuccess)) (\<lambda>e. reply (AbortWithError 500 None))"

definition addSystem :: "'b bus_ops \<Rightarrow> MySys outcome \<Rightarrow> ('b ui, unit) go" where
  "addSystem ops bound =
     tryS (liftS bound) (\<lambda>tmp. add_idrac ops (ms_Hostname tmp) (ms_Username tmp) (ms_Password tmp))
       (\<lambda>e. reply (AbortWithError 500 (Some e)))"

definition delete_idrac :: "'b bus_ops \<Rightarrow> string \<Rightarrow> ('b ui, unit) go" where
  "delete_idrac ops host =
     (let svc = zero_service\<lparr>svc_ServiceType := IDRAC, svc_Ip := host\<rparr> in
      andThen (tryS (on_auth (\<lambda>ac. DeleteService ops ac svc))
                 (\<lambda>u. liftS (Ok ())) (\<lambda>e. reply (AbortWithError 500 None)))
        (tryS (on_databus (\<lambda>dc. DeleteProducer ops dc svc)) (\<lambda>u. liftS (Ok ())) (\<lambda>e. liftS (Ok ()))))"

definition deleteSystem :: "'b bus_ops \<Rightarrow> MyDelSys outcome \<Rightarrow> ('b ui, unit) go" where
  "deleteSystem ops bound =
     tryS (liftS bound)
       (\<lambda>hosts. andThen (each_group (delete_idrac ops) hosts) (reply (Reply 200 BSuccess)))
       (\<lambda>e. reply (AbortWithError 500 (Some e)))"

text \<open>The file of the form, opened, as the records of the CSV reader; a failure of either step is
  answered with its text.\<close>

datatype csv_upload = NoForm string | NotOpened string | Records string "string list list"

definition csv_line :: "'b bus_ops \<Rightarrow> string list \<Rightarrow> ('b ui, unit) go" where
  "csv_line ops line =
     (case line of
        host # user # password # rest \<Rightarrow> add_idrac ops host user password
      | _ \<Rightarrow> liftS (Panic ''index out of range''))"

definition handleCsv :: "'b bus_ops \<Rightarrow> csv_upload \<Rightarrow> ('b ui, unit) go" where
  "handleCsv ops file =
     (case file of
        NoForm e \<Rightarrow> reply (Reply 400 (BText (''get form err: '' @ e)))
      | NotOpened e \<Rightarrow> reply (Reply 400 (BText (''upload file err: '' @ e)))
      | Records name records \<Rightarrow>
          andThen (each_group (csv_line ops) records)
            (reply (Reply 200 (BText (''File '' @ name @ '' uploaded successfully'')))))"

subsection \<open>Reading configurations\<close>

text \<open>A type assertion to string.\<close>

definition any_string :: "json \<Rightarrow> string outcome" where
  "any_string j = (case j of JStr s \<Rightarrow> Ok s | _ \<Rightarrow> Panic ''interface conversion'')"

text \<open>One property: an error is logged and leaves the structure alone.\<close>

definition read_property ::
  "'b bus_ops \<Rightarrow> nat \<Rightarrow> string \<Rightarrow> (string \<Rightarrow> 'c \<Rightarrow> 'c) \<Rightarrow> 'c \<Rightarrow> ('b ui, 'c) go" where
  "read_property ops ch name upd c =
     tryS (on_config (\<lambda>arrival. configclient_Get ops ch arrival name))
       (\<lambda>resp. liftS (outcome_bind (any_string (rsp_Value resp)) (\<lambda>v. Ok (upd v c))))
       (\<lambda>e. liftS (Ok c))"

definition getKafkaBrokerConfig :: "'b bus_ops \<Rightarrow> nat \<Rightarrow> ('b ui, unit) go" where
  "getKafkaBrokerConfig ops ch =
     andThen (use_queues ''/kafkapump/config'' ''/kconfigui'')
       (bindS (read_property ops ch ''kafkaBroker'' (\<lambda>v c. c\<lparr>kk_Broker := v\<rparr>) zero_kafka_config) (\<lambda>c.
        bindS (read_property ops ch ''kafkaTopic'' (\<lambda>v c. c\<lparr>kk_Topic := v\<rparr>) c) (\<lambda>c.
        bindS (read_property ops ch ''kafkaAlertTopic'' (\<lambda>v c. c\<lparr>kk_AlertTopic := v\<rparr>) c) (\<lambda>c.
        bindS (read_property ops ch ''kafkaCACert'' (\<lambda>v c. if v \<noteq> [] then c\<lparr>kk_TLS := ''true''\<rparr> else c) c) (\<lambda>c.
        bindS (read_property ops ch ''kafkaSkipVerify'' (\<lambda>v c. c\<lparr>kk_SkipVerify := v\<rparr>) c) (\<lambda>c.
        bindS (read_property ops ch ''kafkaClientCert'' (\<lambda>v c. if v \<noteq> [] then c\<lparr>kk_ClientAuth := ''true''\<rparr> else c) c) (\<lambda>c.
          reply (Reply 200 (BKafka c)))))))))"

text \<open>Here the response is used also after an error, when it is a nil pointer.\<close>

definition need_property :: "'b bus_ops \<Rightarrow> nat \<Rightarrow> string \<Rightarrow> ('b ui, string) go" where
  "need_property ops ch name =
     tryS (on_config (\<lambda>arrival. configclient_Get ops ch arrival name))
       (\<lambda>resp. liftS (any_string (rsp_Value resp)))
       (\<lambda>e. liftS (Panic ''nil pointer dereference''))"

definition getSplunkHttpConfig :: "'b bus_ops \<Rightarrow> nat \<Rightarrow> ('b ui, unit) go" where
  "getSplunkHttpConfig ops ch =
     andThen (use_queues ''/splunkpump/config'' ''/configui'')
       (bindS (need_property ops ch ''splunkURL'') (\<lambda>url.
        bindS (need_property ops ch ''splunkKey'') (\<lambda>key.
        bindS (need_property ops ch ''splunkIndex'') (\<lambda>index.
          reply (Reply 200 (BHec \<lparr>mh_Url = url, mh_Key = key, mh_Index = index\<rparr>))))))"

subsection \<open>Writing configurations\<close>

definition set_property_err :: "'b bus_ops \<Rightarrow> nat \<Rightarrow> string \<Rightarrow> string \<Rightarrow> ('b ui, gerror option) go" where
  "set_property_err ops ch name v =
     tryS (on_config (\<lambda>arrival. configclient_Set ops ch arrival name (JStr v)))
       (\<lambda>resp. liftS (Ok None)) (\<lambda>e. liftS (Ok (Some e)))"

definition set_property :: "'b bus_ops \<Rightarrow> nat \<Rightarrow> string \<Rightarrow> string \<Rightarrow> ('b ui, unit) go" where
  "set_property ops ch name v = bindS (set_property_err ops ch name v) (\<lambda>e. liftS (Ok ()))"

definition set_given :: "'b bus_ops \<Rightarrow> nat \<Rightarrow> string \<Rightarrow> string \<Rightarrow> ('b ui, unit) go" where
  "set_given ops ch name v = (if v \<noteq> [] then set_property ops ch name v else liftS (Ok ()))"

text \<open>\<open>writeFile\<close> says whether the file can be written; an error is only logged.\<close>

definition SaveUploadedFile :: "(string \<Rightarrow> bool) \<Rightarrow> string \<Rightarrow> string \<Rightarrow> ('b ui, unit) go" where
  "SaveUploadedFile writeFile cert dest s =
     (if writeFile dest then (s\<lparr>ui_files := (dest, cert) # ui_files s\<rparr>, Ok ()) else (s, Err ''write failed''))"

definition save_given :: "'b bus_ops \<Rightarrow> nat \<Rightarrow> (string \<Rightarrow> bool) \<Rightarrow> string \<Rightarrow> string \<Rightarrow> ('b ui, unit) go" where
  "save_given ops ch writeFile name cert =
     (if cert \<noteq> [] then
        andThen (logged (SaveUploadedFile writeFile cert (''/extrabin/certs/'' @ name))) (set_property ops ch name name)
      else liftS (Ok ()))"

text \<open>A request that cannot be bound is aborted, and then handled with what was bound.\<close>

definition kafkaConfig ::
  "'b bus_ops \<Rightarrow> nat \<Rightarrow> (string \<Rightarrow> bool) \<Rightarrow> KfkConfig \<times> gerror option \<Rightarrow> ('b ui, unit) go" where
  "kafkaConfig ops ch writeFile bound =
     (case bound of (tmp, err) \<Rightarrow>
        andThen (case err of None \<Rightarrow> liftS (Ok ()) | Some e \<Rightarrow> reply (AbortWithError 500 (Some e)))
       (andThen (use_queues ''/kafkapump/config'' ''/kconfigui'')
       (andThen (set_given ops ch ''kafkaBroker'' (kk_Broker tmp))
       (andThen (set_given ops ch ''kafkaTopic'' (kk_Topic tmp))
       (andThen (set_property ops ch ''kafkaAlertTopic'' (kk_AlertTopic tmp))
       (andThen (set_given ops ch ''kafkaSkipVerify'' (kk_SkipVerify tmp))
       (andThen (save_given ops ch writeFile ''kafkaCACert'' (kk_CACert tmp))
       (andThen (save_given ops ch writeFile ''kafkaClientCert'' (kk_ClientCert tmp))
         (save_given ops ch writeFile ''kafkaClientKey'' (kk_ClientKey tmp))))))))))"

definition otelConfig ::
  "'b bus_ops \<Rightarrow> nat \<Rightarrow> (string \<Rightarrow> bool) \<Rightarrow> OtelConfig \<times> gerror option \<Rightarrow> ('b ui, unit) go" where
  "otelConfig ops ch writeFile bound =
     (case bound of (tmp, err) \<Rightarrow>
        andThen (case err of None \<Rightarrow> liftS (Ok ()) | Some e \<Rightarrow> reply (AbortWithError 500 (Some e)))
       (andThen (use_queues ''/otelpump/config'' ''/oconfigui'')
       (andThen (set_given ops ch ''otelCollector'' (ok_Collector tmp))
       (andThen (set_given ops ch ''otelSkipVerify'' (ok_SkipVerify tmp))
       (andThen (save_given ops ch writeFile ''otelCACert'' (ok_CACert tmp))
       (andThen (save_given ops ch writeFile ''otelClientCert'' (ok_ClientCert tmp))
         (save_given ops ch writeFile ''otelClientKey'' (ok_ClientKey tmp))))))))"

text \<open>The collector that is added to the database is the zero one, not the one of the request; when
  that fails, the abort is given the error of the last setting.\<close>

definition configHEC :: "'b bus_ops \<Rightarrow> nat \<Rightarrow> MyHec outcome \<Rightarrow> ('b ui, unit) go" where
  "configHEC ops ch bound =
     tryS (liftS bound)
       (\<lambda>tmp. andThen (use_queues ''/splunkpump/config'' ''/configui'')
         (andThen (set_property ops ch ''splunkURL'' (mh_Url tmp))
         (andThen (set_property ops ch ''splunkKey'' (mh_Key tmp))
         (bindS (set_property_err ops ch ''splunkIndex'' (mh_Index tmp)) (\<lambda>err.
            tryS (on_auth (\<lambda>ac. SplunkAddHEC ops ac zero_splunk))
              (\<lambda>u. reply (Reply 200 BSuccess)) (\<lambda>e. reply (AbortWithError 500 err)))))))
       (\<lambda>e. reply (AbortWithError 500 (Some e)))"

definition configui_defaults :: settings where
  "configui_defaults = bus_defaults @ [(''httpport'', ''8082'')]"

definition configui_settings :: "(string \<Rightarrow> string) \<Rightarrow> settings" where
  "configui_settings env =
     env_override env (bus_vars @ [(''CONFIGUI_HTTP_PORT'', ''httpport'')]) configui_defaults"

definition configui_start :: "'b \<Rightarrow> (nat \<Rightarrow> string) \<Rightarrow> 'b ui" where
  "configui_start bus arrivals =
     \<lparr>ui_bus = bus, ui_auth = NewAuthorizationClient bus ''configui'', ui_databus = NewDataBusClient bus ''configui'',
      ui_config = NewConfigClientWithBus bus, ui_arrivals = arrivals, ui_requests = 0, ui_replies = [], ui_files = []\<rparr>"

subsection \<open>Adding a system\<close>

text \<open>The service of a system: an iDRAC at its address, with its user and password.\<close>

definition idrac_of :: "MySys \<Rightarrow> AuthService \<Rightarrow> bool" where
  "idrac_of sys svc \<longleftrightarrow>
     svc_ServiceType svc = IDRAC \<and> svc_Ip svc = ms_Hostname sys \<and> svc_AuthType svc = AuthTypeUsernamePassword
     \<and> (\<exists>m. svc_Auth svc = Some m \<and> map_of m = [''username'' \<mapsto> ms_Username sys, ''password'' \<mapsto> ms_Password sys])"

lemma idrac_of_service: "idrac_of sys (idrac_service (ms_Hostname sys) (ms_Username sys) (ms_Password sys))"
  by (auto simp: idrac_of_def idrac_service_def fun_eq_iff)

lemma idrac_service_ok: "service_ok (idrac_service host user password)"
  by (simp add: service_ok_def idrac_service_def int64_ok_def int64_min_def int64_max_def IDRAC_def
      AuthTypeUsernamePassword_def)

lemma add_idrac_sent:
  assumes "mb_sendError (ui_bus s) = None"
  shows "\<exists>s' m. add_idrac mock_ops host user password s = (s', Ok ())
    \<and> ui_replies s' = ui_replies s @ [Reply 200 BSuccess]
    \<and> mb_queueMsgs (ui_bus s') = (mb_queueMsgs (ui_bus s))
        (bc_CommandQueue (ui_auth s) := mb_queueMsgs (ui_bus s) (bc_CommandQueue (ui_auth s)) @ [m])
    \<and> DecodeEnvelope m = (empty_envelope\<lparr>env_type := ADDSERVICE,
        env_payload := json_print (enc_service (idrac_service host user password))\<rparr>, None)"
proof -
  let ?svc = "idrac_service host user password" and ?ac = "(ui_auth s)\<lparr>bc_Bus := ui_bus s\<rparr>"
  have "json_ok (enc_service ?svc)" by (rule json_ok_enc_service)
  moreover have "mb_sendError (bc_Bus ?ac) = None" using assms by simp
  ultimately obtain ac m where a: "AddService mock_ops ?ac ?svc = (ac, Ok ())"
    "mb_queueMsgs (bc_Bus ac) = (mb_queueMsgs (bc_Bus ?ac))
        (bc_CommandQueue ?ac := mb_queueMsgs (bc_Bus ?ac) (bc_CommandQueue ?ac) @ [m])"
    "DecodeEnvelope m = (empty_envelope\<lparr>env_type := ADDSERVICE, env_payload := json_print (enc_service ?svc)\<rparr>, None)"
    unfolding AddService_def using mock_client_Send by blast
  let ?s = "s\<lparr>ui_auth := ac, ui_bus := bc_Bus ac, ui_replies := ui_replies s @ [Reply 200 BSuccess]\<rparr>"
  have "add_idrac mock_ops host user password s = (?s, Ok ())"
    by (simp add: add_idrac_def on_auth_def tryS_def reply_def a(1))
  with a show ?thesis by (intro exI [of _ ?s] exI [of _ m]) simp
qed



end
