(* ===== verification/ConfigServer.thy ===== *)
theory ConfigServer
  imports ConfigUi
begin

text \<open>
  The web server of \<^verbatim>\<open>cmd/configui/configui.go\<close>: its routes, the requests it serves under a web framework, the commands the
  forms put on the queues of the pumps, and what happens when two forms are sent at once.
\<close>

subsection \<open>The web server\<close>

text \<open>A request as the framework gives it: its method and path, the outcome of binding its body to each
  of the structures, and what its handler gets to read: a channel, the source of correlation ids
  and the answers to a request over the data bus.\<close>

record ui_request =
  rq_method :: string
  rq_path :: string
  rq_system :: "MySys outcome"
  rq_hosts :: "MyDelSys outcome"
  rq_csv :: csv_upload
  rq_hec :: "MyHec outcome"
  rq_kafka :: "KfkConfig \<times> gerror option"
  rq_otel :: "OtelConfig \<times> gerror option"
  rq_channel :: nat
  rq_entropy :: entropy
  rq_answers :: "string list"

text \<open>The routes the page registers with the framework.\<close>

datatype 'b ui_route =
    StaticFile string string
  | GET_route string "ui_request \<Rightarrow> ('b ui, unit) go"
  | POST_route string "ui_request \<Rightarrow> ('b ui, unit) go"

definition configui_routes :: "'b bus_ops \<Rightarrow> (string \<Rightarrow> bool) \<Rightarrow> 'b ui_route list" where
  "configui_routes ops writeFile =
     [StaticFile ''/'' ''index.html'',
      StaticFile ''/index.html'' ''index.html'',
      StaticFile ''/index.bundle.js'' ''index.bundle.js'',
      GET_route ''/api/v1/Systems'' (\<lambda>rq. getSystemList ops (rq_channel rq) (rq_entropy rq) (rq_answers rq)),
      POST_route ''/api/v1/Systems'' (\<lambda>rq. addSystem ops (rq_system rq)),
      POST_route ''/api/v1/CsvUpload'' (\<lambda>rq. handleCsv ops (rq_csv rq)),
      POST_route ''/api/v1/Delete'' (\<lambda>rq. deleteSystem ops (rq_hosts rq)),
      POST_route ''/api/v1/HecConfig'' (\<lambda>rq. configHEC ops (rq_channel rq) (rq_hec rq)),
      POST_route ''/api/v1/KafkaConfig'' (\<lambda>rq. kafkaConfig ops (rq_channel rq) writeFile (rq_kafka rq)),
      POST_route ''/api/v1/OtelConfig'' (\<lambda>rq. otelConfig ops (rq_channel rq) writeFile (rq_otel rq)),
      GET_route ''/api/v1/HttpEventCollector'' (\<lambda>rq. getSplunkHttpConfig ops (rq_channel rq)),
      GET_route ''api/v1/KafkaBrokerConnection'' (\<lambda>rq. getKafkaBrokerConfig ops (rq_channel rq))]"

text \<open>The framework is a parameter: what it makes of a request, given the routes. It is relied on for one thing: a
  request whose handlers do not end the process is over at some time, also when they panic.\<close>

type_synonym 'b framework = "'b ui_route list \<Rightarrow> ui_request \<Rightarrow> ('b ui, unit) go"

definition configui_serve :: "'b framework \<Rightarrow> 'b bus_ops \<Rightarrow> (string \<Rightarrow> bool) \<Rightarrow> ui_request list \<Rightarrow> ('b ui, unit) go" where
  "configui_serve framework ops writeFile = each_group (framework (configui_routes ops writeFile))"

fun route_returns :: "ui_request \<Rightarrow> 'b ui_route \<Rightarrow> bool" where
  "route_returns rq (StaticFile path name) = True"
| "route_returns rq (GET_route path h) = (\<forall>s n. snd (h rq s) \<noteq> Exit n)"
| "route_returns rq (POST_route path h) = (\<forall>s n. snd (h rq s) \<noteq> Exit n)"

definition recovers :: "'b framework \<Rightarrow> bool" where
  "recovers framework \<longleftrightarrow>
     (\<forall>routes rq s. list_all (route_returns rq) routes \<longrightarrow> (\<exists>s'. framework routes rq s = (s', Ok ())))"

subsection \<open>Commands of the forms\<close>

lemma set_property_sent:
  assumes "mb_sendError (ui_bus s) = None"
  shows "\<exists>s'. set_property mock_ops ch name v s = (s', Ok ()) \<and> mb_sendError (ui_bus s') = None
    \<and> mb_queueMsgs (ui_bus s') = (mb_queueMsgs (ui_bus s)) (cc_CommandQueue (ui_config s) :=
        mb_queueMsgs (ui_bus s) (cc_CommandQueue (ui_config s)) @ [set_command (cc_ResponseQueue (ui_config s)) (name, v)])
    \<and> cc_CommandQueue (ui_config s') = cc_CommandQueue (ui_config s)
    \<and> cc_ResponseQueue (ui_config s') = cc_ResponseQueue (ui_config s)"
proof -
  let ?cc = "(ui_config s)\<lparr>cc_Bus := ui_bus s\<rparr>" and ?arrival = "ui_arrivals s (ui_requests s)"
  obtain cc x where cc: "configclient_Set mock_ops ch ?arrival name (JStr v) ?cc = (cc, x)"
    by (cases "configclient_Set mock_ops ch ?arrival name (JStr v) ?cc")
  then have "mb_sendError (cc_Bus cc) = None" "cc_CommandQueue cc = cc_CommandQueue (ui_config s)"
    "cc_ResponseQueue cc = cc_ResponseQueue (ui_config s)" "(\<exists>y. x = Ok y) \<or> (\<exists>e. x = Err e)"
    "mb_queueMsgs (cc_Bus cc) = (mb_queueMsgs (ui_bus s)) (cc_CommandQueue (ui_config s) :=
        mb_queueMsgs (ui_bus s) (cc_CommandQueue (ui_config s)) @ [set_command (cc_ResponseQueue (ui_config s)) (name, v)])"
    using assms
    by (auto simp: configclient_Set_def config_request_def config_SendCommand_def ReadOneMessage_def mock_ops_def
        mock_SendMessage_def mock_ReceiveMessage_def set_command_def Let_def split: prod.splits outcome.splits option.splits if_splits)
  then show ?thesis
    using cc by (auto simp: set_property_def set_property_err_def bindS_def tryS_def on_config_def liftS_def)
qed

text \<open>A handler that puts commands on the queue in use, and does nothing else to the bus.\<close>

definition adds_commands :: "string \<Rightarrow> string \<Rightarrow> (MockMessageBus ui, unit) go \<Rightarrow> (string \<times> string) list \<Rightarrow> bool" where
  "adds_commands queue responses m sets \<longleftrightarrow>
     (\<forall>s. mb_sendError (ui_bus s) = None \<longrightarrow> cc_CommandQueue (ui_config s) = queue \<longrightarrow>
          cc_ResponseQueue (ui_config s) = responses \<longrightarrow>
        (\<exists>s'. m s = (s', Ok ()) \<and> mb_sendError (ui_bus s') = None \<and> cc_CommandQueue (ui_config s') = queue
          \<and> cc_ResponseQueue (ui_config s') = responses
          \<and> mb_queueMsgs (ui_bus s') = (mb_queueMsgs (ui_bus s))(queue := mb_queueMsgs (ui_bus s) queue @ map (set_command responses) sets)))"

lemma adds_set: "adds_commands queue responses (set_property mock_ops ch name v) [(name, v)]"
  unfolding adds_commands_def
proof (intro allI impI)
  fix s :: "MockMessageBus ui"
  assume "mb_sendError (ui_bus s) = None" "cc_CommandQueue (ui_config s) = queue" "cc_ResponseQueue (ui_config s) = responses"
  with set_property_sent [of s ch name v]
  show "\<exists>s'. set_property mock_ops ch name v s = (s', Ok ()) \<and> mb_sendError (ui_bus s') = None
      \<and> cc_CommandQueue (ui_config s') = queue \<and> cc_ResponseQueue (ui_config s') = responses
      \<and> mb_queueMsgs (ui_bus s') = (mb_queueMsgs (ui_bus s))(queue := mb_queueMsgs (ui_bus s) queue @ map (set_command responses) [(name, v)])"
    by auto
qed

lemma adds_nothing: "adds_commands queue responses (liftS (Ok ())) []"
  by (simp add: adds_commands_def liftS_def)

lemma adds_given: "adds_commands queue responses (set_given mock_ops ch name v) (if v \<noteq> [] then [(name, v)] else [])"
  by (simp add: set_given_def adds_set adds_nothing)

lemma adds_save: "adds_commands queue responses (logged (SaveUploadedFile writeFile cert dest)) []"
  by (simp add: adds_commands_def logged_def tryS_def SaveUploadedFile_def liftS_def)

lemma adds_andThen:
  assumes "adds_commands queue responses m xs" and "adds_commands queue responses n ys"
  shows "adds_commands queue responses (andThen m n) (xs @ ys)"
  unfolding adds_commands_def
proof (intro allI impI)
  fix s :: "MockMessageBus ui"
  assume s: "mb_sendError (ui_bus s) = None" "cc_CommandQueue (ui_config s) = queue" "cc_ResponseQueue (ui_config s) = responses"
  with assms(1) obtain s1 where s1: "m s = (s1, Ok ())" "mb_sendError (ui_bus s1) = None" "cc_CommandQueue (ui_config s1) = queue"
    "cc_ResponseQueue (ui_config s1) = responses"
    "mb_queueMsgs (ui_bus s1) = (mb_queueMsgs (ui_bus s))(queue := mb_queueMsgs (ui_bus s) queue @ map (set_command responses) xs)"
    unfolding adds_commands_def by blast
  with assms(2) obtain s2 where "n s1 = (s2, Ok ())" "mb_sendError (ui_bus s2) = None" "cc_CommandQueue (ui_config s2) = queue"
    "cc_ResponseQueue (ui_config s2) = responses"
    "mb_queueMsgs (ui_bus s2) = (mb_queueMsgs (ui_bus s1))(queue := mb_queueMsgs (ui_bus s1) queue @ map (set_command responses) ys)"
    unfolding adds_commands_def by blast
  with s1 show "\<exists>s'. andThen m n s = (s', Ok ()) \<and> mb_sendError (ui_bus s') = None \<and> cc_CommandQueue (ui_config s') = queue
      \<and> cc_ResponseQueue (ui_config s') = responses
      \<and> mb_queueMsgs (ui_bus s') = (mb_queueMsgs (ui_bus s))(queue := mb_queueMsgs (ui_bus s) queue @ map (set_command responses) (xs @ ys))"
    by (simp add: andThen_def bindS_def)
qed

lemma adds_save_given:
  "adds_commands queue responses (save_given mock_ops ch writeFile name cert) (if cert \<noteq> [] then [(name, name)] else [])"
  using adds_andThen [OF adds_save adds_set] by (simp add: save_given_def adds_nothing)

text \<open>What the form for Kafka sets.\<close>

definition kafka_form :: "KfkConfig \<Rightarrow> (string \<times> string) list" where
  "kafka_form tmp =
     (if kk_Broker tmp \<noteq> [] then [(''kafkaBroker'', kk_Broker tmp)] else [])
     @ (if kk_Topic tmp \<noteq> [] then [(''kafkaTopic'', kk_Topic tmp)] else [])
     @ [(''kafkaAlertTopic'', kk_AlertTopic tmp)]
     @ (if kk_SkipVerify tmp \<noteq> [] then [(''kafkaSkipVerify'', kk_SkipVerify tmp)] else [])
     @ (if kk_CACert tmp \<noteq> [] then [(''kafkaCACert'', ''kafkaCACert'')] else [])
     @ (if kk_ClientCert tmp \<noteq> [] then [(''kafkaClientCert'', ''kafkaClientCert'')] else [])
     @ (if kk_ClientKey tmp \<noteq> [] then [(''kafkaClientKey'', ''kafkaClientKey'')] else [])"

lemma kafkaConfig_commands:
  assumes "mb_sendError (ui_bus s) = None"
  shows "\<exists>s'. kafkaConfig mock_ops ch writeFile (tmp, None) s = (s', Ok ())
    \<and> mb_queueMsgs (ui_bus s') = (mb_queueMsgs (ui_bus s)) (''/kafkapump/config'' :=
        mb_queueMsgs (ui_bus s) ''/kafkapump/config'' @ map (set_command ''/kconfigui'') (kafka_form tmp))
    \<and> mb_sendError (ui_bus s') = None"
proof -
  let ?q = "''/kafkapump/config''" and ?r = "''/kconfigui''"
  let ?s = "s\<lparr>ui_config := (ui_config s)\<lparr>cc_CommandQueue := ?q, cc_ResponseQueue := ?r\<rparr>\<rparr>"
  let ?rest = "andThen (set_given mock_ops ch ''kafkaBroker'' (kk_Broker tmp))
       (andThen (set_given mock_ops ch ''kafkaTopic'' (kk_Topic tmp))
       (andThen (set_property mock_ops ch ''kafkaAlertTopic'' (kk_AlertTopic tmp))
       (andThen (set_given mock_ops ch ''kafkaSkipVerify'' (kk_SkipVerify tmp))
       (andThen (save_given mock_ops ch writeFile ''kafkaCACert'' (kk_CACert tmp))
       (andThen (save_given mock_ops ch writeFile ''kafkaClientCert'' (kk_ClientCert tmp))
         (save_given mock_ops ch writeFile ''kafkaClientKey'' (kk_ClientKey tmp)))))))"
  have "adds_commands ?q ?r ?rest (kafka_form tmp)"
    unfolding kafka_form_def by (intro adds_andThen adds_given adds_set adds_save_given)
  then obtain s' where "?rest ?s = (s', Ok ())" "mb_sendError (ui_bus s') = None"
    "mb_queueMsgs (ui_bus s') = (mb_queueMsgs (ui_bus s))(?q := mb_queueMsgs (ui_bus s) ?q @ map (set_command ?r) (kafka_form tmp))"
    unfolding adds_commands_def using assms by force
  moreover have "kafkaConfig mock_ops ch writeFile (tmp, None) s = ?rest ?s"
    by (simp add: kafkaConfig_def andThen_def [of "liftS (Ok ())"] andThen_def [of "use_queues ?q ?r"] bindS_def liftS_def use_queues_def)
  ultimately show ?thesis by simp
qed

subsection \<open>Two forms at once\<close>

text \<open>The framework handles requests at the same time, and all handlers use one configuration client. The
  statements of two handlers as lists of actions, each of which is one on the client.\<close>

fun run_actions :: "('s, unit) go list \<Rightarrow> ('s, unit) go" where
  "run_actions [] = liftS (Ok ())"
| "run_actions (m # ms) = andThen m (run_actions ms)"

definition kafka_actions :: "'b bus_ops \<Rightarrow> nat \<Rightarrow> (string \<Rightarrow> bool) \<Rightarrow> KfkConfig \<Rightarrow> ('b ui, unit) go list" where
  "kafka_actions ops ch writeFile tmp =
     [use_queues ''/kafkapump/config'' ''/kconfigui'',
      set_given ops ch ''kafkaBroker'' (kk_Broker tmp),
      set_given ops ch ''kafkaTopic'' (kk_Topic tmp),
      set_property ops ch ''kafkaAlertTopic'' (kk_AlertTopic tmp),
      set_given ops ch ''kafkaSkipVerify'' (kk_SkipVerify tmp),
      save_given ops ch writeFile ''kafkaCACert'' (kk_CACert tmp),
      save_given ops ch writeFile ''kafkaClientCert'' (kk_ClientCert tmp),
      save_given ops ch writeFile ''kafkaClientKey'' (kk_ClientKey tmp)]"

definition otel_actions :: "'b bus_ops \<Rightarrow> nat \<Rightarrow> (string \<Rightarrow> bool) \<Rightarrow> OtelConfig \<Rightarrow> ('b ui, unit) go list" where
  "otel_actions ops ch writeFile tmp =
     [use_queues ''/otelpump/config'' ''/oconfigui'',
      set_given ops ch ''otelCollector'' (ok_Collector tmp),
      set_given ops ch ''otelSkipVerify'' (ok_SkipVerify tmp),
      save_given ops ch writeFile ''otelCACert'' (ok_CACert tmp),
      save_given ops ch writeFile ''otelClientCert'' (ok_ClientCert tmp),
      save_given ops ch writeFile ''otelClientKey'' (ok_ClientKey tmp)]"

lemma bindS_unit_right: "bindS m (\<lambda>u. liftS (Ok ())) = (m :: ('s, unit) go)"
  by (auto simp: fun_eq_iff bindS_def liftS_def split: prod.splits outcome.splits)

lemma andThen_nothing: "andThen (liftS (Ok ())) m = m" "andThen m (liftS (Ok ())) = (m :: ('s, unit) go)"
  by (simp_all add: andThen_def fun_eq_iff bindS_unit_right) (simp add: bindS_def liftS_def)

lemma kafkaConfig_actions: "kafkaConfig ops ch writeFile (tmp, None) = run_actions (kafka_actions ops ch writeFile tmp)"
  by (simp add: kafkaConfig_def kafka_actions_def andThen_nothing)

lemma otelConfig_actions: "otelConfig ops ch writeFile (tmp, None) = run_actions (otel_actions ops ch writeFile tmp)"
  by (simp add: otelConfig_def otel_actions_def andThen_nothing)

definition otel_form :: "OtelConfig \<Rightarrow> (string \<times> string) list" where
  "otel_form tmp =
     (if ok_Collector tmp \<noteq> [] then [(''otelCollector'', ok_Collector tmp)] else [])
     @ (if ok_SkipVerify tmp \<noteq> [] then [(''otelSkipVerify'', ok_SkipVerify tmp)] else [])
     @ (if ok_CACert tmp \<noteq> [] then [(''otelCACert'', ''otelCACert'')] else [])
     @ (if ok_ClientCert tmp \<noteq> [] then [(''otelClientCert'', ''otelClientCert'')] else [])
     @ (if ok_ClientKey tmp \<noteq> [] then [(''otelClientKey'', ''otelClientKey'')] else [])"

lemma run_actions_append: "run_actions (ms @ ns) = andThen (run_actions ms) (run_actions ns)"
  by (induction ms) (simp_all add: andThen_nothing, simp add: andThen_def fun_eq_iff bindS_def split: prod.split outcome.split)

lemma appended_shuffle: "xs @ ys \<in> shuffles ys xs"
  by (induction xs) (auto simp: Cons_in_shuffles_rightI)

lemma use_queues_run: "andThen (use_queues a b) m s = m (s\<lparr>ui_config := (ui_config s)\<lparr>cc_CommandQueue := a, cc_ResponseQueue := b\<rparr>\<rparr>)"
  by (simp add: andThen_def bindS_def use_queues_def)

subsection \<open>Requests never end the program\<close>

definition no_exit :: "('s, 'a) go \<Rightarrow> bool" where
  "no_exit m \<longleftrightarrow> (\<forall>s n. snd (m s) \<noteq> Exit n)"

definition handled :: "('s, 'a) go \<Rightarrow> bool" where
  "handled m \<longleftrightarrow> (\<forall>s. is_ok (snd (m s)) \<or> is_panic (snd (m s)))"

lemma handled_lift [intro]: "handled (liftS (Ok v))" "handled (liftS (Panic w))"
  by (simp_all add: handled_def liftS_def)

lemma handled_bind [intro]: "handled m \<Longrightarrow> (\<And>v. handled (f v)) \<Longrightarrow> handled (bindS m f)"
  by (auto simp: handled_def bindS_def split: prod.splits outcome.splits) (metis is_ok.simps is_panic.simps snd_conv)+

lemma handled_try [intro]:
  assumes "no_exit m" and "\<And>v. handled (f v)" and "\<And>e. handled (h e)"
  shows "handled (tryS m f h)"
  unfolding handled_def
proof
  fix s
  obtain s' r where m: "m s = (s', r)" by (cases "m s")
  then have "\<forall>n. r \<noteq> Exit n" using assms(1) unfolding no_exit_def by (metis snd_conv)
  with m assms(2,3) show "is_ok (snd (tryS m f h s)) \<or> is_panic (snd (tryS m f h s))"
    by (cases r) (auto simp: tryS_def handled_def)
qed

lemma handled_andThen [intro]: "handled m \<Longrightarrow> handled n \<Longrightarrow> handled (andThen m n)"
  unfolding andThen_def by blast

lemma handled_each [intro]: "(\<And>x. handled (f x)) \<Longrightarrow> handled (each_group f xs)"
  by (induction xs) (auto simp: intro: handled_lift)

lemma handled_reply [intro]: "handled (reply r)"
  by (simp add: handled_def reply_def)

lemma handled_queues [intro]: "handled (use_queues a b)"
  by (simp add: handled_def use_queues_def)

lemma no_exit_lift: "(\<And>n. r \<noteq> Exit n) \<Longrightarrow> no_exit (liftS r)"
  by (simp add: no_exit_def liftS_def)

lemma answers_no_exit: "answers ops \<Longrightarrow> send_msg ops b m q \<noteq> (b', Exit n)"
  unfolding answers_def by blast

lemma NewEnvelope_no_exit: "NewEnvelope t p \<noteq> Exit n"
  by (auto simp: NewEnvelope_def EncodePayload_def split: payload.split)

lemma send_envelope_no_exit: "answers ops \<Longrightarrow> send_envelope ops b q env \<noteq> (b', Exit n)"
  by (auto simp: send_envelope_def EncodeEnvelope_def answers_no_exit split: option.split)

lemma client_Send_no_exit: "answers ops \<Longrightarrow> client_Send ops bc t p \<noteq> (bc', Exit n)"
  by (auto simp: client_Send_def client_SendTo_def send_new_def send_envelope_no_exit NewEnvelope_no_exit
      split: prod.splits outcome.splits)

lemma Call_no_exit: "answers ops \<Longrightarrow> Call ops ch rnd arrivals t p d z bc \<noteq> (bc', Exit n)"
  by (auto simp: Call_def call_begin_def client_SendEnvelope_def NewRequest_def Let_def send_envelope_no_exit
      NewEnvelope_def EncodePayload_def split: prod.splits outcome.splits option.splits payload.splits)

lemma config_request_no_exit: "answers ops \<Longrightarrow> config_request ops ch arrival dc z command d \<noteq> (d', Exit n)"
  by (auto simp: config_request_def config_SendCommand_def ReadOneMessage_def answers_no_exit
      split: prod.splits outcome.splits option.splits)

lemma on_clients_no_exit:
  "(\<And>ac ac' n. m ac \<noteq> (ac', Exit n)) \<Longrightarrow> no_exit (on_auth m)"
  "(\<And>ac ac' n. m ac \<noteq> (ac', Exit n)) \<Longrightarrow> no_exit (on_databus m)"
  "(\<And>a cc cc' n. c a cc \<noteq> (cc', Exit n)) \<Longrightarrow> no_exit (on_config c)"
  by (auto simp: no_exit_def on_auth_def on_databus_def on_config_def split: prod.splits)

text \<open>The requests of the handlers.\<close>

lemma ui_requests_no_exit:
  assumes "answers ops"
  shows "no_exit (on_auth (\<lambda>ac. AddService ops ac svc))" "no_exit (on_auth (\<lambda>ac. DeleteService ops ac svc))"
    "no_exit (on_auth (\<lambda>ac. SplunkAddHEC ops ac hec))" "no_exit (on_databus (\<lambda>dc. DeleteProducer ops dc svc))"
    "no_exit (on_databus (GetProducers ops ch rnd arrivals))"
    "no_exit (on_config (\<lambda>arrival. configclient_Get ops ch arrival name))"
    "no_exit (on_config (\<lambda>arrival. configclient_Set ops ch arrival name v))"
  by (rule on_clients_no_exit;
      auto simp: AddService_def DeleteService_def SplunkAddHEC_def DeleteProducer_def GetProducers_def
        configclient_Get_def configclient_Set_def client_Send_no_exit [OF assms] Call_no_exit [OF assms]
        config_request_no_exit [OF assms] split: prod.splits outcome.splits option.splits)+

lemma handled_any_string: "no_exit (liftS (any_string j))" "no_exit (liftS (outcome_bind (any_string j) (\<lambda>v. Ok (f v))))"
  "handled (liftS (any_string j))" "handled (liftS (outcome_bind (any_string j) (\<lambda>v. Ok (f v))))"
  by (auto simp: no_exit_def handled_def liftS_def any_string_def split: json.split)

lemma handled_properties:
  assumes "answers ops"
  shows "handled (read_property ops ch name upd c)" "handled (need_property ops ch name)"
    "handled (set_property_err ops ch name v)" "handled (set_property ops ch name v)" "handled (set_given ops ch name v)"
  unfolding read_property_def need_property_def set_property_err_def set_property_def set_given_def
  using ui_requests_no_exit [OF assms] handled_any_string by (auto intro!: handled_try handled_bind handled_lift)

lemma handled_save: "handled (logged (SaveUploadedFile writeFile cert dest))"
  by (auto simp: handled_def logged_def tryS_def liftS_def SaveUploadedFile_def)

lemma handled_save_given: "answers ops \<Longrightarrow> handled (save_given ops ch writeFile name cert)"
  unfolding save_given_def using handled_save handled_properties by (auto intro!: handled_andThen handled_lift)

lemma handled_systems:
  assumes "answers ops"
  shows "handled (add_idrac ops host user password)" "handled (delete_idrac ops host)" "handled (csv_line ops line)"
  using ui_requests_no_exit [OF assms]
  by (auto simp: add_idrac_def delete_idrac_def csv_line_def Let_def intro!: handled_try handled_andThen handled_reply handled_lift
      split: list.split)

text \<open>The handlers, each from its parts.\<close>

lemmas handled_parts = ui_requests_no_exit handled_properties handled_save_given handled_systems handled_reply handled_queues
  handled_lift

lemma handled_lists:
  assumes "answers ops"
  shows "handled (getSystemList ops ch rnd arrivals)"
  unfolding getSystemList_def by (intro handled_try handled_parts assms)

lemma handled_csv:
  assumes "answers ops"
  shows "handled (handleCsv ops csv)"
  unfolding handleCsv_def
  by (cases csv; simp only: csv_upload.case; intro handled_andThen handled_each handled_parts assms)

lemma handled_forms:
  assumes "answers ops" and "\<And>n. system \<noteq> Exit n" and "\<And>n. hosts \<noteq> Exit n" and "\<And>n. hec \<noteq> Exit n"
  shows "handled (addSystem ops system)" "handled (deleteSystem ops hosts)" "handled (configHEC ops ch hec)"
  unfolding addSystem_def deleteSystem_def configHEC_def
  by (intro handled_try handled_andThen handled_bind handled_each no_exit_lift handled_parts assms)+

lemma handled_queries:
  assumes "answers ops"
  shows "handled (getSplunkHttpConfig ops ch)" "handled (getKafkaBrokerConfig ops ch)"
  unfolding getSplunkHttpConfig_def getKafkaBrokerConfig_def
  by (intro handled_andThen handled_bind handled_parts assms)+

lemma handled_settings:
  assumes "answers ops"
  shows "handled (kafkaConfig ops ch writeFile (kc, err))" "handled (otelConfig ops ch writeFile (oc, err))"
  unfolding kafkaConfig_def otelConfig_def prod.case
  by (cases err; simp only: option.case; intro handled_andThen handled_bind handled_parts assms)+

lemma handled_returns: "handled m \<Longrightarrow> snd (m s) \<noteq> Exit n"
  unfolding handled_def by (metis is_ok.simps(4) is_panic.simps(4))

lemma routes_return:
  assumes "answers ops" and "\<forall>n. rq_system rq \<noteq> Exit n \<and> rq_hosts rq \<noteq> Exit n \<and> rq_hec rq \<noteq> Exit n"
  shows "list_all (route_returns rq) (configui_routes ops writeFile)"
proof -
  obtain kc ke oc oe where [simp]: "rq_kafka rq = (kc, ke)" "rq_otel rq = (oc, oe)"
    by (cases "rq_kafka rq", cases "rq_otel rq") blast
  have bound: "\<And>n. rq_system rq \<noteq> Exit n" "\<And>n. rq_hosts rq \<noteq> Exit n" "\<And>n. rq_hec rq \<noteq> Exit n"
    using assms(2) by auto
  note parts = handled_lists [OF assms(1)] handled_csv [OF assms(1)] handled_forms [OF assms(1) bound]
    handled_queries [OF assms(1)] handled_settings [OF assms(1)]
  show ?thesis unfolding configui_routes_def by (simp add: handled_returns [OF parts(1)] handled_returns [OF parts(2)]
      handled_returns [OF parts(3)] handled_returns [OF parts(4)] handled_returns [OF parts(5)] handled_returns [OF parts(6)]
      handled_returns [OF parts(7)] handled_returns [OF parts(8)] handled_returns [OF parts(9)])
qed


lemma answers_mock: "answers mock_ops"
  unfolding answers_def mock_ops_def by (auto dest!: mock_send_cases split: option.splits)

definition example_request :: ui_request where
  "example_request = \<lparr>rq_method = ''POST'', rq_path = ''/api/v1/CsvUpload'', rq_system = Err ''EOF'', rq_hosts = Err ''EOF'',
     rq_csv = Records ''hosts.csv'' [[''10.0.0.1'', ''root'']], rq_hec = Err ''EOF'', rq_kafka = (zero_kafka_config, Some ''EOF''),
     rq_otel = (\<lparr>ok_Collector = [], ok_CACert = [], ok_ClientCert = [], ok_ClientKey = [], ok_SkipVerify = [], ok_TLS = [],
       ok_ClientAuth = []\<rparr>, Some ''EOF''), rq_channel = 0, rq_entropy = (None, 0), rq_answers = []\<rparr>"

text \<open>A framework: the first route for the method and the path; other requests and panics have answers of its own.\<close>

fun route_matches :: "ui_request \<Rightarrow> 'b ui_route \<Rightarrow> bool" where
  "route_matches rq (StaticFile path name) \<longleftrightarrow> rq_method rq = ''GET'' \<and> rq_path rq = path"
| "route_matches rq (GET_route path h) \<longleftrightarrow> rq_method rq = ''GET'' \<and> rq_path rq = path"
| "route_matches rq (POST_route path h) \<longleftrightarrow> rq_method rq = ''POST'' \<and> rq_path rq = path"

fun run_route :: "ui_request \<Rightarrow> 'b ui_route \<Rightarrow> ('b ui, unit) go" where
  "run_route rq (StaticFile path name) = reply (Reply 200 (BFile name))"
| "run_route rq (GET_route path h) = h rq"
| "run_route rq (POST_route path h) = h rq"

definition plain_framework :: "'b framework" where
  "plain_framework routes rq s =
     (case find (route_matches rq) routes of
        None \<Rightarrow> reply (Reply 404 (BText ''404 page not found'')) s
      | Some r \<Rightarrow>
          (case run_route rq r s of
             (s', Exit n) \<Rightarrow> (s', Exit n)
           | (s', Ok u) \<Rightarrow> (s', Ok ())
           | (s', x) \<Rightarrow> reply (AbortWithError 500 None) s'))"

lemma plain_framework_recovers: "recovers plain_framework"
  unfolding recovers_def
proof (intro allI impI)
  fix routes and rq :: ui_request and s
  assume all: "list_all (route_returns rq) routes"
  show "\<exists>s'. plain_framework routes rq s = (s', Ok ())"
  proof (cases "find (route_matches rq) routes")
    case None
    then show ?thesis by (simp add: plain_framework_def reply_def)
  next
    case (Some r)
    then have "route_returns rq r" using all by (auto simp: find_Some_iff list_all_iff)
    then have "snd (run_route rq r s) \<noteq> Exit n" for n by (cases r) (simp_all add: reply_def)
    moreover obtain s' x where x: "run_route rq r s = (s', x)" by (cases "run_route rq r s")
    ultimately have "x \<noteq> Exit n" for n by (metis snd_conv)
    with Some x show ?thesis by (cases x) (auto simp: plain_framework_def reply_def)
  qed
qed


subsection \<open>Properties\<close>

text \<open>C27: two forms sent at once cross: all handlers share one configuration client, whose queues each of
  them sets before it uses them. The statements of the Kafka form and of the OpenTelemetry form, each in its
  order, can interleave so that the settings of both are sent to the OpenTelemetry pump and none to the Kafka pump.\<close>

theorem forms_sent_at_once_cross:
  assumes "mb_sendError (ui_bus s) = None"
  shows "\<exists>ms\<in>shuffles (kafka_actions mock_ops ch writeFile tmp) (otel_actions mock_ops ch' writeFile otmp). \<exists>s'.
    run_actions ms s = (s', Ok ())
    \<and> mb_queueMsgs (ui_bus s') ''/kafkapump/config'' = mb_queueMsgs (ui_bus s) ''/kafkapump/config''
    \<and> mb_queueMsgs (ui_bus s') ''/otelpump/config'' = mb_queueMsgs (ui_bus s) ''/otelpump/config''
        @ map (set_command ''/oconfigui'') (otel_form otmp @ kafka_form tmp)"
proof -
  let ?K = "kafka_actions mock_ops ch writeFile tmp" and ?O = "otel_actions mock_ops ch' writeFile otmp"
  let ?q = "''/otelpump/config''" and ?r = "''/oconfigui''"
  let ?ms = "hd ?K # ?O @ tl ?K"
  let ?s = "s\<lparr>ui_config := (ui_config s)\<lparr>cc_CommandQueue := ?q, cc_ResponseQueue := ?r\<rparr>\<rparr>"
  have "adds_commands ?q ?r (run_actions (tl ?O @ tl ?K)) (otel_form otmp @ kafka_form tmp)"
    unfolding run_actions_append
  proof (rule adds_andThen)
    show "adds_commands ?q ?r (run_actions (tl ?O)) (otel_form otmp)"
      unfolding otel_actions_def otel_form_def list.sel run_actions.simps andThen_nothing
      by (intro adds_andThen adds_given adds_save_given)
    show "adds_commands ?q ?r (run_actions (tl ?K)) (kafka_form tmp)"
      unfolding kafka_actions_def kafka_form_def list.sel run_actions.simps andThen_nothing
      by (intro adds_andThen adds_given adds_set adds_save_given)
  qed
  then obtain s' where "run_actions (tl ?O @ tl ?K) ?s = (s', Ok ())"
    "mb_queueMsgs (ui_bus s') = (mb_queueMsgs (ui_bus s))(?q := mb_queueMsgs (ui_bus s) ?q
        @ map (set_command ?r) (otel_form otmp @ kafka_form tmp))"
    unfolding adds_commands_def using assms by force
  moreover have "run_actions ?ms s = run_actions (tl ?O @ tl ?K) ?s"
    by (simp add: kafka_actions_def otel_actions_def use_queues_run)
  moreover have "?ms \<in> shuffles ?K ?O"
    using Cons_in_shuffles_leftI [OF appended_shuffle [of ?O "tl ?K"], of "hd ?K"] by (simp add: kafka_actions_def)
  ultimately show ?thesis by (intro bexI [of _ ?ms]) auto
qed

theorem forms_sent_at_once_cross_witness:
  "\<exists>s' ms. ms \<in> shuffles (kafka_actions mock_ops 0 (\<lambda>dest. True) (zero_kafka_config\<lparr>kk_Broker := ''kafka:9092'', kk_Topic := ''idrac''\<rparr>))
      (otel_actions mock_ops 1 (\<lambda>dest. True) \<lparr>ok_Collector = ''http://otel:4318'', ok_CACert = [], ok_ClientCert = [],
         ok_ClientKey = [], ok_SkipVerify = [], ok_TLS = [], ok_ClientAuth = []\<rparr>)
    \<and> run_actions ms (configui_start NewMockMessageBus (\<lambda>n. [])) = (s', Ok ())
    \<and> mb_queueMsgs (ui_bus s') ''/kafkapump/config'' = []
    \<and> mb_queueMsgs (ui_bus s') ''/otelpump/config'' = map (set_command ''/oconfigui'')
        [(''otelCollector'', ''http://otel:4318''), (''kafkaBroker'', ''kafka:9092''), (''kafkaTopic'', ''idrac''), (''kafkaAlertTopic'', [])]"
proof -
  let ?s = "configui_start NewMockMessageBus (\<lambda>n. [])"
  have s: "mb_sendError (ui_bus ?s) = None" "mb_queueMsgs (ui_bus ?s) q = []" for q
    by (simp_all add: configui_start_def NewMockMessageBus_def)
  from forms_sent_at_once_cross [OF s(1), of 0 "\<lambda>dest. True" "zero_kafka_config\<lparr>kk_Broker := ''kafka:9092'', kk_Topic := ''idrac''\<rparr>" 1
      "\<lparr>ok_Collector = ''http://otel:4318'', ok_CACert = [], ok_ClientCert = [],
         ok_ClientKey = [], ok_SkipVerify = [], ok_TLS = [], ok_ClientAuth = []\<rparr>"]
  show ?thesis unfolding s(2) by (auto simp: kafka_form_def otel_form_def zero_kafka_config_def)
qed

end
