(* ===== verification/ConfigReads.thy ===== *)
theory ConfigReads
  imports ConfigServer Kafkapump
begin

text \<open>
  Reading settings back: the requests by which the page of \<^verbatim>\<open>cmd/configui/configui.go\<close> asks a pump for its
  settings, the answers of the configuration service of the pump, and what the page shows of them.
\<close>

subsection \<open>The service\<close>

definition get_command :: "string \<Rightarrow> string \<Rightarrow> string" where
  "get_command q name =
     json_print (enc_command (zero_command\<lparr>cmd_Command := GET, cmd_ResponseQueue := q, cmd_Property := name\<rparr>))"

definition get_answer :: "string \<Rightarrow> string" where
  "get_answer v = json_print (enc_response (zero_response\<lparr>rsp_Command := GET, rsp_Value := JStr v\<rparr>))"

lemma get_answer_read: "unmarshal dec_response (get_answer v) zero_response
    = (zero_response\<lparr>rsp_Command := GET, rsp_Value := JStr v\<rparr>, None)"
proof -
  let ?r = "zero_response\<lparr>rsp_Command := GET, rsp_Value := JStr v\<rparr>"
  have "json_ok (enc_response ?r)" by (rule json_ok_enc_config) simp
  then show ?thesis by (simp add: get_answer_def unmarshal_def json_parse_print dec_enc_response) (simp add: zero_response_def)
qed

lemma get_command_handled:
  assumes "mb_sendError (cs_Bus d) = None" and "cs_Entries d = string_items unknown items" and "name \<in> fst ` set items"
  shows "\<exists>d'. config_message mock_ops (get_command q name) d = (d', Ok ()) \<and> cs_State d' = cs_State d
    \<and> cs_Entries d' = cs_Entries d \<and> mb_sendError (cs_Bus d') = None
    \<and> mb_queueMsgs (cs_Bus d') q = mb_queueMsgs (cs_Bus d) q @ [get_answer (setting (cs_State d) name)]"
proof -
  let ?c = "zero_command\<lparr>cmd_Command := GET, cmd_ResponseQueue := q, cmd_Property := name\<rparr>"
  let ?r = "zero_response\<lparr>rsp_Command := GET, rsp_Value := JStr (setting (cs_State d) name)\<rparr>"
  have "json_ok (enc_command ?c)" by (rule json_ok_enc_config) (simp add: zero_command_def)
  then have m: "config_message mock_ops (get_command q name) d = config_Get mock_ops ?c d"
    using unmarshal_print [of "enc_command ?c" dec_command zero_command ?c]
    by (simp add: config_message_def get_command_def dec_enc_command GETPROPS_def GET_def)
  obtain v where v: "map_of items name = Some v"
    using assms(3) by (cases "map_of items name") (auto simp: map_of_eq_None_iff)
  have "config_Get mock_ops ?c d = config_reply mock_ops (enc_response ?r) ?c d"
    using assms(3) by (simp add: config_Get_def assms(2) map_of_string_items v string_getter_def)
  moreover obtain b where b: "send_msg mock_ops (cs_Bus d) (get_answer (setting (cs_State d) name)) q = (b, Ok ())"
    "mb_sendError b = None"
    using mock.send_up [of "cs_Bus d" "get_answer (setting (cs_State d) name)" q] assms(1)
      by (auto simp: fun_eq_iff)
  ultimately have "config_message mock_ops (get_command q name) d = (d\<lparr>cs_Bus := b\<rparr>, Ok ())"
    using m by (simp add: config_reply_def get_answer_def)
  with mock.send_ok [OF b(1)] b(2) show ?thesis by simp
qed

lemma get_commands_handled:
  assumes "mb_sendError (cs_Bus d) = None" and "cs_Entries d = string_items unknown items" and "set names \<subseteq> fst ` set items"
  shows "\<exists>d'. config_run mock_ops (map (get_command q) names) d = (d', Ok ()) \<and> cs_State d' = cs_State d
    \<and> mb_queueMsgs (cs_Bus d') q = mb_queueMsgs (cs_Bus d) q @ map (\<lambda>n. get_answer (setting (cs_State d) n)) names"
  using assms
proof (induction names arbitrary: d)
  case (Cons n ns)
  then have "n \<in> fst ` set items" by simp
  from get_command_handled [OF Cons.prems(1,2) this, of q] obtain d1 where
    d1: "config_message mock_ops (get_command q n) d = (d1, Ok ())" "cs_State d1 = cs_State d" "cs_Entries d1 = cs_Entries d"
    "mb_sendError (cs_Bus d1) = None"
    "mb_queueMsgs (cs_Bus d1) q = mb_queueMsgs (cs_Bus d) q @ [get_answer (setting (cs_State d) n)]" by blast
  from Cons.IH [of d1] d1 Cons.prems show ?case by auto
qed simp

subsection \<open>The page\<close>

text \<open>A handler that asks for properties, gets the values of \<open>asks\<close> as answers, replies with \<open>out\<close> and has the
  result \<open>c\<close>.\<close>

definition asks_for ::
  "string \<Rightarrow> string \<Rightarrow> (MockMessageBus ui, 'c) go \<Rightarrow> (string \<times> string) list \<Rightarrow> ui_reply list \<Rightarrow> 'c \<Rightarrow> bool" where
  "asks_for queue responses m asks out c \<longleftrightarrow>
     (\<forall>s. mb_sendError (ui_bus s) = None \<longrightarrow> cc_CommandQueue (ui_config s) = queue \<longrightarrow>
          cc_ResponseQueue (ui_config s) = responses \<longrightarrow>
          (\<forall>i<length asks. ui_arrivals s (ui_requests s + i) = get_answer (snd (asks ! i))) \<longrightarrow>
        (\<exists>s'. m s = (s', Ok c) \<and> mb_sendError (ui_bus s') = None \<and> cc_CommandQueue (ui_config s') = queue
          \<and> cc_ResponseQueue (ui_config s') = responses \<and> ui_arrivals s' = ui_arrivals s
          \<and> ui_requests s' = ui_requests s + length asks \<and> ui_replies s' = ui_replies s @ out
          \<and> mb_queueMsgs (ui_bus s') queue = mb_queueMsgs (ui_bus s) queue @ map (get_command responses) (map fst asks)))"

lemma asks_read: "asks_for queue responses (read_property mock_ops ch name upd c) [(name, v)] [] (upd v c)"
  unfolding asks_for_def
proof (intro allI impI)
  fix s :: "MockMessageBus ui"
  assume s: "mb_sendError (ui_bus s) = None" "cc_CommandQueue (ui_config s) = queue" "cc_ResponseQueue (ui_config s) = responses"
    "\<forall>i<length [(name, v)]. ui_arrivals s (ui_requests s + i) = get_answer (snd ([(name, v)] ! i))"
  let ?cc = "(ui_config s)\<lparr>cc_Bus := ui_bus s\<rparr>"
  let ?r = "zero_response\<lparr>rsp_Command := GET, rsp_Value := JStr v\<rparr>"
  have a: "ui_arrivals s (ui_requests s) = get_answer v" using s(4) by simp
  obtain cc x where cc: "configclient_Get mock_ops ch (get_answer v) name ?cc = (cc, x)"
    by (cases "configclient_Get mock_ops ch (get_answer v) name ?cc")
  then have "mb_sendError (cc_Bus cc) = None" "cc_CommandQueue cc = queue" "cc_ResponseQueue cc = responses" "x = Ok ?r"
    "mb_queueMsgs (cc_Bus cc) queue = mb_queueMsgs (ui_bus s) queue @ [get_command responses name]"
    using s(1-3) mock_send_cases
    by (auto simp: configclient_Get_def config_request_def config_SendCommand_def ReadOneMessage_def mock_ops_def
        mock_SendMessage_def mock_ReceiveMessage_def get_command_def get_answer_read Let_def
        split: prod.splits outcome.splits option.splits if_splits)
  with cc a show "\<exists>s'. read_property mock_ops ch name upd c s = (s', Ok (upd v c)) \<and> mb_sendError (ui_bus s') = None
      \<and> cc_CommandQueue (ui_config s') = queue \<and> cc_ResponseQueue (ui_config s') = responses \<and> ui_arrivals s' = ui_arrivals s
      \<and> ui_requests s' = ui_requests s + length [(name, v)] \<and> ui_replies s' = ui_replies s @ []
      \<and> mb_queueMsgs (ui_bus s') queue = mb_queueMsgs (ui_bus s) queue @ map (get_command responses) (map fst [(name, v)])"
    by (simp add: read_property_def tryS_def on_config_def liftS_def any_string_def)
qed

lemma asks_reply: "asks_for queue responses (reply r) [] [r] ()"
  by (simp add: asks_for_def reply_def)

lemma asks_bind:
  assumes "asks_for queue responses m xs out c" and "asks_for queue responses (f c) ys out' e"
  shows "asks_for queue responses (bindS m f) (xs @ ys) (out @ out') e"
  unfolding asks_for_def
proof (intro allI impI)
  fix s :: "MockMessageBus ui"
  assume s: "mb_sendError (ui_bus s) = None" "cc_CommandQueue (ui_config s) = queue" "cc_ResponseQueue (ui_config s) = responses"
    and a: "\<forall>i<length (xs @ ys). ui_arrivals s (ui_requests s + i) = get_answer (snd ((xs @ ys) ! i))"
  have ax: "\<forall>i<length xs. ui_arrivals s (ui_requests s + i) = get_answer (snd (xs ! i))"
  proof (intro allI impI)
    fix i assume "i < length xs"
    with a [rule_format, of i] show "ui_arrivals s (ui_requests s + i) = get_answer (snd (xs ! i))" by (simp add: nth_append)
  qed
  have ay: "\<forall>i<length ys. ui_arrivals s (ui_requests s + length xs + i) = get_answer (snd (ys ! i))"
  proof (intro allI impI)
    fix i assume "i < length ys"
    with a [rule_format, of "length xs + i"] show "ui_arrivals s (ui_requests s + length xs + i) = get_answer (snd (ys ! i))"
      by (simp add: nth_append add.assoc)
  qed
  from assms(1) s ax obtain s1 where s1: "m s = (s1, Ok c)" "mb_sendError (ui_bus s1) = None"
    "cc_CommandQueue (ui_config s1) = queue" "cc_ResponseQueue (ui_config s1) = responses" "ui_arrivals s1 = ui_arrivals s"
    "ui_requests s1 = ui_requests s + length xs" "ui_replies s1 = ui_replies s @ out"
    "mb_queueMsgs (ui_bus s1) queue = mb_queueMsgs (ui_bus s) queue @ map (get_command responses) (map fst xs)"
    unfolding asks_for_def by blast
  moreover from this ay have "\<forall>i<length ys. ui_arrivals s1 (ui_requests s1 + i) = get_answer (snd (ys ! i))" by simp
  ultimately obtain s2 where "f c s1 = (s2, Ok e)" "mb_sendError (ui_bus s2) = None" "cc_CommandQueue (ui_config s2) = queue"
    "cc_ResponseQueue (ui_config s2) = responses" "ui_arrivals s2 = ui_arrivals s1" "ui_requests s2 = ui_requests s1 + length ys"
    "ui_replies s2 = ui_replies s1 @ out'"
    "mb_queueMsgs (ui_bus s2) queue = mb_queueMsgs (ui_bus s1) queue @ map (get_command responses) (map fst ys)"
    using assms(2) unfolding asks_for_def by blast
  with s1 show "\<exists>s'. bindS m f s = (s', Ok e) \<and> mb_sendError (ui_bus s') = None \<and> cc_CommandQueue (ui_config s') = queue
      \<and> cc_ResponseQueue (ui_config s') = responses \<and> ui_arrivals s' = ui_arrivals s
      \<and> ui_requests s' = ui_requests s + length (xs @ ys) \<and> ui_replies s' = ui_replies s @ (out @ out')
      \<and> mb_queueMsgs (ui_bus s') queue = mb_queueMsgs (ui_bus s) queue @ map (get_command responses) (map fst (xs @ ys))"
    by (simp add: bindS_def)
qed

lemma asks_then_read:
  assumes "asks_for queue responses (f (upd v c)) ys out e"
  shows "asks_for queue responses (bindS (read_property mock_ops ch name upd c) f) ((name, v) # ys) out e"
  using asks_bind [where f = f, OF asks_read [where upd = upd and c = c] assms] by simp

subsection \<open>What the page shows\<close>

text \<open>The settings \<open>c\<close> of a pump, as the page shows them: of the certificates only whether there are any.\<close>

definition shown_settings :: "settings \<Rightarrow> KfkConfig" where
  "shown_settings c = zero_kafka_config\<lparr>kk_Broker := setting c ''kafkaBroker'', kk_Topic := setting c ''kafkaTopic'',
     kk_AlertTopic := setting c ''kafkaAlertTopic'', kk_TLS := if setting c ''kafkaCACert'' \<noteq> [] then ''true'' else [],
     kk_SkipVerify := setting c ''kafkaSkipVerify'',
     kk_ClientAuth := if setting c ''kafkaClientCert'' \<noteq> [] then ''true'' else []\<rparr>"

text \<open>What it shows after a form: an empty field of the form, other than the topic for alerts, leaves what there was.\<close>

definition shown_after :: "KfkConfig \<Rightarrow> settings \<Rightarrow> KfkConfig" where
  "shown_after tmp c =
     (let given = (\<lambda>v k. if v \<noteq> [] then v else setting c k) in
      zero_kafka_config\<lparr>kk_Broker := given (kk_Broker tmp) ''kafkaBroker'', kk_Topic := given (kk_Topic tmp) ''kafkaTopic'',
        kk_AlertTopic := kk_AlertTopic tmp, kk_TLS := if given (kk_CACert tmp) ''kafkaCACert'' \<noteq> [] then ''true'' else [],
        kk_SkipVerify := given (kk_SkipVerify tmp) ''kafkaSkipVerify'',
        kk_ClientAuth := if given (kk_ClientCert tmp) ''kafkaClientCert'' \<noteq> [] then ''true'' else []\<rparr>)"

definition shown_names :: "string list" where
  "shown_names = [''kafkaBroker'', ''kafkaTopic'', ''kafkaAlertTopic'', ''kafkaCACert'', ''kafkaSkipVerify'', ''kafkaClientCert'']"

lemma asks_shown: "k = k' \<Longrightarrow> asks_for queue responses (reply (Reply 200 (BKafka k))) [] [Reply 200 (BKafka k')] ()"
  by (simp add: asks_reply)

lemma kafka_query_asks:
  "asks_for ''/kafkapump/config'' ''/kconfigui''
     (bindS (read_property mock_ops ch ''kafkaBroker'' (\<lambda>v c. c\<lparr>kk_Broker := v\<rparr>) zero_kafka_config) (\<lambda>c.
      bindS (read_property mock_ops ch ''kafkaTopic'' (\<lambda>v c. c\<lparr>kk_Topic := v\<rparr>) c) (\<lambda>c.
      bindS (read_property mock_ops ch ''kafkaAlertTopic'' (\<lambda>v c. c\<lparr>kk_AlertTopic := v\<rparr>) c) (\<lambda>c.
      bindS (read_property mock_ops ch ''kafkaCACert'' (\<lambda>v c. if v \<noteq> [] then c\<lparr>kk_TLS := ''true''\<rparr> else c) c) (\<lambda>c.
      bindS (read_property mock_ops ch ''kafkaSkipVerify'' (\<lambda>v c. c\<lparr>kk_SkipVerify := v\<rparr>) c) (\<lambda>c.
      bindS (read_property mock_ops ch ''kafkaClientCert'' (\<lambda>v c. if v \<noteq> [] then c\<lparr>kk_ClientAuth := ''true''\<rparr> else c) c) (\<lambda>c.
        reply (Reply 200 (BKafka c)))))))))
     (map (\<lambda>n. (n, setting c n)) shown_names) [Reply 200 (BKafka (shown_settings c))] ()"
  unfolding shown_names_def list.map
  by (rule asks_then_read)+ (rule asks_shown, auto simp: shown_settings_def zero_kafka_config_def)

lemma getKafkaBrokerConfig_asks:
  assumes "mb_sendError (ui_bus s) = None"
    and "\<forall>i<length shown_names. ui_arrivals s (ui_requests s + i) = get_answer (setting c (shown_names ! i))"
  shows "\<exists>s'. getKafkaBrokerConfig mock_ops ch s = (s', Ok ())
    \<and> mb_queueMsgs (ui_bus s') ''/kafkapump/config''
        = mb_queueMsgs (ui_bus s) ''/kafkapump/config'' @ map (get_command ''/kconfigui'') shown_names
    \<and> ui_replies s' = ui_replies s @ [Reply 200 (BKafka (shown_settings c))]"
proof -
  let ?s = "s\<lparr>ui_config := (ui_config s)\<lparr>cc_CommandQueue := ''/kafkapump/config'', cc_ResponseQueue := ''/kconfigui''\<rparr>\<rparr>"
  have "\<forall>i<length (map (\<lambda>n. (n, setting c n)) shown_names).
      ui_arrivals ?s (ui_requests ?s + i) = get_answer (snd (map (\<lambda>n. (n, setting c n)) shown_names ! i))"
    using assms(2) by simp
  moreover have "mb_sendError (ui_bus ?s) = None" "cc_CommandQueue (ui_config ?s) = ''/kafkapump/config''"
    "cc_ResponseQueue (ui_config ?s) = ''/kconfigui''" using assms(1) by simp_all
  ultimately show ?thesis
    using kafka_query_asks [of ch c, unfolded asks_for_def, rule_format, of ?s]
    unfolding getKafkaBrokerConfig_def use_queues_run by (auto simp: comp_def)
qed

lemma shown_after_form:
  "shown_settings (fold (\<lambda>p. alist_put (fst p) (snd p)) (kafka_form tmp) c) = shown_after tmp c"
  unfolding shown_settings_def shown_after_def setting_fold_put Let_def by (simp add: kafka_form_def)



end
