(* ===== verification/Starts.thy ===== *)
theory Starts
  imports Programs ConfigServer ReaderProps
begin

text \<open>
  The remaining \<open>main\<close> functions, composed of the loop that dials the message bus and of the parts
  that follow it: \<^verbatim>\<open>cmd/victoriapump\<close>, \<^verbatim>\<open>cmd/redfishread\<close>, \<^verbatim>\<open>cmd/dbdiscauth\<close>, \<^verbatim>\<open>cmd/simpledisc\<close> and
  \<^verbatim>\<open>cmd/configui\<close>; \<^verbatim>\<open>cmd/idrac-telemetry-receiver\<close>, which starts three of the programs; and what the
  packages under \<^verbatim>\<open>pkg\<close> add to those under \<^verbatim>\<open>internal\<close>.
\<close>

subsection \<open>Programs\<close>

text \<open>The VictoriaMetrics pump dials a bounded number of times.\<close>

definition victoria_dial :: "dialler \<Rightarrow> settings \<Rightarrow> nat \<Rightarrow> StompMessagebus option" where
  "victoria_dial dial c i =
     (case NewStompMessageBus (dial i) (setting c ''mbhost'') (fst (Atoi (setting c ''mbport''))) of
        Ok mb \<Rightarrow> Some mb
      | _ \<Rightarrow> None)"

definition victoria_program ::
  "StompMessagebus bus_ops \<Rightarrow> 'r gauge_lib \<Rightarrow> ('r \<Rightarrow> string outcome) \<Rightarrow> ('h \<Rightarrow> victoria_request \<Rightarrow> 'h \<times> int outcome) \<Rightarrow>
   'r \<Rightarrow> 'h \<Rightarrow> dialler \<Rightarrow> (string \<Rightarrow> string) \<Rightarrow> nat \<Rightarrow> listen_event list \<Rightarrow>
   StompMessagebus BaseClient option \<times> ('r, 'h) victoria \<times> unit outcome" where
  "victoria_program ops lib gather post r net dial env ch events =
     (let c = victoria_settings env;
          s = \<lparr>vi_gauges = \<lparr>ga_collectors = (\<lambda>_. None), ga_registry = r\<rparr>, vi_net = net, vi_loggedMissing = False\<rparr> in
      case victoria_connect (victoria_dial dial c) 1 of
        Ok mb \<Rightarrow>
          (case pump_client ops mb ''victoriapump'' ''/prometheus'' ch events of
             (dbClient, groups) \<Rightarrow> (Some dbClient, victoria_groups lib gather post c groups s))
      | Err e \<Rightarrow> (None, s, Err e)
      | Panic w \<Rightarrow> (None, s, Panic w)
      | Exit n \<Rightarrow> (None, s, Exit n))"

text \<open>The reader: the state its goroutines begin with.\<close>

definition redfishread_program ::
  "StompMessagebus bus_ops \<Rightarrow> dialler \<Rightarrow> (string \<Rightarrow> string) \<Rightarrow> StompMessagebus reader option" where
  "redfishread_program ops dial env = map_option (redfishread_start ops) (connect_bus dial (redfishread_settings env) 0)"

text \<open>The database program: the bus first, then the database, each until it is there.\<close>

definition dbauth_program ::
  "'d auth_db \<Rightarrow> (string \<Rightarrow> 'd option) list \<Rightarrow> ('d \<Rightarrow> 'd option) list \<Rightarrow> ('d \<Rightarrow> 'd option) list \<Rightarrow> dialler \<Rightarrow>
   (string \<Rightarrow> string) \<Rightarrow> (('d, StompMessagebus) dbauth \<times> unit outcome) option" where
  "dbauth_program db opens create_services create_hec dial env =
     (let c = dbauth_settings env in
      Option.bind (connect_bus dial c 0) (\<lambda>mb.
        map_option (\<lambda>d. dbauth_start db d mb) (initMySQLDatabase opens create_services create_hec c)))"

definition simpledisc_defaults :: settings where
  "simpledisc_defaults = bus_defaults"

definition simpledisc_settings :: "(string \<Rightarrow> string) \<Rightarrow> settings" where
  "simpledisc_settings env = env_override env bus_vars simpledisc_defaults"

text \<open>The simple discovery program reads its lists from a file that must be there, before it dials.\<close>

definition simpledisc_program ::
  "StompMessagebus bus_ops \<Rightarrow> (string list \<times> string list) option \<Rightarrow> dialler \<Rightarrow> (string \<Rightarrow> string) \<Rightarrow> nat \<Rightarrow> string list \<Rightarrow>
   (StompMessagebus option \<times> unit outcome) option" where
  "simpledisc_program ops ini dial env ch messages =
     (case ini of
        None \<Rightarrow> Some (None, Exit 1)
      | Some (types, ips) \<Rightarrow>
          (case simpledisc_services types ips of
             Ok services \<Rightarrow>
               map_option (\<lambda>mb. case simpledisc_main ops ch types ips messages mb of (b, r) \<Rightarrow> (Some b, r))
                 (connect_bus dial (simpledisc_settings env) 0)
           | Err e \<Rightarrow> Some (None, Err e)
           | Panic w \<Rightarrow> Some (None, Panic w)
           | Exit n \<Rightarrow> Some (None, Exit n)))"

text \<open>The page: \<open>arrivals\<close> are the answers on its response queues, \<open>rqs\<close> the requests it serves.\<close>

definition configui_program ::
  "StompMessagebus framework \<Rightarrow> StompMessagebus bus_ops \<Rightarrow> (string \<Rightarrow> bool) \<Rightarrow> (nat \<Rightarrow> string) \<Rightarrow> dialler \<Rightarrow>
   (string \<Rightarrow> string) \<Rightarrow> ui_request list \<Rightarrow> (StompMessagebus ui \<times> unit outcome) option" where
  "configui_program framework ops writeFile arrivals dial env rqs =
     map_option (\<lambda>mb. configui_serve framework ops writeFile rqs (configui_start mb arrivals))
       (connect_bus dial (configui_settings env) 0)"

subsection \<open>The receiver\<close>

text \<open>\<open>start\<close> is the error of starting a program, \<open>wait\<close> the one it ends with. The state: the programs
  that were started and not yet waited for, and what was written to the error output.\<close>

record receiver =
  rv_running :: "string list"
  rv_stderr :: string

definition receiver_cmds :: "string list" where
  "receiver_cmds = [''/dbdiscauth'', ''/configui'', ''/redfishread'']"

fun start_all :: "(string \<Rightarrow> gerror option) \<Rightarrow> string list \<Rightarrow> (receiver, unit) go" where
  "start_all start [] = liftS (Ok ())"
| "start_all start (c # cs) =
     (\<lambda>s. case start c of
        Some e \<Rightarrow> (s, Panic e)
      | None \<Rightarrow> start_all start cs (s\<lparr>rv_running := rv_running s @ [c]\<rparr>))"

fun wait_all :: "(string \<Rightarrow> gerror option) \<Rightarrow> string list \<Rightarrow> (receiver, unit) go" where
  "wait_all wait [] = liftS (Ok ())"
| "wait_all wait (c # cs) =
     (\<lambda>s. wait_all wait cs
        (s\<lparr>rv_running := remove1 c (rv_running s),
           rv_stderr := rv_stderr s @ (case wait c of None \<Rightarrow> [] | Some e \<Rightarrow> e @ [LF])\<rparr>))"

definition receiver_main :: "(string \<Rightarrow> gerror option) \<Rightarrow> (string \<Rightarrow> gerror option) \<Rightarrow> receiver \<times> unit outcome" where
  "receiver_main start wait =
     bindS (start_all start receiver_cmds) (\<lambda>u. wait_all wait receiver_cmds) \<lparr>rv_running = [], rv_stderr = []\<rparr>"

subsection \<open>The packages under pkg\<close>

text \<open>\<^verbatim>\<open>pkg/messagebus/stomp.go\<close>: the loop with the default address.\<close>

definition InitializeStompMB :: "dialler \<Rightarrow> StompMessagebus option" where
  "InitializeStompMB dial = connect_bus dial [(''mbhost'', ''activemq''), (''mbport'', int_dec 61613)] 0"

text \<open>\<^verbatim>\<open>pkg/auth\<close>, \<^verbatim>\<open>pkg/databus\<close>, \<^verbatim>\<open>pkg/config\<close> and \<^verbatim>\<open>pkg/wire\<close> hand their arguments on.\<close>

definition NewAuthClientWithBus :: "'b \<Rightarrow> string \<Rightarrow> 'b BaseClient" where
  "NewAuthClientWithBus mb clientName = NewAuthorizationClient mb clientName"

definition NewAuthServiceWithBus :: "'b \<Rightarrow> 'b BaseService" where
  "NewAuthServiceWithBus mb = NewAuthorizationService mb"

definition NewDataBusServiceWithBus :: "'b \<Rightarrow> 'b DataBusService" where
  "NewDataBusServiceWithBus mb = NewDataBusService mb"

definition NewDataBusClientWithBus :: "'b \<Rightarrow> string \<Rightarrow> 'b BaseClient" where
  "NewDataBusClientWithBus mb clientName = NewDataBusClient mb clientName"

definition NewConfigServiceWithBus ::
  "'b \<Rightarrow> string \<Rightarrow> (string \<times> 's ConfigEntry) list \<Rightarrow> 's \<Rightarrow> ('b, 's) ConfigService" where
  "NewConfigServiceWithBus mb commandQueue entries = NewConfigService mb commandQueue entries"

record 'b SystemHandler =
  sh_AuthClient :: "'b BaseClient"
  sh_DataBus :: "'b BaseClient"
  sh_ConfigBus :: "'b ConfigClient"

definition NewSystemHandler :: "'b BaseClient \<Rightarrow> 'b BaseClient \<Rightarrow> 'b ConfigClient \<Rightarrow> 'b SystemHandler" where
  "NewSystemHandler authClient dataBus configBus =
     \<lparr>sh_AuthClient = authClient, sh_DataBus = dataBus, sh_ConfigBus = configBus\<rparr>"

definition pkg_NewEnvelope :: "string \<Rightarrow> payload \<Rightarrow> Envelope outcome" where
  "pkg_NewEnvelope msgType p = NewEnvelope msgType p"

definition pkg_DecodePayload :: "string \<Rightarrow> 'a dec option \<Rightarrow> 'a \<Rightarrow> 'a \<times> gerror option" where
  "pkg_DecodePayload p target x = DecodePayload p target x"

text \<open>\<^verbatim>\<open>pkg/redfishread\<close>: the operations of the table of devices, which may be a nil map.\<close>

definition NewRedfishDevices :: "(string \<times> nat) list option" where
  "NewRedfishDevices = Some []"

definition devices_Delete :: "string \<Rightarrow> 'b reader \<Rightarrow> 'b reader" where
  "devices_Delete k s = s\<lparr>rr_devices := map_option (alist_del k) (rr_devices s)\<rparr>"

definition devices_AddDevice :: "string \<Rightarrow> nat \<Rightarrow> ('b reader, unit) go" where
  "devices_AddDevice k i s =
     (case rr_devices s of
        None \<Rightarrow> (s, Panic ''assignment to entry in nil map'')
      | Some m \<Rightarrow> (s\<lparr>rr_devices := Some (alist_put k i m)\<rparr>, Ok ()))"

definition devices_CtxCancel :: "string \<Rightarrow> ('b reader, unit) go" where
  "devices_CtxCancel k s =
     (case find_device k s of
        None \<Rightarrow> (s, Panic ''nil pointer dereference'')
      | Some i \<Rightarrow> set_device i (rd_cancelled_update (\<lambda>_. True)) s)"

subsection \<open>Lemmas\<close>

text \<open>The loop of \<open>DELETEPRODUCER\<close> in the reader is \<open>CtxCancel\<close>, then \<open>Delete\<close>.\<close>

lemma delete_producer_devices:
  assumes "env_type env = databus_DELETEPRODUCER" and "DecodePayload (env_payload env) (Some dec_service) zero_service = (svc, None)"
  shows "redfishread_command ops env s =
    bindS (devices_CtxCancel (svc_Ip svc)) (\<lambda>u s. (devices_Delete (svc_Ip svc) s, Ok ())) s"
  using assms
  by (auto simp: redfishread_command_def devices_CtxCancel_def devices_Delete_def bindS_def databus_DELETEPRODUCER_def
      databus_GET_def databus_GETPRODUCERS_def TERMINATE_def split: option.split)

lemma start_all_fails:
  assumes "start c = Some e" and "\<forall>c\<in>set before. start c = None"
  shows "start_all start (before @ c # after) s = (s\<lparr>rv_running := rv_running s @ before\<rparr>, Panic e)"
  using assms by (induction before arbitrary: s) auto

lemma start_all_succeeds:
  "\<forall>c\<in>set cs. start c = None \<Longrightarrow> start_all start cs s = (s\<lparr>rv_running := rv_running s @ cs\<rparr>, Ok ())"
  by (induction cs arbitrary: s) (auto simp: liftS_def)

lemma wait_all_waits:
  "wait_all wait cs s = (s\<lparr>rv_running := fold remove1 cs (rv_running s),
     rv_stderr := rv_stderr s @ concat (map (\<lambda>c. case wait c of None \<Rightarrow> [] | Some e \<Rightarrow> e @ [LF]) cs)\<rparr>, Ok ())"
  by (induction cs arbitrary: s) (auto simp: liftS_def)

text \<open>The receiver starts all three programs, waits for each of them, and reports the errors they end
  with, in this order; or it panics at the first that cannot be started, and those before it run on.\<close>

theorem receiver_outcomes:
  "receiver_main start wait =
     (case dropWhile (\<lambda>c. start c = None) receiver_cmds of
        [] \<Rightarrow> (\<lparr>rv_running = [],
                rv_stderr = concat (map (\<lambda>c. case wait c of None \<Rightarrow> [] | Some e \<Rightarrow> e @ [LF]) receiver_cmds)\<rparr>, Ok ())
      | c # cs \<Rightarrow> (\<lparr>rv_running = takeWhile (\<lambda>c. start c = None) receiver_cmds, rv_stderr = []\<rparr>, Panic (the (start c))))"
proof (cases "dropWhile (\<lambda>c. start c = None) receiver_cmds")
  case Nil
  then have all: "\<forall>c\<in>set receiver_cmds. start c = None" by (simp add: dropWhile_eq_Nil_conv)
  show ?thesis unfolding Nil list.case
    by (simp add: receiver_main_def bindS_def start_all_succeeds [OF all] wait_all_waits) (simp add: receiver_cmds_def)
next
  case (Cons c cs)
  let ?b = "takeWhile (\<lambda>c. start c = None) receiver_cmds"
  have b: "\<forall>c\<in>set ?b. start c = None" by (auto dest: set_takeWhileD)
  have split: "receiver_cmds = ?b @ c # cs" using takeWhile_dropWhile_id [of "\<lambda>c. start c = None" receiver_cmds] Cons by simp
  have "start c \<noteq> None" using hd_dropWhile [of "\<lambda>c. start c = None" receiver_cmds] Cons by simp
  then obtain e where e: "start c = Some e" by blast
  have "receiver_main start wait = bindS (start_all start (?b @ c # cs)) (\<lambda>u. wait_all wait receiver_cmds) \<lparr>rv_running = [], rv_stderr = []\<rparr>"
    unfolding receiver_main_def using split by simp
  also have "\<dots> = (\<lparr>rv_running = ?b, rv_stderr = []\<rparr>, Panic e)"
    by (simp add: bindS_def start_all_fails [OF e b])
  finally show ?thesis using Cons e by simp
qed

text \<open>The loops that dial the bus: what they wait for, and how long.\<close>

lemma victoria_connects:
  assumes "1 \<le> i" and "i \<le> k" and "k \<le> 20" and "dial k (bus_address c) = None" and "\<forall>j. i \<le> j \<and> j < k \<longrightarrow> dial j (bus_address c) \<noteq> None"
  shows "victoria_connect (victoria_dial dial c) i = Ok NewStompMessageBusFromConn"
  using assms
proof (induction "k - i" arbitrary: i)
  case 0
  then have "i = k" by simp
  with 0 show ?case
    by (subst victoria_connect.simps) (simp add: victoria_dial_def NewStompMessageBus_def NewStompMessageBusFromConn_def bus_address_def)
next
  case (Suc d)
  then have i: "i < k" by simp
  with Suc.prems(5) obtain e where "dial i (bus_address c) = Some e" by blast
  then have "victoria_dial dial c i = None" by (simp add: victoria_dial_def NewStompMessageBus_def bus_address_def)
  moreover have "victoria_connect (victoria_dial dial c) (Suc i) = Ok NewStompMessageBusFromConn"
    using Suc.hyps(1) [of "Suc i"] Suc.hyps(2) Suc.prems i by simp
  ultimately show ?case using i Suc.prems(3) by (subst victoria_connect.simps) simp
qed

end
