(* ===== verification/EsPlugin.thy ===== *)
theory EsPlugin
  imports FloatText Databus
begin

text \<open>
  \<^verbatim>\<open>cmd/idracsdkapps/elasticsearch/elasticsearchplugin.go\<close>: a program of its own that reads
  metric reports from a device's event stream, puts each together from the pieces in which it
  arrives, and stores every metric value as a document of Elasticsearch.

  The texts handed to goroutines are kept in the order in which they are handed over. The HTTP
  client and the Elasticsearch client are parameters; prints are left out, except where the
  slice they print can be out of range. \<open>dat\<close>, which nothing reads, is left out.
  Names of indexes are taken to be ASCII where they are put in lower case.
\<close>

subsection \<open>Reports\<close>

record dellData =
  dd_ContextID :: string
  dd_Label :: string
  dd_Source :: string
  dd_FQDD :: string

record oemData =
  oem_DELL :: dellData

record EsMetricValue =
  ev_MetricID :: string
  ev_TimeStamp :: string
  ev_Value :: string
  ev_OEM :: oemData

record stagDellData =
  sd_ServiceTag :: string

record stagOem =
  so_DELL :: stagDellData

record Resp =
  re_MType :: string
  re_MContext :: string
  re_MId :: string
  re_Id :: string
  re_Name :: string
  re_ReportSequence :: string
  re_Timestamp :: string
  re_MetricValues :: "EsMetricValue list"
  re_Count :: int
  re_ServiceTag :: stagOem

definition zero_metric :: EsMetricValue where
  "zero_metric = \<lparr>ev_MetricID = [], ev_TimeStamp = [], ev_Value = [],
     ev_OEM = \<lparr>oem_DELL = \<lparr>dd_ContextID = [], dd_Label = [], dd_Source = [], dd_FQDD = []\<rparr>\<rparr>\<rparr>"

definition zero_resp :: Resp where
  "zero_resp = \<lparr>re_MType = [], re_MContext = [], re_MId = [], re_Id = [], re_Name = [], re_ReportSequence = [],
     re_Timestamp = [], re_MetricValues = [], re_Count = 0, re_ServiceTag = \<lparr>so_DELL = \<lparr>sd_ServiceTag = []\<rparr>\<rparr>\<rparr>"

definition dell_field :: "string \<Rightarrow> dellData dec" where
  "dell_field k =
     (if equal_fold k ''ContextID'' then dec_field dec_string dd_ContextID (\<lambda>v x. x\<lparr>dd_ContextID := v\<rparr>)
      else if equal_fold k ''Label'' then dec_field dec_string dd_Label (\<lambda>v x. x\<lparr>dd_Label := v\<rparr>)
      else if equal_fold k ''Source'' then dec_field dec_string dd_Source (\<lambda>v x. x\<lparr>dd_Source := v\<rparr>)
      else if equal_fold k ''FQDD'' then dec_field dec_string dd_FQDD (\<lambda>v x. x\<lparr>dd_FQDD := v\<rparr>)
      else (\<lambda>j x. (x, True)))"

definition oem_data_field :: "string \<Rightarrow> oemData dec" where
  "oem_data_field k =
     (if equal_fold k ''Dell'' then dec_field (dec_struct dell_field) oem_DELL (\<lambda>v x. x\<lparr>oem_DELL := v\<rparr>)
      else (\<lambda>j x. (x, True)))"

definition es_metric_field :: "string \<Rightarrow> EsMetricValue dec" where
  "es_metric_field k =
     (if equal_fold k ''MetricId'' then dec_field dec_string ev_MetricID (\<lambda>v x. x\<lparr>ev_MetricID := v\<rparr>)
      else if equal_fold k ''Timestamp'' then dec_field dec_string ev_TimeStamp (\<lambda>v x. x\<lparr>ev_TimeStamp := v\<rparr>)
      else if equal_fold k ''MetricValue'' then dec_field dec_string ev_Value (\<lambda>v x. x\<lparr>ev_Value := v\<rparr>)
      else if equal_fold k ''Oem'' then dec_field (dec_struct oem_data_field) ev_OEM (\<lambda>v x. x\<lparr>ev_OEM := v\<rparr>)
      else (\<lambda>j x. (x, True)))"

definition stag_dell_field :: "string \<Rightarrow> stagDellData dec" where
  "stag_dell_field k =
     (if equal_fold k ''ServiceTag'' then dec_field dec_string sd_ServiceTag (\<lambda>v x. x\<lparr>sd_ServiceTag := v\<rparr>)
      else (\<lambda>j x. (x, True)))"

definition stag_oem_field :: "string \<Rightarrow> stagOem dec" where
  "stag_oem_field k =
     (if equal_fold k ''Dell'' then dec_field (dec_struct stag_dell_field) so_DELL (\<lambda>v x. x\<lparr>so_DELL := v\<rparr>)
      else (\<lambda>j x. (x, True)))"

definition resp_field :: "string \<Rightarrow> Resp dec" where
  "resp_field k =
     (if equal_fold k ''@odata.type'' then dec_field dec_string re_MType (\<lambda>v x. x\<lparr>re_MType := v\<rparr>)
      else if equal_fold k ''@odata.context'' then dec_field dec_string re_MContext (\<lambda>v x. x\<lparr>re_MContext := v\<rparr>)
      else if equal_fold k ''@odata.id'' then dec_field dec_string re_MId (\<lambda>v x. x\<lparr>re_MId := v\<rparr>)
      else if equal_fold k ''Id'' then dec_field dec_string re_Id (\<lambda>v x. x\<lparr>re_Id := v\<rparr>)
      else if equal_fold k ''Name'' then dec_field dec_string re_Name (\<lambda>v x. x\<lparr>re_Name := v\<rparr>)
      else if equal_fold k ''ReportSequence'' then
        dec_field dec_string re_ReportSequence (\<lambda>v x. x\<lparr>re_ReportSequence := v\<rparr>)
      else if equal_fold k ''Timestamp'' then dec_field dec_string re_Timestamp (\<lambda>v x. x\<lparr>re_Timestamp := v\<rparr>)
      else if equal_fold k ''MetricValues'' then
        dec_field (dec_list (dec_struct es_metric_field) zero_metric) re_MetricValues (\<lambda>v x. x\<lparr>re_MetricValues := v\<rparr>)
      else if equal_fold k ''MetricValues@odata.count'' then dec_field dec_int re_Count (\<lambda>v x. x\<lparr>re_Count := v\<rparr>)
      else if equal_fold k ''Oem'' then dec_field (dec_struct stag_oem_field) re_ServiceTag (\<lambda>v x. x\<lparr>re_ServiceTag := v\<rparr>)
      else (\<lambda>j x. (x, True)))"

definition enc_es_metric :: "EsMetricValue \<Rightarrow> json" where
  "enc_es_metric v =
     (let d = oem_DELL (ev_OEM v) in
      JObj [(''MetricId'', JStr (ev_MetricID v)), (''Timestamp'', JStr (ev_TimeStamp v)),
        (''MetricValue'', JStr (ev_Value v)),
        (''Oem'', JObj [(''Dell'', JObj [(''ContextID'', JStr (dd_ContextID d)), (''Label'', JStr (dd_Label d)),
           (''Source'', JStr (dd_Source d)), (''FQDD'', JStr (dd_FQDD d))])])])"

subsection \<open>Storing a report\<close>

text \<open>What \<open>json.Unmarshal\<close> accepts for an \<open>interface{}\<close>: every number must fit a double.\<close>

fun any_value :: "json \<Rightarrow> bool" where
  "any_value (JNum n) = snd (ParseFloat n)"
| "any_value (JArr js) = list_all any_value js"
| "any_value (JObj ms) = list_all (\<lambda>m. any_value (snd m)) ms"
| "any_value j = True"

definition valid_packet :: "string \<Rightarrow> bool" where
  "valid_packet text =
     (case json_parse text of
        Some (JObj ms) \<Rightarrow> any_value (JObj ms)
      | Some JNull \<Rightarrow> True
      | _ \<Rightarrow> False)"

text \<open>The answer to an index request: a failed request, a status that is an error, or a body, if
  it can be decoded.\<close>

datatype index_reply = IndexFailed gerror | IndexError | IndexBody "(string \<times> json) list option"

record 'e es_plugin =
  ep_es :: 'e
  ep_reportCount :: nat
  ep_invalidJsonPkts :: nat

definition after_index :: "index_reply \<Rightarrow> unit outcome" where
  "after_index r =
     (case r of
        IndexBody (Some resMap) \<Rightarrow>
          (case obj_get ''_version'' resMap of
             Some (JNum n) \<Rightarrow> Ok ()
           | _ \<Rightarrow> Panic ''interface conversion: interface {} is not float64'')
      | _ \<Rightarrow> Ok ())"

definition index_metric ::
  "(string \<Rightarrow> string \<Rightarrow> string \<Rightarrow> 'e \<Rightarrow> 'e \<times> index_reply) \<Rightarrow> string \<Rightarrow> EsMetricValue \<Rightarrow> ('e es_plugin, unit) go" where
  "index_metric index esIndex v s =
     (case index (to_lower esIndex) (ev_MetricID v) (json_print (enc_es_metric v)) (ep_es s) of
        (e, r) \<Rightarrow> (s\<lparr>ep_es := e\<rparr>, after_index r))"

fun index_metrics ::
  "(string \<Rightarrow> string \<Rightarrow> string \<Rightarrow> 'e \<Rightarrow> 'e \<times> index_reply) \<Rightarrow> string \<Rightarrow> EsMetricValue list \<Rightarrow> ('e es_plugin, unit) go" where
  "index_metrics index esIndex [] = liftS (Ok ())"
| "index_metrics index esIndex (v # vs) =
     bindS (index_metric index esIndex v) (\<lambda>u. index_metrics index esIndex vs)"

definition InsertMetricReportData ::
  "(string \<Rightarrow> string \<Rightarrow> string \<Rightarrow> 'e \<Rightarrow> 'e \<times> index_reply) \<Rightarrow> string \<Rightarrow> ('e es_plugin, unit) go" where
  "InsertMetricReportData index tmp s =
     (let s = s\<lparr>ep_reportCount := Suc (ep_reportCount s)\<rparr> in
      if \<not> valid_packet tmp then (s\<lparr>ep_invalidJsonPkts := Suc (ep_invalidJsonPkts s)\<rparr>, Ok ())
      else (case unmarshal (dec_struct resp_field) tmp zero_resp of
              (res, Some err) \<Rightarrow> (s, Panic err)
            | (res, None) \<Rightarrow> index_metrics index (re_Id res) (re_MetricValues res) s))"

subsection \<open>Putting reports together\<close>

definition NUL :: char where "NUL = CHR 0x00"

definition read_size :: nat where "read_size = 4096"

definition checkHeader :: "string \<Rightarrow> bool" where
  "checkHeader tmp \<longleftrightarrow> contains tmp ''id: '' \<and> contains tmp ''data: '' \<and> contains tmp ''Name''"

text \<open>\<open>bytes.Index\<close> for a text that occurs, and \<open>bytes.IndexByte\<close>.\<close>

definition first_index :: "string \<Rightarrow> string \<Rightarrow> nat" where
  "first_index s sep = (case cut_at sep s of None \<Rightarrow> 0 | Some (a, b) \<Rightarrow> length a)"

definition byte_index :: "string \<Rightarrow> char \<Rightarrow> nat option" where
  "byte_index s c = (if c \<in> set s then Some (length (takeWhile (\<lambda>x. x \<noteq> c) s)) else None)"

record load =
  lo_validHeader :: nat
  lo_byt :: string
  lo_reportChunks :: nat
  lo_cnt :: nat
  lo_handed :: "string list"

definition load_start :: "string list \<Rightarrow> load" where
  "load_start handed = \<lparr>lo_validHeader = 0, lo_byt = replicate 196608 NUL, lo_reportChunks = 0, lo_cnt = 0,
     lo_handed = handed\<rparr>"

text \<open>A second header without an end between: what came before it ends the report that was begun.
  The result is the offset of the new header in the buffer.\<close>

definition new_header :: "string \<Rightarrow> (load, nat) go" where
  "new_header buf s =
     (if lo_validHeader s \<le> 1 then (s, Ok 0)
      else if length (lo_byt s) < 20 then (s, Panic ''slice bounds out of range'')
      else (let index1 = first_index buf ''id: '';
                report = lo_byt s @ take index1 buf in
            (s\<lparr>lo_validHeader := 1, lo_byt := report, lo_handed := lo_handed s @ [report]\<rparr>,
             Ok (if 2 < index1 then index1 - 2 else index1))))"

text \<open>A piece with a header: the report begins at its first brace. The print of the first ten bytes
  looks beyond the report as far as the buffer reaches.\<close>

definition begin_report :: "string \<Rightarrow> nat \<Rightarrow> (load, unit) go" where
  "begin_report buf n s =
     (case byte_index buf (CHR ''{'') of
        None \<Rightarrow> (s, Panic ''slice bounds out of range'')
      | Some jsonOpenBraceAt \<Rightarrow>
          (let s = s\<lparr>lo_byt := take (n - jsonOpenBraceAt) (drop jsonOpenBraceAt buf),
                    lo_reportChunks := Suc (lo_reportChunks s)\<rparr> in
           if 15 < n \<and> length buf - jsonOpenBraceAt < 10 then (s, Panic ''slice bounds out of range'')
           else (s, Ok ())))"

text \<open>\<open>TheEnd\<close>, on the bytes that were read.\<close>

definition report_end :: "string \<Rightarrow> bool" where
  "report_end c \<longleftrightarrow> 10 < length c
     \<and> contains (drop (length c - 10) c) ''.00'' \<and> contains (drop (length c - 10) c) ''}}}''"

definition end_report :: "string \<Rightarrow> (load, unit) go" where
  "end_report c s =
     (if \<not> report_end c then (s, Ok ())
      else if length (lo_byt s) < 10 then (s, Panic ''slice bounds out of range'')
      else (s\<lparr>lo_reportChunks := 0, lo_validHeader := 0, lo_handed := lo_handed s @ [lo_byt s],
              lo_cnt := Suc (lo_cnt s)\<rparr>, Ok ()))"

text \<open>One turn of the inner loop, for a read of a non-empty piece into a buffer of zeros.\<close>

definition load_chunk :: "string \<Rightarrow> (load, unit) go" where
  "load_chunk c s =
     (let n = length c; buf = c @ replicate (read_size - n) NUL in
      if checkHeader buf then
        bindS (new_header buf) (\<lambda>d.
        bindS (begin_report (drop d buf) (n - d)) (\<lambda>u. end_report (drop d c)))
          (s\<lparr>lo_validHeader := Suc (lo_validHeader s)\<rparr>)
      else end_report c (s\<lparr>lo_byt := lo_byt s @ c, lo_reportChunks := Suc (lo_reportChunks s)\<rparr>))"

text \<open>The loop ends at the first read of nothing.\<close>

fun load_chunks :: "string list \<Rightarrow> (load, unit) go" where
  "load_chunks [] = liftS (Ok ())"
| "load_chunks (c # cs) = (if c = [] then liftS (Ok ()) else bindS (load_chunk c) (\<lambda>u. load_chunks cs))"

text \<open>The requests of one call: each fails, which ends the call, or answers with the pieces of
  its body. The result is all that was handed to goroutines.\<close>

fun LoadTelemetryData :: "string list outcome list \<Rightarrow> string list \<Rightarrow> string list \<times> unit outcome" where
  "LoadTelemetryData [] handed = (handed, Ok ())"
| "LoadTelemetryData (Ok cs # rs) handed =
     (case load_chunks cs (load_start handed) of
        (s, Ok u) \<Rightarrow> LoadTelemetryData rs (lo_handed s)
      | (s, r) \<Rightarrow> (lo_handed s, r))"
| "LoadTelemetryData (r # rs) handed = (handed, Ok ())"

text \<open>The endless loop of \<open>main\<close> over the calls it makes: a call that ends with a failed request is followed
  by the next one.\<close>

fun es_plugin_main :: "string list outcome list list \<Rightarrow> string list \<Rightarrow> string list \<times> unit outcome" where
  "es_plugin_main [] handed = (handed, Ok ())"
| "es_plugin_main (rs # calls) handed =
     (case LoadTelemetryData rs handed of
        (handed', Ok u) \<Rightarrow> es_plugin_main calls handed'
      | (handed', r) \<Rightarrow> (handed', r))"

text \<open>The menu, whose loop is commented out; the state is the lines to come and the text printed.\<close>

definition ReadText :: "string \<Rightarrow> (string list \<times> string, string) go" where
  "ReadText prompt s =
     (case s of
        ([], out) \<Rightarrow> (([], out @ prompt @ '': ''), Ok [])
      | (l # ls, out) \<Rightarrow> ((ls, out @ prompt @ '': ''), Ok l))"

definition menu_Exit :: "(string list \<times> string, unit) go" where
  "menu_Exit s = (case s of (ls, out) \<Rightarrow> ((ls, out @ ''Goodbye!'' @ [LF]), Exit 0))"

subsection \<open>Lemmas\<close>

lemma es_plugin_main_retries: "es_plugin_main ([Err e] # calls) handed = es_plugin_main calls handed"
  by simp

lemma contains_padding:
  assumes "sep \<noteq> []" and "last sep \<noteq> NUL"
  shows "contains (c @ replicate k NUL) sep = contains c sep"
proof
  assume "contains (c @ replicate k NUL) sep"
  then obtain a b where ab: "c @ replicate k NUL = a @ sep @ b" by (auto simp: contains_iff)
  let ?i = "length a + length sep - 1"
  have "(a @ sep @ b) ! ?i = last sep" using assms(1) by (cases sep rule: rev_cases) (simp_all add: nth_append)
  moreover have "?i < length c + k" using arg_cong [OF ab, of length] assms(1) by (cases sep) auto
  ultimately have "?i < length c" using assms(2) ab by (metis add_diff_inverse_nat nat_add_left_cancel_less nth_append nth_replicate)
  then have "c = a @ sep @ take (length c - (length a + length sep)) b"
    using arg_cong [OF ab, of "take (length c)"] by simp
  then show "contains c sep" by (auto simp: contains_iff)
next
  assume "contains c sep"
  then obtain a b where "c = a @ sep @ b" by (auto simp: contains_iff)
  then have "c @ replicate k NUL = a @ sep @ (b @ replicate k NUL)" by simp
  then show "contains (c @ replicate k NUL) sep" unfolding contains_iff by blast
qed

lemma checkHeader_padding [simp]: "checkHeader (c @ replicate k NUL) = checkHeader c"
  using contains_padding [of "''id: ''"] contains_padding [of "''data: ''"] contains_padding [of "''Name''"]
  by (simp add: checkHeader_def NUL_def)

text \<open>The pieces of one event: the first holds the header and the beginning of the report's text, the
  end of the text is seen in the last piece and in no other.\<close>

definition event_pieces :: "string \<Rightarrow> string list \<Rightarrow> bool" where
  "event_pieces text ps \<longleftrightarrow>
     (\<exists>pre t cs. ps = (pre @ CHR ''{'' # t) # cs \<and> text = CHR ''{'' # t @ concat cs
        \<and> CHR ''{'' \<notin> set pre \<and> length pre \<le> read_size - 10 \<and> 10 \<le> length text
        \<and> checkHeader (hd ps) \<and> list_all (\<lambda>c. \<not> checkHeader c) cs
        \<and> list_all (\<lambda>c. c \<noteq> [] \<and> length c \<le> read_size) ps
        \<and> list_all (\<lambda>c. \<not> report_end c) (butlast ps) \<and> report_end (last ps))"

lemma load_first_piece:
  assumes "checkHeader c" and "c = pre @ CHR ''{'' # t" and "CHR ''{'' \<notin> set pre" and "length pre \<le> read_size - 10"
    and "length c \<le> read_size" and "lo_validHeader s = 0"
  shows "load_chunk c s = end_report c (s\<lparr>lo_validHeader := 1, lo_byt := CHR ''{'' # t, lo_reportChunks := Suc (lo_reportChunks s)\<rparr>)"
proof -
  have "byte_index (c @ replicate (read_size - length c) NUL) (CHR ''{'') = Some (length pre)"
    using assms(2,3) takeWhile_append [of "\<lambda>x. x \<noteq> CHR ''{''" pre] by (auto simp: byte_index_def)
  moreover have "checkHeader (pre @ CHR ''{'' # t @ replicate k NUL)" for k
    using assms(1,2) checkHeader_padding [of c k] by simp
  moreover have "\<not> 4096 - length pre < 10" using assms(4) by (simp add: read_size_def)
  ultimately show ?thesis
    using assms by (simp add: load_chunk_def new_header_def begin_report_def bindS_def Let_def read_size_def)
qed

lemma load_next_piece:
  "\<not> checkHeader c \<Longrightarrow> load_chunk c s = end_report c (s\<lparr>lo_byt := lo_byt s @ c, lo_reportChunks := Suc (lo_reportChunks s)\<rparr>)"
  by (simp add: load_chunk_def Let_def)

text \<open>The pieces after the first: until the last they are collected.\<close>

lemma load_rest:
  assumes "list_all (\<lambda>c. \<not> checkHeader c \<and> c \<noteq> []) cs" and "list_all (\<lambda>c. \<not> report_end c) (butlast cs)"
    and "cs \<noteq> []" and "report_end (last cs)" and "10 \<le> length (lo_byt s @ concat cs)"
  shows "\<exists>s'. load_chunks (cs @ ds) s = load_chunks ds s' \<and> lo_validHeader s' = 0
    \<and> lo_handed s' = lo_handed s @ [lo_byt s @ concat cs]"
  using assms
proof (induction cs arbitrary: s)
  case (Cons c cs)
  show ?case
  proof (cases "cs = []")
    case True
    with Cons.prems show ?thesis by (auto simp: bindS_def load_next_piece end_report_def)
  next
    case False
    let ?s = "s\<lparr>lo_byt := lo_byt s @ c, lo_reportChunks := Suc (lo_reportChunks s)\<rparr>"
    from Cons.IH [of ?s] Cons.prems False obtain s' where
      "load_chunks (cs @ ds) ?s = load_chunks ds s'" "lo_validHeader s' = 0"
      "lo_handed s' = lo_handed s @ [(lo_byt s @ c) @ concat cs]" by auto
    with Cons.prems False show ?thesis by (auto simp: bindS_def load_next_piece end_report_def)
  qed
qed simp

lemma load_event:
  assumes "event_pieces text ps" and "lo_validHeader s = 0"
  shows "\<exists>s'. load_chunks (ps @ ds) s = load_chunks ds s' \<and> lo_validHeader s' = 0
    \<and> lo_handed s' = lo_handed s @ [text]"
proof -
  from assms(1) obtain pre t cs where ps: "ps = (pre @ CHR ''{'' # t) # cs" "text = CHR ''{'' # t @ concat cs"
    and e: "CHR ''{'' \<notin> set pre" "length pre \<le> read_size - 10" "10 \<le> length text"
      "checkHeader (hd ps)" "list_all (\<lambda>c. \<not> checkHeader c) cs"
      "list_all (\<lambda>c. c \<noteq> [] \<and> length c \<le> read_size) ps"
      "list_all (\<lambda>c. \<not> report_end c) (butlast ps)" "report_end (last ps)"
    unfolding event_pieces_def by blast
  let ?c = "pre @ CHR ''{'' # t"
  let ?s = "s\<lparr>lo_validHeader := 1, lo_byt := CHR ''{'' # t, lo_reportChunks := Suc (lo_reportChunks s)\<rparr>"
  have c: "load_chunk ?c s = end_report ?c ?s"
    using load_first_piece [OF _ refl e(1,2) _ assms(2)] e(4,6) ps(1) by simp
  show ?thesis
  proof (cases "cs = []")
    case True
    with c ps e show ?thesis by (auto simp: bindS_def end_report_def)
  next
    case False
    from e ps False have cs: "list_all (\<lambda>c. \<not> checkHeader c \<and> c \<noteq> []) cs" "list_all (\<lambda>c. \<not> report_end c) (butlast cs)"
      "report_end (last cs)" "10 \<le> length (lo_byt ?s @ concat cs)" "\<not> report_end ?c" by (auto simp: list_all_iff)
    from load_rest [OF cs(1,2) False cs(3,4), of ds] c ps(2) cs(5) show ?thesis
      by (simp add: ps(1) bindS_def end_report_def)
  qed
qed

lemma load_events:
  assumes "list_all2 event_pieces texts evs" and "lo_validHeader s = 0"
  shows "\<exists>s'. load_chunks (concat evs) s = (s', Ok ()) \<and> lo_handed s' = lo_handed s @ texts"
  using assms
proof (induction texts evs arbitrary: s rule: list_all2_induct)
  case Nil
  then show ?case by (simp add: liftS_def)
next
  case (Cons report texts ps evs)
  from load_event [OF Cons.hyps(1) Cons.prems, of "concat evs"] obtain s1 where
    "load_chunks (ps @ concat evs) s = load_chunks (concat evs) s1" "lo_validHeader s1 = 0"
    "lo_handed s1 = lo_handed s @ [report]" by blast
  with Cons.IH [of s1] show ?case by auto
qed

subsection \<open>Properties\<close>

text \<open>C20: reports are put together: of connections that deliver events, each in pieces of at most
  4096 bytes of which only the first shows a header and only the last the end of the report, the
  program hands on the text of every report, from its first brace on, in order and without a
  crash.\<close>

theorem reports_reassembled:
  assumes "list_all2 (list_all2 event_pieces) textss evss"
  shows "LoadTelemetryData (map (\<lambda>evs. Ok (concat evs)) evss) handed = (handed @ concat textss, Ok ())"
  using assms
proof (induction textss evss arbitrary: handed rule: list_all2_induct)
  case (Cons texts textss evs evss)
  have "lo_validHeader (load_start handed) = 0" by (simp add: load_start_def)
  from load_events [OF Cons.hyps(1) this] Cons.IH [of "handed @ texts"] show ?case
    by (auto simp: load_start_def)
qed simp

text \<open>A report in two pieces.\<close>

definition example_pieces :: "string list" where
  "example_pieces =
     [''id: 7'' @ [LF] @ ''data: {'' @ [DQ] @ ''Name'' @ [DQ, CHR '':'', DQ, CHR ''A'', DQ, CHR '',''],
      [DQ] @ ''Oem'' @ [DQ] @ '':{'' @ [DQ] @ ''Dell'' @ [DQ] @ '':{'' @ [DQ] @ ''V'' @ [DQ] @ '':'' @ [DQ] @ ''1.00'' @ [DQ] @ ''}}}'' @ [LF]]"

theorem reports_reassembled_witness:
  "LoadTelemetryData [Ok example_pieces] [] = ([drop 12 (concat example_pieces)], Ok ())"
proof -
  let ?pre = "''id: 7'' @ [LF] @ ''data: ''"
  let ?t = "[DQ] @ ''Name'' @ [DQ, CHR '':'', DQ, CHR ''A'', DQ, CHR '','']"
  have "checkHeader (hd example_pieces)" "list_all (\<lambda>c. \<not> checkHeader c) (tl example_pieces)"
    "list_all (\<lambda>c. \<not> report_end c) (butlast example_pieces)" "report_end (last example_pieces)"
    by code_simp+
  then have "event_pieces (CHR ''{'' # ?t @ concat (tl example_pieces)) example_pieces"
    unfolding event_pieces_def
    by (intro exI [of _ ?pre] exI [of _ ?t] exI [of _ "tl example_pieces"])
      (simp add: example_pieces_def read_size_def DQ_def LF_def)
  with reports_reassembled [of "[[CHR ''{'' # ?t @ concat (tl example_pieces)]]" "[[example_pieces]]" "[]"]
  show ?thesis by (simp add: example_pieces_def del: LoadTelemetryData.simps load_chunks.simps)
qed

text \<open>An index that takes every document.\<close>

definition index_takes ::
  "(string \<Rightarrow> string \<Rightarrow> string \<Rightarrow> 'e \<Rightarrow> 'e \<times> index_reply) \<Rightarrow> ('e \<Rightarrow> string \<times> string \<Rightarrow> string option) \<Rightarrow> bool" where
  "index_takes index docs \<longleftrightarrow>
     (\<forall>i d b e. \<exists>e' m n. index i d b e = (e', IndexBody (Some m)) \<and> obj_get ''_version'' m = Some (JNum n)
        \<and> docs e' = (docs e)((i, d) \<mapsto> b))"

lemma index_metrics_docs:
  assumes "index_takes index docs"
  shows "\<exists>s'. index_metrics index i vs s = (s', Ok ()) \<and> ep_reportCount s' = ep_reportCount s
    \<and> ep_invalidJsonPkts s' = ep_invalidJsonPkts s
    \<and> docs (ep_es s') = docs (ep_es s) ++ map_of (rev (map (\<lambda>v. ((to_lower i, ev_MetricID v), json_print (enc_es_metric v))) vs))"
proof (induction vs arbitrary: s)
  case (Cons v vs)
  from assms obtain e' m n where e':
    "index (to_lower i) (ev_MetricID v) (json_print (enc_es_metric v)) (ep_es s) = (e', IndexBody (Some m))"
    "obj_get ''_version'' m = Some (JNum n)"
    "docs e' = (docs (ep_es s))((to_lower i, ev_MetricID v) \<mapsto> json_print (enc_es_metric v))"
    unfolding index_takes_def by blast
  from Cons.IH [of "s\<lparr>ep_es := e'\<rparr>"] obtain s' where s':
    "index_metrics index i vs (s\<lparr>ep_es := e'\<rparr>) = (s', Ok ())" "ep_reportCount s' = ep_reportCount s"
    "ep_invalidJsonPkts s' = ep_invalidJsonPkts s"
    "docs (ep_es s') = docs e' ++ map_of (rev (map (\<lambda>v. ((to_lower i, ev_MetricID v), json_print (enc_es_metric v))) vs))"
    by auto
  let ?row = "\<lambda>v. ((to_lower i, ev_MetricID v), json_print (enc_es_metric v))"
  have "map_of (rev (map ?row (v # vs))) = map_of [?row v] ++ map_of (rev (map ?row vs))"
    by (simp del: json_print.simps)
  then have "docs (ep_es s') = docs (ep_es s) ++ map_of (rev (map ?row (v # vs)))"
    unfolding s'(4) e'(3) by (simp only: map_add_assoc) simp
  moreover have "index_metrics index i (v # vs) s = (s', Ok ())"
    using s'(1) e'(1,2) by (simp add: bindS_def index_metric_def after_index_def)
  ultimately show ?case using s'(2,3) by blast
qed (simp add: liftS_def)

text \<open>C21: a report becomes documents: over an index that takes every document, the handler of a
  well-typed report stores each metric value under its metric's id in the index of the report's
  name in lower case, and nothing else; of several values of one metric, whatever their
  component, the last replaces the others.\<close>

theorem report_documents:
  assumes "index_takes index docs" and "json_parse tmp = Some j" and "valid_packet tmp"
    and "dec_struct resp_field j zero_resp = (res, True)"
  shows "\<exists>s'. InsertMetricReportData index tmp s = (s', Ok ()) \<and> ep_reportCount s' = Suc (ep_reportCount s)
    \<and> ep_invalidJsonPkts s' = ep_invalidJsonPkts s
    \<and> docs (ep_es s') = docs (ep_es s)
        ++ map_of (rev (map (\<lambda>v. ((to_lower (re_Id res), ev_MetricID v), json_print (enc_es_metric v))) (re_MetricValues res)))"
  using index_metrics_docs [OF assms(1), of "re_Id res" "re_MetricValues res" "s\<lparr>ep_reportCount := Suc (ep_reportCount s)\<rparr>"] assms(2-4)
  by (simp add: InsertMetricReportData_def unmarshal_def)

lemma load_start_bytes: "lo_byt (load_start handed) = NUL # replicate 196607 NUL"
  by (simp add: load_start_def replicate_Suc [symmetric] del: replicate_Suc)

lemma NUL_invalid: "\<not> valid_packet (NUL # t)"
proof -
  have "parse_num (NUL # t) = None"
    by (simp add: parse_num_def parse_unsigned_def num_int_def num_digits_def NUL_def is_digit_def Let_def)
  then have "json_parse (NUL # t) = None"
    by (simp add: json_parse_def is_ws_def NUL_def DQ_def LF_def CR_def)
  then show ?thesis by (simp add: valid_packet_def)
qed

definition example_index :: "string \<Rightarrow> string \<Rightarrow> string \<Rightarrow> (string \<times> string \<Rightarrow> string option) \<Rightarrow>
    (string \<times> string \<Rightarrow> string option) \<times> index_reply" where
  "example_index i d b e = (e((i, d) \<mapsto> b), IndexBody (Some [(''_version'', JNum ''1'')]))"

definition temperature :: "string \<Rightarrow> json" where
  "temperature v = JObj [(''MetricId'', JStr ''Temp''), (''MetricValue'', JStr v)]"

theorem report_documents_witness:
  "\<exists>s'. InsertMetricReportData example_index
        (json_print (JObj [(''Id'', JStr ''Thermal''), (''MetricValues'', JArr [temperature ''21'', temperature ''35''])]))
        \<lparr>ep_es = (\<lambda>_. None), ep_reportCount = 0, ep_invalidJsonPkts = 0\<rparr> = (s', Ok ())
    \<and> ep_es s' = [(''thermal'', ''Temp'') \<mapsto> json_print (enc_es_metric (zero_metric\<lparr>ev_MetricID := ''Temp'', ev_Value := ''35''\<rparr>))]"
proof -
  let ?j = "JObj [(''Id'', JStr ''Thermal''), (''MetricValues'', JArr [temperature ''21'', temperature ''35''])]"
  let ?vs = "[zero_metric\<lparr>ev_MetricID := ''Temp'', ev_Value := ''21''\<rparr>, zero_metric\<lparr>ev_MetricID := ''Temp'', ev_Value := ''35''\<rparr>]"
  have t: "index_takes example_index (\<lambda>e. e)" by (simp add: index_takes_def example_index_def obj_get_def)
  have p: "json_parse (json_print ?j) = Some ?j" by (rule json_parse_print) (simp add: temperature_def)
  then have v: "valid_packet (json_print ?j)" unfolding valid_packet_def by (simp add: temperature_def)
  have d: "dec_struct resp_field ?j zero_resp = (zero_resp\<lparr>re_Id := ''Thermal'', re_MetricValues := ?vs\<rparr>, True)"
    by code_simp
  have l: "to_lower ''Thermal'' = ''thermal''" by code_simp
  from report_documents [OF t p v d, of "\<lparr>ep_es = (\<lambda>_. None), ep_reportCount = 0, ep_invalidJsonPkts = 0\<rparr>"]
  show ?thesis by (auto simp: l simp del: json_print.simps)
qed

text \<open>A header cut in two loses its report: when no piece of the first report of a connection
  shows a whole header, the handler gets the zeros of the new buffer with the pieces behind
  them, counts one more report and one more invalid packet, and stores nothing.\<close>

theorem cut_header_loses_report:
  assumes "cs \<noteq> []" and "list_all (\<lambda>c. \<not> checkHeader c \<and> c \<noteq> []) cs"
    and "list_all (\<lambda>c. \<not> report_end c) (butlast cs)" and "report_end (last cs)"
  shows "LoadTelemetryData [Ok cs] handed = (handed @ [replicate 196608 NUL @ concat cs], Ok ())
    \<and> InsertMetricReportData index (replicate 196608 NUL @ concat cs) s =
        (s\<lparr>ep_reportCount := Suc (ep_reportCount s), ep_invalidJsonPkts := Suc (ep_invalidJsonPkts s)\<rparr>, Ok ())"
proof -
  have b: "replicate 196608 NUL = lo_byt (load_start handed)" by (simp add: load_start_def)
  have "10 \<le> length (lo_byt (load_start handed) @ concat cs)" by (simp add: load_start_bytes)
  from load_rest [OF assms(2,3,1,4) this, of "[]"] have
    "LoadTelemetryData [Ok cs] handed = (handed @ [replicate 196608 NUL @ concat cs], Ok ())"
    by (auto simp: liftS_def b) (simp add: load_start_def)
  moreover have "\<not> valid_packet (replicate 196608 NUL @ concat cs)"
    unfolding b load_start_bytes using NUL_invalid by simp
  ultimately show ?thesis by (simp add: InsertMetricReportData_def Let_def)
qed

theorem cut_header_loses_report_witness:
  "\<exists>t. LoadTelemetryData [Ok [''id: 7 data'', '': {Name: 1.00}}}'']] [] = ([replicate 196608 NUL @ t], Ok ())
    \<and> ep_invalidJsonPkts (fst (InsertMetricReportData example_index (replicate 196608 NUL @ t)
        \<lparr>ep_es = (\<lambda>_. None), ep_reportCount = 0, ep_invalidJsonPkts = 0\<rparr>)) = 1"
proof -
  let ?cs = "[''id: 7 data'', '': {Name: 1.00}}}'']"
  have "list_all (\<lambda>c. \<not> checkHeader c \<and> c \<noteq> []) ?cs" by (simp add: checkHeader_def)
  moreover have "list_all (\<lambda>c. \<not> report_end c) (butlast ?cs)" "report_end (last ?cs)" by (simp_all add: report_end_def)
  ultimately show ?thesis
    using cut_header_loses_report [of ?cs "[]" example_index
        "\<lparr>ep_es = (\<lambda>_. None), ep_reportCount = 0, ep_invalidJsonPkts = 0\<rparr>"]
    by (intro exI [of _ "concat ?cs"])  simp
qed

end
