(* ===== verification/Amqp.thy ===== *)
theory Amqp
  imports Bus "HOL-Library.Word"
begin

text \<open>
  \<^verbatim>\<open>internal/messagebus/amqp/amqp.go\<close>: the message bus over an AMQP 1.0 broker. Every
  message has a sender of its own; a subscription is a receiver whose loop runs in the caller,
  so that \<open>ReceiveMessage\<close> returns only when the broker has failed.

  The client library is a parameter: \<open>net history call\<close> is its error, if any, after the calls in
  \<open>history\<close>, and \<open>data history\<close> is what a receiver has been given. A link is named by the
  number of calls before it was made.
\<close>

datatype amqp_call =
    AmqpDial string
  | AmqpSession
  | NewSender string
  | AmqpSend nat string string "int option"
  | CloseSender nat
  | NewReceiver string nat
  | AmqpReceive nat
  | AmqpAccept nat
  | CloseReceiver nat
  | AmqpClose

type_synonym amqp_history = "(amqp_call \<times> gerror option) list"
type_synonym amqp_net = "amqp_history \<Rightarrow> amqp_call \<Rightarrow> gerror option"

text \<open>The client, its session and its context, which is never cancelled, do not change.\<close>

record AmqpMessagebus =
  am_log :: amqp_history

definition amqp_do :: "amqp_net \<Rightarrow> amqp_call \<Rightarrow> AmqpMessagebus \<Rightarrow> AmqpMessagebus \<times> gerror option" where
  "amqp_do net c m = (let r = net (am_log m) c in (m\<lparr>am_log := am_log m @ [(c, r)]\<rparr>, r))"

definition amqp_try :: "amqp_net \<Rightarrow> amqp_call \<Rightarrow> (AmqpMessagebus, unit) go" where
  "amqp_try net c m = (case amqp_do net c m of (m', None) \<Rightarrow> (m', Ok ()) | (m', Some e) \<Rightarrow> (m', Err e))"

definition NewAmqpMessageBus :: "amqp_net \<Rightarrow> string \<Rightarrow> int \<Rightarrow> AmqpMessagebus \<times> unit outcome" where
  "NewAmqpMessageBus net host port =
     bindS (amqp_try net (AmqpDial (''amqp://'' @ host @ '':'' @ int_dec port)))
       (\<lambda>u. amqp_try net AmqpSession) \<lparr>am_log = []\<rparr>"

text \<open>\<open>time.Duration(ittl) * time.Millisecond\<close> has 64 bits and wraps around.\<close>

definition amqp_ttl :: "string \<Rightarrow> int" where
  "amqp_ttl ttl = sint (word_of_int (fst (Atoi ttl)) * 1000000 :: 64 word)"

text \<open>A sender is closed after a message that was sent, with the error of that ignored; after a
  failed one it stays open.\<close>

definition amqp_send :: "amqp_net \<Rightarrow> string \<Rightarrow> string \<Rightarrow> int option \<Rightarrow> (AmqpMessagebus, unit) go" where
  "amqp_send net message queue ttl m =
     (let sender = length (am_log m) in
      bindS (amqp_try net (NewSender queue)) (\<lambda>u.
      bindS (amqp_try net (AmqpSend sender queue message ttl)) (\<lambda>u.
      \<lambda>m. (fst (amqp_do net (CloseSender sender) m), Ok ()))) m)"

definition amqp_SendMessage ::
  "amqp_net \<Rightarrow> AmqpMessagebus \<Rightarrow> string \<Rightarrow> string \<Rightarrow> AmqpMessagebus \<times> unit outcome" where
  "amqp_SendMessage net m message queue = amqp_send net message queue None m"

text \<open>Of the headers only \<open>expires\<close> is used. \<open>header_made\<close>: the new message has a header to
  hold its time to live; without one, setting it dereferences nil, after the sender was made.\<close>

definition amqp_SendMessageWithHeaders ::
  "amqp_net \<Rightarrow> bool \<Rightarrow> AmqpMessagebus \<Rightarrow> string \<Rightarrow> string \<Rightarrow> (string \<times> string) list \<Rightarrow>
   AmqpMessagebus \<times> unit outcome" where
  "amqp_SendMessageWithHeaders net header_made m message queue headers =
     (case map_of headers ''expires'' of
        None \<Rightarrow> amqp_send net message queue None m
      | Some ttl \<Rightarrow>
          (if header_made then amqp_send net message queue (Some (amqp_ttl ttl)) m
           else bindS (amqp_try net (NewSender queue))
                  (\<lambda>u. liftS (Panic ''invalid memory address or nil pointer dereference'')) m))"

text \<open>The loop of \<open>ReceiveMessage\<close>: what it hands to the channel until it fails, and the error.
  It ends only by failing; the receiver is closed when it does.\<close>

partial_function (option) amqp_receive_loop ::
  "amqp_net \<Rightarrow> (amqp_history \<Rightarrow> string) \<Rightarrow> nat \<Rightarrow> AmqpMessagebus \<Rightarrow> string list \<Rightarrow>
   (AmqpMessagebus \<times> string list \<times> gerror) option" where
  "amqp_receive_loop net data receiver m out =
     (case amqp_do net (AmqpReceive receiver) m of
        (m1, Some e) \<Rightarrow> Some (m1, out, e)
      | (m1, None) \<Rightarrow>
          (case amqp_do net (AmqpAccept receiver) m1 of
             (m2, Some e) \<Rightarrow> Some (m2, out, e)
           | (m2, None) \<Rightarrow> amqp_receive_loop net data receiver m2 (out @ [data (am_log m1)])))"

definition amqp_ReceiveMessage ::
  "amqp_net \<Rightarrow> (amqp_history \<Rightarrow> string) \<Rightarrow> AmqpMessagebus \<Rightarrow> string \<Rightarrow>
   (AmqpMessagebus \<times> string list \<times> unit outcome) option" where
  "amqp_ReceiveMessage net data m queue =
     (let receiver = length (am_log m) in
      case amqp_do net (NewReceiver queue 10) m of
        (m1, Some e) \<Rightarrow> Some (m1, [], Err e)
      | (m1, None) \<Rightarrow>
          map_option (\<lambda>(m2, out, e). (fst (amqp_do net (CloseReceiver receiver) m2), out, Err e))
            (amqp_receive_loop net data receiver m1 []))"

definition amqp_Close :: "amqp_net \<Rightarrow> AmqpMessagebus \<Rightarrow> AmqpMessagebus \<times> gerror option" where
  "amqp_Close net m = amqp_do net AmqpClose m"

subsection \<open>Lemmas\<close>

text \<open>The messages the broker has accepted for a queue.\<close>

fun amqp_sent :: "amqp_history \<Rightarrow> string \<Rightarrow> string list" where
  "amqp_sent [] q = []"
| "amqp_sent ((AmqpSend s q' m ttl, None) # hs) q = (if q' = q then m # amqp_sent hs q else amqp_sent hs q)"
| "amqp_sent (h # hs) q = amqp_sent hs q"

lemma amqp_sent_append [simp]: "amqp_sent (xs @ ys) q = amqp_sent xs q @ amqp_sent ys q"
  by (induction xs q rule: amqp_sent.induct) auto

lemma amqp_sent_fun: "amqp_sent (xs @ [(c, r)]) =
    (case (c, r) of (AmqpSend s q m t, None) \<Rightarrow> (amqp_sent xs)(q := amqp_sent xs q @ [m]) | _ \<Rightarrow> amqp_sent xs)"
  by (auto simp: fun_eq_iff split: amqp_call.split option.split)

lemma amqp_send_sent:
  assumes "amqp_send net msg q ttl m = (m', r)"
  shows "amqp_sent (am_log m') = (if r = Ok () then (amqp_sent (am_log m))(q := amqp_sent (am_log m) q @ [msg])
    else amqp_sent (am_log m))"
  using assms
  by (auto simp: amqp_send_def amqp_try_def amqp_do_def bindS_def Let_def amqp_sent_fun split: option.splits)

text \<open>The loop ends with an error of the network only; and it ends if the network fails some time.\<close>

lemma amqp_receive_loop_error:
  assumes "amqp_receive_loop net data receiver m out = Some r"
  shows "\<exists>h c. net h c = Some (snd (snd r))"
  by (rule amqp_receive_loop.raw_induct
      [OF _ assms, where P = "\<lambda>net data receiver m out r. \<exists>h c. net h c = Some (snd (snd r))"])
    (auto simp: amqp_do_def Let_def split: option.splits, blast+)

lemma amqp_receive_loop_ends:
  assumes "\<And>h c. N \<le> length h \<Longrightarrow> net h c \<noteq> None"
  shows "amqp_receive_loop net data receiver m out \<noteq> None"
proof (induction "N - length (am_log m)" arbitrary: m out rule: less_induct)
  case less
  show ?case
  proof (cases "N \<le> length (am_log m)")
    case True
    with assms obtain e where "net (am_log m) (AmqpReceive receiver) = Some e" by blast
    then show ?thesis by (subst amqp_receive_loop.simps) (simp add: amqp_do_def Let_def)
  next
    case False
    with less show ?thesis
      by (subst amqp_receive_loop.simps) (simp add: amqp_do_def Let_def split: option.split)
  qed
qed

subsection \<open>Properties\<close>


text \<open>A message sent without error is accepted by the broker once, on its queue; any other send
  leaves the queues alone.\<close>

lemma amqp_SendMessage_sent:
  assumes "amqp_SendMessage net m msg q = (m', r)"
  shows "amqp_sent (am_log m') = (if r = Ok () then (amqp_sent (am_log m))(q := amqp_sent (am_log m) q @ [msg])
    else amqp_sent (am_log m))"
  using amqp_send_sent assms unfolding amqp_SendMessage_def by blast

end
