(* ===== verification/Processes.thy ===== *)
theory Processes
  imports Json
begin

text \<open>
  \<^verbatim>\<open>internal/ps/ps.go\<close>, \<^verbatim>\<open>internal/ps/ps_linux.go\<close> and \<^verbatim>\<open>internal/ps/ps_windows.go\<close>: the
  table of the processes of a list of programs.

  The file system, \<open>systemctl\<close> and the Windows process snapshot are parameters.
\<close>

record Process =
  pr_Pid :: int
  pr_Running :: bool
  pr_Enabled :: bool

type_synonym process_table = "(string \<times> Process) list"

text \<open>The entry of a program that is not running; an entry that is there is kept.\<close>

definition add_missing :: "string \<Rightarrow> process_table \<Rightarrow> process_table" where
  "add_missing entry results =
     (case map_of results entry of
        Some p \<Rightarrow> results
      | None \<Rightarrow> alist_put entry \<lparr>pr_Pid = - 1, pr_Running = False, pr_Enabled = False\<rparr> results)"

subsection \<open>Linux\<close>

record UnixProcess =
  up_pid :: int
  up_ppid :: int
  up_state :: char
  up_pgrp :: int
  up_sid :: int
  up_binary :: string

text \<open>The accessors; \<open>systemctl\<close> is the error, if any, of asking whether the service of that name is enabled.\<close>

definition unix_Pid :: "UnixProcess \<Rightarrow> int" where
  "unix_Pid p = up_pid p"

definition unix_PPid :: "UnixProcess \<Rightarrow> int" where
  "unix_PPid p = up_ppid p"

definition unix_Executable :: "UnixProcess \<Rightarrow> string" where
  "unix_Executable p = up_binary p"

definition unix_Running :: "UnixProcess \<Rightarrow> bool" where
  "unix_Running p \<longleftrightarrow> up_pid p \<noteq> - 1"

definition unix_Enabled :: "(string \<Rightarrow> gerror option) \<Rightarrow> UnixProcess \<Rightarrow> bool" where
  "unix_Enabled systemctl p = (case systemctl (up_binary p) of Some e \<Rightarrow> False | None \<Rightarrow> True)"

text \<open>\<open>strings.IndexRune\<close>; \<open>-1\<close> when the character is not there.\<close>

definition index_char :: "char \<Rightarrow> string \<Rightarrow> int" where
  "index_char c s = (if c \<in> set s then int (length (takeWhile (\<lambda>x. x \<noteq> c) s)) else - 1)"

text \<open>\<open>s[lo:hi]\<close>\<close>

definition slice_string :: "string \<Rightarrow> int \<Rightarrow> int \<Rightarrow> string outcome" where
  "slice_string s lo hi =
     (if 0 \<le> lo \<and> lo \<le> hi \<and> hi \<le> int (length s) then Ok (take (nat (hi - lo)) (drop (nat lo) s))
      else Panic ''slice bounds out of range'')"

text \<open>\<open>fmt.Sscanf\<close> with \<open>%c %d %d %d\<close>: a space of the format needs one in the text, or its end, and
  takes all there are; a number may have a sign. \<open>None\<close> is a non-nil error.\<close>

definition scan_space :: "string \<Rightarrow> string option" where
  "scan_space s =
     (case s of
        [] \<Rightarrow> Some []
      | c # cs \<Rightarrow>
          (if \<not> is_space c then None
           else (case dropWhile (\<lambda>c. is_space c \<and> c \<noteq> LF) s of
                   [] \<Rightarrow> Some []
                 | d # ds \<Rightarrow> if d = LF then None else Some (d # ds))))"

definition scan_int :: "string \<Rightarrow> (int \<times> string) option" where
  "scan_int s =
     (let sign = (case s of c # cs \<Rightarrow> if c = CHR ''-'' \<or> c = CHR ''+'' then [c] else [] | [] \<Rightarrow> []);
          rest = drop (length sign) s; digits = takeWhile is_digit rest in
      if digits = [] then None
      else (case parse_int64 (sign @ digits) of
              (i, True) \<Rightarrow> Some (i, dropWhile is_digit rest)
            | (i, False) \<Rightarrow> None))"

definition scan_stat :: "string \<Rightarrow> (char \<times> int \<times> int \<times> int) option" where
  "scan_stat s =
     (case s of
        [] \<Rightarrow> None
      | c # s1 \<Rightarrow>
          Option.bind (scan_space s1) (\<lambda>s2. Option.bind (scan_int s2) (\<lambda>(ppid, s3).
          Option.bind (scan_space s3) (\<lambda>s4. Option.bind (scan_int s4) (\<lambda>(pgrp, s5).
          Option.bind (scan_space s5) (\<lambda>s6. Option.bind (scan_int s6) (\<lambda>(sid, s7).
            Some (c, ppid, pgrp, sid))))))))"

text \<open>The process and the error. After a failed scan the process has the fields scanned before it,
  which nothing reads.\<close>

definition Refresh ::
  "(string \<Rightarrow> string option) \<Rightarrow> string list \<Rightarrow> UnixProcess \<Rightarrow> (UnixProcess \<times> gerror option) outcome" where
  "Refresh readFile whitelist p =
     (case readFile (''/proc/'' @ int_dec (up_pid p) @ ''/stat'') of
        None \<Rightarrow> Ok (p, Some ''read'')
      | Some data \<Rightarrow>
          (let binStart = index_char (CHR ''('') data + 1;
               binEnd = index_char (CHR '')'') (drop (nat binStart) data) in
           outcome_bind (slice_string data binStart (binStart + binEnd)) (\<lambda>binary.
             (let p1 = p\<lparr>up_binary := binary\<rparr> in
              if binary \<notin> set whitelist then Ok (p1, Some (''Process '' @ binary @ '' not in whitelist''))
              else outcome_bind (slice_string data (binStart + binEnd + 2) (int (length data))) (\<lambda>rest.
                     case scan_stat rest of
                       None \<Rightarrow> Ok (p1, Some ''scan'')
                     | Some (c, ppid, pgrp, sid) \<Rightarrow>
                         Ok (p1\<lparr>up_state := c, up_ppid := ppid, up_pgrp := pgrp, up_sid := sid\<rparr>, None))))))"

definition newUnixProcess ::
  "(string \<Rightarrow> string option) \<Rightarrow> int \<Rightarrow> string list \<Rightarrow> (UnixProcess \<times> gerror option) outcome" where
  "newUnixProcess readFile pid whitelist =
     Refresh readFile whitelist
       \<lparr>up_pid = pid, up_ppid = 0, up_state = CHR 0x00, up_pgrp = 0, up_sid = 0, up_binary = []\<rparr>"

text \<open>One entry of the directory: its name and whether it is a directory.\<close>

definition scan_entry ::
  "(string \<Rightarrow> string option) \<Rightarrow> (string \<Rightarrow> bool) \<Rightarrow> string list \<Rightarrow> string \<times> bool \<Rightarrow> process_table \<Rightarrow> process_table outcome" where
  "scan_entry readFile isEnabled whitelist fi results =
     (case fi of
        (name, False) \<Rightarrow> Ok results
      | ([], True) \<Rightarrow> Panic ''index out of range''
      | (c # cs, True) \<Rightarrow>
          (if \<not> is_digit c then Ok results
           else (case parse_int64 (c # cs) of
                   (pid, False) \<Rightarrow> Ok results
                 | (pid, True) \<Rightarrow>
                     outcome_bind (newUnixProcess readFile pid whitelist) (\<lambda>(p, err).
                       Ok (if err \<noteq> None then results
                           else alist_put (up_binary p)
                                  \<lparr>pr_Pid = up_pid p, pr_Running = True, pr_Enabled = isEnabled (up_binary p)\<rparr> results)))))"

fun scan_entries ::
  "(string \<Rightarrow> string option) \<Rightarrow> (string \<Rightarrow> bool) \<Rightarrow> string list \<Rightarrow> (string \<times> bool) list \<Rightarrow> process_table \<Rightarrow> process_table outcome" where
  "scan_entries readFile isEnabled whitelist [] results = Ok results"
| "scan_entries readFile isEnabled whitelist (fi # fis) results =
     outcome_bind (scan_entry readFile isEnabled whitelist fi results) (scan_entries readFile isEnabled whitelist fis)"

text \<open>The calls of \<open>Readdir\<close> before the one that returns \<open>io.EOF\<close>; \<open>None\<close> is another error.\<close>

fun scan_batches ::
  "(string \<Rightarrow> string option) \<Rightarrow> (string \<Rightarrow> bool) \<Rightarrow> string list \<Rightarrow> (string \<times> bool) list option list \<Rightarrow>
   process_table \<Rightarrow> process_table outcome" where
  "scan_batches readFile isEnabled whitelist [] results = Ok results"
| "scan_batches readFile isEnabled whitelist (None # bs) results = Err ''readdir''"
| "scan_batches readFile isEnabled whitelist (Some fis # bs) results =
     outcome_bind (scan_entries readFile isEnabled whitelist fis results)
       (scan_batches readFile isEnabled whitelist bs)"

text \<open>\<open>proc\<close> is the directory \<open>/proc\<close>, if it can be opened.\<close>

definition processes ::
  "(string \<Rightarrow> string option) \<Rightarrow> (string \<Rightarrow> bool) \<Rightarrow> (string \<times> bool) list option list option \<Rightarrow> string list \<Rightarrow>
   process_table outcome" where
  "processes readFile isEnabled proc whitelist =
     (case proc of
        None \<Rightarrow> Err ''open /proc''
      | Some batches \<Rightarrow>
          outcome_bind (scan_batches readFile isEnabled whitelist batches []) (\<lambda>results.
            Ok (fold add_missing whitelist results)))"

subsection \<open>Windows\<close>

text \<open>An entry of the snapshot, with the 260 code units of its name.\<close>

record PROCESSENTRY32 =
  pe_ProcessID :: int
  pe_ParentProcessID :: int
  pe_ExeFile :: "nat list"

record WindowsProcess =
  wp_pid :: int
  wp_ppid :: int
  wp_exe :: string

definition windows_Pid :: "WindowsProcess \<Rightarrow> int" where
  "windows_Pid p = wp_pid p"

definition windows_PPid :: "WindowsProcess \<Rightarrow> int" where
  "windows_PPid p = wp_ppid p"

definition windows_Executable :: "WindowsProcess \<Rightarrow> string" where
  "windows_Executable p = wp_exe p"

definition windows_Running :: "WindowsProcess \<Rightarrow> bool" where
  "windows_Running p \<longleftrightarrow> wp_pid p \<noteq> - 1"

text \<open>\<open>syscall.UTF16ToString\<close>: surrogates that do not pair become the replacement character.\<close>

fun utf16_string :: "nat list \<Rightarrow> string" where
  "utf16_string [] = []"
| "utf16_string (u # us) =
     (if 55296 \<le> u \<and> u < 56320 then
        (case us of
           v # vs \<Rightarrow>
             (if 56320 \<le> v \<and> v < 57344
              then utf8 (65536 + (u - 55296) * 1024 + (v - 56320)) @ utf16_string vs
              else utf8 65533 @ utf16_string us)
         | [] \<Rightarrow> utf8 65533)
      else if 56320 \<le> u \<and> u < 57344 then utf8 65533 @ utf16_string us
      else utf8 u @ utf16_string us)"

text \<open>The name ends at the first zero; without one the search runs off the array.\<close>

definition newWindowsProcess :: "PROCESSENTRY32 \<Rightarrow> WindowsProcess outcome" where
  "newWindowsProcess e =
     (if 0 \<notin> set (pe_ExeFile e) then Panic ''index out of range''
      else Ok \<lparr>wp_pid = pe_ProcessID e, wp_ppid = pe_ParentProcessID e,
               wp_exe = utf16_string (takeWhile (\<lambda>u. u \<noteq> 0) (pe_ExeFile e))\<rparr>)"

text \<open>The loop over the snapshot. The \<open>continue\<close> after a program that is not on the list does not move
  on to the next entry, so the loop then looks at the same one for ever: \<open>None\<close>.\<close>

partial_function (option) windows_scan ::
  "string list \<Rightarrow> PROCESSENTRY32 \<Rightarrow> PROCESSENTRY32 list \<Rightarrow> process_table \<Rightarrow>
   process_table outcome option" where
  "windows_scan whitelist e es results =
     (case newWindowsProcess e of
        Ok p \<Rightarrow>
          (if wp_exe p \<notin> (\<lambda>x. x @ ''.exe'') ` set whitelist then windows_scan whitelist e es results
           else (let r = alist_put (wp_exe p) \<lparr>pr_Pid = wp_pid p, pr_Running = True, pr_Enabled = False\<rparr> results in
                 case es of
                   [] \<Rightarrow> Some (Ok r)
                 | e' # es' \<Rightarrow> windows_scan whitelist e' es' r))
      | Err x \<Rightarrow> Some (Err x)
      | Panic w \<Rightarrow> Some (Panic w)
      | Exit n \<Rightarrow> Some (Exit n))"

definition windows_processes ::
  "PROCESSENTRY32 list \<Rightarrow> string list \<Rightarrow> process_table outcome option" where
  "windows_processes snapshot whitelist =
     (case snapshot of
        [] \<Rightarrow> Some (Err ''Error retrieving process info.'')
      | e # es \<Rightarrow>
          map_option (\<lambda>r. outcome_bind r (\<lambda>results. Ok (fold add_missing whitelist results)))
            (windows_scan whitelist e es []))"

subsection \<open>Lemmas\<close>

text \<open>The program an entry of \<open>/proc\<close> stands for, with its number, if it is one on the list.\<close>

definition program_of :: "(string \<Rightarrow> string option) \<Rightarrow> string list \<Rightarrow> string \<times> bool \<Rightarrow> (string \<times> int) option" where
  "program_of readFile whitelist fi =
     (case fi of
        (c # cs, True) \<Rightarrow>
          (if is_digit c then
             (case parse_int64 (c # cs) of
                (pid, True) \<Rightarrow>
                  (case newUnixProcess readFile pid whitelist of
                     Ok (p, None) \<Rightarrow> Some (up_binary p, up_pid p)
                   | _ \<Rightarrow> None)
              | _ \<Rightarrow> None)
           else None)
      | _ \<Rightarrow> None)"

definition found_process :: "(string \<Rightarrow> bool) \<Rightarrow> string \<times> int \<Rightarrow> string \<times> Process" where
  "found_process isEnabled b = (fst b, \<lparr>pr_Pid = snd b, pr_Running = True, pr_Enabled = isEnabled (fst b)\<rparr>)"

definition not_running :: Process where
  "not_running = \<lparr>pr_Pid = - 1, pr_Running = False, pr_Enabled = False\<rparr>"

lemma scan_entry_Ok:
  "scan_entry readFile isEnabled wl fi r = Ok r' \<Longrightarrow>
     r' = (case program_of readFile wl fi of
             None \<Rightarrow> r | Some b \<Rightarrow> (case found_process isEnabled b of (k, p) \<Rightarrow> alist_put k p r))"
  by (auto simp: scan_entry_def program_of_def found_process_def outcome_bind_Ok_iff
      split: prod.splits list.splits bool.splits if_splits option.splits)

lemma scan_entries_Ok:
  "scan_entries readFile isEnabled wl fis r = Ok r' \<Longrightarrow>
     r' = fold (\<lambda>(k, p). alist_put k p) (map (found_process isEnabled) (List.map_filter (program_of readFile wl) fis)) r"
proof (induction fis arbitrary: r)
  case (Cons fi fis)
  then obtain r1 where r1: "scan_entry readFile isEnabled wl fi r = Ok r1" "scan_entries readFile isEnabled wl fis r1 = Ok r'"
    by (auto simp: outcome_bind_Ok_iff)
  from Cons.IH [OF r1(2)] scan_entry_Ok [OF r1(1)] show ?case
    by (cases "program_of readFile wl fi") (auto simp: map_filter_def split: prod.splits)
qed (simp add: map_filter_def)

lemma scan_batches_Ok:
  "scan_batches readFile isEnabled wl (map Some fss) r = Ok r' \<Longrightarrow>
     r' = fold (\<lambda>(k, p). alist_put k p)
            (map (found_process isEnabled) (List.map_filter (program_of readFile wl) (concat fss))) r"
proof (induction fss arbitrary: r)
  case (Cons fis fss)
  then obtain r1 where r1: "scan_entries readFile isEnabled wl fis r = Ok r1"
    "scan_batches readFile isEnabled wl (map Some fss) r1 = Ok r'" by (auto simp: outcome_bind_Ok_iff)
  from Cons.IH [OF r1(2)] scan_entries_Ok [OF r1(1)] show ?case by (simp add: map_filter_def)
qed (simp add: map_filter_def)

lemma map_of_fold_put: "map_of (fold (\<lambda>(k, p). alist_put k p) xs r) = map_of r ++ map_of (rev xs)"
  by (induction xs arbitrary: r) (auto simp: fun_eq_iff map_add_def split: option.split)

lemma distinct_fold_put: "distinct (map fst r) \<Longrightarrow> distinct (map fst (fold (\<lambda>(k, p). alist_put k p) xs r))"
  by (induction xs arbitrary: r) (simp_all add: case_prod_beta)

lemma map_of_add_missing:
  "map_of (fold add_missing wl r) b =
     (case map_of r b of Some p \<Rightarrow> Some p | None \<Rightarrow> if b \<in> set wl then Some not_running else None)"
  by (induction wl arbitrary: r) (auto simp: add_missing_def not_running_def split: option.splits)

lemma distinct_add_missing: "distinct (map fst r) \<Longrightarrow> distinct (map fst (fold add_missing wl r))"
  by (induction wl arbitrary: r) (simp_all add: add_missing_def split: option.split)

lemma Refresh_listed: "Refresh readFile wl p = Ok (p', None) \<Longrightarrow> up_binary p' \<in> set wl \<and> up_pid p' = up_pid p"
  by (auto simp: Refresh_def Let_def outcome_bind_Ok_iff split: option.splits if_splits prod.splits)

lemma parse_int64_digit: "is_digit c \<Longrightarrow> parse_int64 (c # cs) = (i, True) \<Longrightarrow> 0 \<le> i"
  by (auto simp: parse_int64_def clamp_int64_def is_digit_def split: if_splits option.splits)

lemma program_of_listed:
  "program_of readFile wl fi = Some (b, pid) \<Longrightarrow> b \<in> set wl \<and> 0 \<le> pid"
  unfolding program_of_def newUnixProcess_def
  by (auto split: prod.splits list.splits bool.splits if_splits outcome.splits option.splits
      dest!: Refresh_listed dest: parse_int64_digit)

lemma map_filter_member: "y \<in> set (List.map_filter f xs) \<longleftrightarrow> (\<exists>x\<in>set xs. f x = Some y)"
  by (induction xs) (auto simp: map_filter_def)

lemma map_of_found:
  "map_of (map (found_process isEnabled) bs) b =
     map_option (\<lambda>pid. \<lparr>pr_Pid = pid, pr_Running = True, pr_Enabled = isEnabled b\<rparr>) (map_of bs b)"
  by (induction bs) (auto simp: found_process_def)

subsection \<open>Properties\<close>

text \<open>C38: the table of processes on Linux: whenever it is returned, it has one entry for each program
  on the list and none for any other; a program that the directory holds is running, with the
  number of the last process found under its name, and every other one is not running, with the
  number \<open>-1\<close>; and an entry is running exactly when its number is not negative.\<close>

theorem processes_table:
  assumes "processes readFile isEnabled (Some (map Some fss)) wl = Ok m"
  shows "distinct (map fst m) \<and> dom (map_of m) = set wl
    \<and> (\<forall>b\<in>set wl. map_of m b =
         Some (case map_of (rev (List.map_filter (program_of readFile wl) (concat fss))) b of
                 None \<Rightarrow> not_running
               | Some pid \<Rightarrow> \<lparr>pr_Pid = pid, pr_Running = True, pr_Enabled = isEnabled b\<rparr>))
    \<and> (\<forall>p\<in>ran (map_of m). pr_Running p = (0 \<le> pr_Pid p))"
proof -
  let ?bs = "List.map_filter (program_of readFile wl) (concat fss)"
  let ?r = "fold (\<lambda>(k, p). alist_put k p) (map (found_process isEnabled) ?bs) []"
  from assms have m: "m = fold add_missing wl ?r"
    by (auto simp: processes_def outcome_bind_Ok_iff dest!: scan_batches_Ok)
  have r: "map_of ?r b = map_option (\<lambda>pid. \<lparr>pr_Pid = pid, pr_Running = True, pr_Enabled = isEnabled b\<rparr>) (map_of (rev ?bs) b)" for b
    by (simp add: map_of_fold_put rev_map map_of_found)
  have listed: "b \<in> set wl \<and> 0 \<le> pid" if "map_of (rev ?bs) b = Some pid" for b pid
    using map_of_SomeD [OF that] by (auto simp: map_filter_member dest: program_of_listed)
  have entry: "map_of m b = (case map_of (rev ?bs) b of
      Some pid \<Rightarrow> Some \<lparr>pr_Pid = pid, pr_Running = True, pr_Enabled = isEnabled b\<rparr>
    | None \<Rightarrow> if b \<in> set wl then Some not_running else None)" for b
    unfolding m map_of_add_missing r by (auto split: option.split)
  have "distinct (map fst m)" unfolding m by (intro distinct_add_missing distinct_fold_put) simp
  moreover have "dom (map_of m) = set wl"
    by (auto simp: entry dom_def dest: listed split: option.splits if_splits)
  moreover have "pr_Running p = (0 \<le> pr_Pid p)" if "map_of m b = Some p" for b p
    using that by (auto simp: entry not_running_def dest: listed split: option.splits if_splits)
  moreover have "\<forall>b\<in>set wl. map_of m b =
      Some (case map_of (rev ?bs) b of
              None \<Rightarrow> not_running
            | Some pid \<Rightarrow> \<lparr>pr_Pid = pid, pr_Running = True, pr_Enabled = isEnabled b\<rparr>)"
    by (simp add: entry split: option.split)
  ultimately show ?thesis unfolding ran_def by blast
qed

text \<open>Two programs are asked for; one runs, under the number 17.\<close>

definition example_stat :: "string \<Rightarrow> string option" where
  "example_stat path = (if path = ''/proc/17/stat'' then Some ''17 (redfishread) S 1 17 17 0'' else None)"

theorem processes_table_witness:
  "\<exists>m. processes example_stat (\<lambda>_. True) (Some (map Some [[(''self'', True), (''17'', True)], [(''18'', True), (''9x'', True)]]))
        [''redfishread'', ''simpleauth''] = Ok m
    \<and> map_of m ''redfishread'' = Some \<lparr>pr_Pid = 17, pr_Running = True, pr_Enabled = True\<rparr>
    \<and> map_of m ''simpleauth'' = Some not_running"
proof -
  let ?fss = "[[(''self'', True), (''17'', True)], [(''18'', True), (''9x'', True)]]"
  let ?wl = "[''redfishread'', ''simpleauth'']"
  have found: "List.map_filter (program_of example_stat ?wl) (concat ?fss) = [(''redfishread'', 17)]" by code_simp
  obtain m where "processes example_stat (\<lambda>_. True) (Some (map Some ?fss)) ?wl = Ok m"
  proof -
    have "is_ok (processes example_stat (\<lambda>_. True) (Some (map Some ?fss)) ?wl)" by code_simp
    with that show ?thesis by (auto simp: is_ok_iff)
  qed
  with processes_table [OF this] show ?thesis unfolding found by simp
qed

text \<open>The snapshot of Windows.\<close>

definition exe_name :: "PROCESSENTRY32 \<Rightarrow> string" where
  "exe_name e = utf16_string (takeWhile (\<lambda>u. u \<noteq> 0) (pe_ExeFile e))"

definition on_list :: "string list \<Rightarrow> PROCESSENTRY32 \<Rightarrow> bool" where
  "on_list whitelist e \<longleftrightarrow> exe_name e \<in> (\<lambda>x. x @ ''.exe'') ` set whitelist"

lemma windows_scan_all:
  "\<forall>x\<in>set (e # es). 0 \<in> set (pe_ExeFile x) \<and> on_list wl x \<Longrightarrow>
     \<exists>m. windows_scan wl e es r = Some (Ok m) \<and> fst ` set m = fst ` set r \<union> exe_name ` set (e # es)"
proof (induction es arbitrary: e r)
  case Nil
  then show ?case by (simp add: windows_scan.simps newWindowsProcess_def on_list_def exe_name_def)
next
  case (Cons e' es)
  let ?r = "alist_put (exe_name e) \<lparr>pr_Pid = pe_ProcessID e, pr_Running = True, pr_Enabled = False\<rparr> r"
  from Cons.prems have "windows_scan wl e (e' # es) r = windows_scan wl e' es ?r"
    by (simp add: windows_scan.simps [of wl e] newWindowsProcess_def on_list_def exe_name_def Let_def)
  moreover from Cons.IH [of e' ?r] Cons.prems obtain m where "windows_scan wl e' es ?r = Some (Ok m)"
    "fst ` set m = fst ` set ?r \<union> exe_name ` set (e' # es)" by auto
  ultimately show ?case by auto
qed

lemma windows_scan_returns:
  assumes "windows_scan wl e es r = Some x"
  shows "(\<forall>y\<in>set (e # es). 0 \<in> set (pe_ExeFile y)) \<longrightarrow> (\<forall>y\<in>set (e # es). on_list wl y)"
proof (rule windows_scan.raw_induct [OF _ assms,
      where P = "\<lambda>wl e es r x. (\<forall>y\<in>set (e # es). 0 \<in> set (pe_ExeFile y)) \<longrightarrow> (\<forall>y\<in>set (e # es). on_list wl y)"])
  fix f wl e es r x
  assume hyp: "\<And>wl e es r x. f wl e es r = Some x \<Longrightarrow>
      (\<forall>y\<in>set (e # es). 0 \<in> set (pe_ExeFile y)) \<longrightarrow> (\<forall>y\<in>set (e # es). on_list wl y)"
    and body: "(case newWindowsProcess e of
        Ok p \<Rightarrow>
          (if wp_exe p \<notin> (\<lambda>x. x @ ''.exe'') ` set wl then f wl e es r
           else (let r = alist_put (wp_exe p) \<lparr>pr_Pid = wp_pid p, pr_Running = True, pr_Enabled = False\<rparr> r in
                 case es of
                   [] \<Rightarrow> Some (Ok r)
                 | e' # es' \<Rightarrow> f wl e' es' r))
      | Err x \<Rightarrow> Some (Err x)
      | Panic w \<Rightarrow> Some (Panic w)
      | Exit n \<Rightarrow> Some (Exit n)) = Some x"
  show "(\<forall>y\<in>set (e # es). 0 \<in> set (pe_ExeFile y)) \<longrightarrow> (\<forall>y\<in>set (e # es). on_list wl y)"
  proof
    assume z: "\<forall>y\<in>set (e # es). 0 \<in> set (pe_ExeFile y)"
    then have p: "newWindowsProcess e = Ok \<lparr>wp_pid = pe_ProcessID e, wp_ppid = pe_ParentProcessID e, wp_exe = exe_name e\<rparr>"
      by (simp add: newWindowsProcess_def exe_name_def)
    show "\<forall>y\<in>set (e # es). on_list wl y"
    proof (cases "on_list wl e")
      case True
      show ?thesis
      proof (cases es)
        case (Cons e' es')
        with body True obtain r' where "f wl e' es' r' = Some x" by (simp add: p on_list_def Let_def)
        from hyp [OF this] z True Cons show ?thesis by simp
      qed (simp add: True)
    next
      case False
      with body have "f wl e es r = Some x" by (simp add: p on_list_def)
      from hyp [OF this] z show ?thesis by simp
    qed
  qed
qed

text \<open>On Windows, whatever the list: the table is returned only when every process of the
  system is a program of the list, which no system is; and when it is, the programs that run are
  entered under their file names, so every name of the list that is not itself such a file
  name is said not to be running.\<close>

theorem windows_processes_returns:
  assumes "\<forall>e\<in>set snapshot. 0 \<in> set (pe_ExeFile e)" and "snapshot \<noteq> []"
  shows "(windows_processes snapshot wl \<noteq> None) = (\<forall>e\<in>set snapshot. on_list wl e)
    \<and> (\<forall>m. windows_processes snapshot wl = Some (Ok m) \<longrightarrow>
        (\<forall>b\<in>set wl. b \<notin> exe_name ` set snapshot \<longrightarrow> map_of m b = Some not_running))"
proof -
  obtain e es where s: "snapshot = e # es" using assms(2) by (cases snapshot) auto
  have z: "\<forall>x\<in>set (e # es). 0 \<in> set (pe_ExeFile x)" using assms(1) by (simp add: s)
  show ?thesis
  proof (cases "\<forall>x\<in>set (e # es). on_list wl x")
    case True
    with z windows_scan_all [of e es wl "[]"] obtain r where
      r: "windows_scan wl e es [] = Some (Ok r)" "fst ` set r = exe_name ` set (e # es)" by auto
    have "map_of (fold add_missing wl r) b = Some not_running" if "b \<in> set wl" "b \<notin> exe_name ` set (e # es)" for b
    proof -
      have "map_of r b = None" using that(2) r(2) by (simp add: map_of_eq_None_iff)
      with that(1) show ?thesis by (simp add: map_of_add_missing)
    qed
    with True r(1) show ?thesis by (simp add: windows_processes_def s)
  next
    case False
    with z windows_scan_returns have "windows_scan wl e es [] = None" by (cases "windows_scan wl e es []") blast+
    with False show ?thesis by (auto simp: windows_processes_def s)
  qed
qed

theorem windows_processes_returns_witness:
  "windows_processes [\<lparr>pe_ProcessID = 4, pe_ParentProcessID = 0, pe_ExeFile = [83, 46, 101, 120, 101, 0]\<rparr>] [''redfishread''] = None"
proof -
  let ?e = "\<lparr>pe_ProcessID = 4, pe_ParentProcessID = 0, pe_ExeFile = [83, 46, 101, 120, 101, 0]\<rparr>"
  have "length (exe_name ?e) = 5" by (simp add: exe_name_def utf8_def)
  then have "\<not> on_list [''redfishread''] ?e" by (auto simp: on_list_def)
  with windows_processes_returns [of "[?e]" "[''redfishread'']"] show ?thesis by simp
qed

end
