(* ===== verification/Simulator.thy ===== *)
theory Simulator
  imports Pumps
begin

text \<open>
  \<^verbatim>\<open>utilities/source-simulator\<close>: a server that streams made-up metric reports over server-sent
  events, for tests without a device. Its broker (\<^verbatim>\<open>ssebroker.go\<close>) keeps a channel for every
  client and hands each event to them; its handler (\<^verbatim>\<open>source-simulator.go\<close>) starts a
  goroutine that makes a report every ten seconds and streams what it takes from the channel of
  the broker's events.

  A client's channel is a number. The web framework is not modelled.
\<close>

subsection \<open>The report\<close>

definition quoted :: "string \<Rightarrow> string" where
  "quoted s = DQ # s @ [DQ]"

definition report_field :: "string \<Rightarrow> string \<Rightarrow> string" where
  "report_field k v = quoted k @ '': '' @ quoted v"

definition GetMetricReport :: string where
  "GetMetricReport =
     (let header = report_field ''@odata.type'' ''#MetricReport.v1_4_1.MetricReport'' @ '', ''
            @ report_field ''@odata.context'' ''/redfish/v1/$metadata#MetricReport.MetricReport'' @ '', ''
            @ report_field ''@odata.id'' ''/redfish/v1/TelemetryService/MetricReports/REPORTNAME'' @ '', ''
            @ report_field ''Id'' ''REPORTNAME'' @ '', '' @ report_field ''Name'' ''REPORTNAME Metric Report'' @ '', ''
            @ report_field ''ReportSequence'' ''REPORTSEQUENCE'' @ '', '' @ report_field ''Timestamp'' ''TIMESTAMP'' @ '',  ''
            @ quoted ''MetricReportDefinition'' @ '': {''
            @ report_field ''@odata.id'' ''/redfish/v1/TelemetryService/MetricReportDefinitions/REPORTNAME'' @ ''},'';
          footer = quoted ''Oem'' @ '': {'' @ quoted ''Dell'' @ '': {''
            @ report_field ''@odata.type'' ''#DellMetricReport.v1_0_0.DellMetricReport'' @ '',''
            @ report_field ''ServiceTag'' ''SERVICETAG'' @ '',''
            @ report_field ''MetricReportDefinitionDigest'' ''DIGEST'' @ '',''
            @ report_field ''iDRACFirmwareVersion'' ''FWVERSION'' @ ''}}'' in
      ''{'' @ header @ footer @ ''}'')"

subsection \<open>The broker\<close>

text \<open>\<open>TotalClients\<close> is a list in the order it is traversed.\<close>

record SSEBroker =
  br_TotalClients :: "nat list"

definition NewSSEBroker :: SSEBroker where
  "NewSSEBroker = \<lparr>br_TotalClients = []\<rparr>"

datatype broker_case = NewClient nat | ClosedClient nat | Message_case string

text \<open>One turn of \<open>Listen\<close>: the new broker and what its clients have taken. A client that does not
  take the event within five seconds is passed over.\<close>

definition broker_turn :: "(nat \<Rightarrow> bool) \<Rightarrow> broker_case \<Rightarrow> SSEBroker \<Rightarrow> SSEBroker \<times> (nat \<times> string) list" where
  "broker_turn takes c br =
     (case c of
        NewClient s \<Rightarrow>
          (if s \<in> set (br_TotalClients br) then br else br\<lparr>br_TotalClients := br_TotalClients br @ [s]\<rparr>, [])
      | ClosedClient s \<Rightarrow> (br\<lparr>br_TotalClients := filter (\<lambda>x. x \<noteq> s) (br_TotalClients br)\<rparr>, [])
      | Message_case event \<Rightarrow> (br, map (\<lambda>s. (s, event)) (filter takes (br_TotalClients br))))"

fun Listen :: "(nat \<Rightarrow> bool) \<Rightarrow> broker_case list \<Rightarrow> SSEBroker \<Rightarrow> SSEBroker \<times> (nat \<times> string) list" where
  "Listen takes [] br = (br, [])"
| "Listen takes (c # cs) br =
     (case broker_turn takes c br of
        (br1, out) \<Rightarrow> (case Listen takes cs br1 of (br2, outs) \<Rightarrow> (br2, out @ outs)))"

subsection \<open>The server\<close>

text \<open>The headers every answer gets.\<close>

definition HeadersMiddleware :: "(string \<times> string) list \<Rightarrow> (string \<times> string) list" where
  "HeadersMiddleware header =
     alist_put ''Transfer-Encoding'' ''chunked'' (alist_put ''Connection'' ''keep-alive''
       (alist_put ''Cache-Control'' ''no-cache'' (alist_put ''Content-Type'' ''text/event-stream'' header)))"

definition simulator_settings :: "(string \<Rightarrow> string) \<Rightarrow> settings" where
  "simulator_settings env =
     set_nonempty ''password'' (env ''SIMULATOR_USERPASSWORD'') (set_nonempty ''user'' (env ''SIMULATOR_USERNAME'')
       [(''user'', ''testuser''), (''password'', ''testpassword'')])"

text \<open>The state of the server: the broker, the requests that are streaming, those that are being
  refused (another path, or no valid user and password), the goroutines that make reports, how many reports have been made, what each request has been sent and what the broker
  has taken from its channel of events.\<close>

record simulator =
  si_broker :: SSEBroker
  si_streams :: "nat list"
  si_refused :: "nat list"
  si_next :: nat
  si_generators :: nat
  si_made :: nat
  si_sent :: "(nat \<times> string) list"
  si_taken :: "string list"
  si_delivered :: "(nat \<times> string) list"

definition simulator_start :: simulator where
  "simulator_start = \<lparr>si_broker = NewSSEBroker, si_streams = [], si_refused = [], si_next = 0, si_generators = 0, si_made = 0,
     si_sent = [], si_taken = [], si_delivered = []\<rparr>"

text \<open>A request: \<open>ServeHTTP\<close> announces a new channel before the user is checked; then the handler
  starts its goroutine and streams, or the request is refused. When it ends the channel is
  closed; the goroutine goes on. A report is handed
  to one of those who wait on the channel of events: a stream, which sends it to its client, or
  the broker, which hands it to the channels of its clients. Nothing in the program receives
  from these, so none takes it.\<close>

inductive simulator_step :: "simulator \<Rightarrow> simulator \<Rightarrow> bool" where
  step_request: "broker_turn takes (NewClient (si_next s)) (si_broker s) = (br, out) \<Longrightarrow>
     simulator_step s (s\<lparr>si_broker := br, si_streams := si_streams s @ [si_next s], si_next := Suc (si_next s),
       si_generators := Suc (si_generators s)\<rparr>)"
| step_refused: "broker_turn takes (NewClient (si_next s)) (si_broker s) = (br, out) \<Longrightarrow>
     simulator_step s (s\<lparr>si_broker := br, si_refused := si_refused s @ [si_next s], si_next := Suc (si_next s)\<rparr>)"
| step_closed: "n \<in> set (si_streams s @ si_refused s) \<Longrightarrow> broker_turn takes (ClosedClient n) (si_broker s) = (br, out) \<Longrightarrow>
     simulator_step s (s\<lparr>si_broker := br, si_streams := filter (\<lambda>x. x \<noteq> n) (si_streams s),
       si_refused := filter (\<lambda>x. x \<noteq> n) (si_refused s)\<rparr>)"
| step_streamed: "0 < si_generators s \<Longrightarrow> n \<in> set (si_streams s) \<Longrightarrow>
     simulator_step s (s\<lparr>si_made := Suc (si_made s), si_sent := si_sent s @ [(n, GetMetricReport)]\<rparr>)"
| step_taken: "0 < si_generators s \<Longrightarrow>
     broker_turn (\<lambda>n. False) (Message_case GetMetricReport) (si_broker s) = (br, out) \<Longrightarrow>
     simulator_step s (s\<lparr>si_broker := br, si_made := Suc (si_made s), si_taken := si_taken s @ [GetMetricReport],
       si_delivered := si_delivered s @ out\<rparr>)"

inductive simulator_reachable :: "simulator \<Rightarrow> bool" where
  reach_start: "simulator_reachable simulator_start"
| reach_step: "simulator_reachable s \<Longrightarrow> simulator_step s s' \<Longrightarrow> simulator_reachable s'"

inductive_cases simulator_stepE: "simulator_step s s'"

subsection \<open>Lemmas\<close>

lemma broker_turn_simps [simp]:
  "broker_turn takes (NewClient n) br =
     (if n \<in> set (br_TotalClients br) then br else br\<lparr>br_TotalClients := br_TotalClients br @ [n]\<rparr>, [])"
  "broker_turn takes (ClosedClient n) br = (br\<lparr>br_TotalClients := filter (\<lambda>x. x \<noteq> n) (br_TotalClients br)\<rparr>, [])"
  "broker_turn takes (Message_case e) br = (br, map (\<lambda>s. (s, e)) (filter takes (br_TotalClients br)))"
  by (simp_all add: broker_turn_def)

definition simulator_inv :: "simulator \<Rightarrow> bool" where
  "simulator_inv s \<longleftrightarrow>
     set (br_TotalClients (si_broker s)) = set (si_streams s) \<union> set (si_refused s)
     \<and> distinct (br_TotalClients (si_broker s)) \<and> distinct (si_streams s) \<and> length (si_streams s) \<le> si_generators s
     \<and> (\<forall>n\<in>set (si_streams s) \<union> set (si_refused s). n < si_next s)
     \<and> si_made s = length (si_sent s) + length (si_taken s) \<and> si_delivered s = []"

lemma simulator_inv_step:
  assumes "simulator_inv s" and "simulator_step s s'"
  shows "simulator_inv s'"
  using assms(2,1)
proof (cases rule: simulator_step.cases)
  case (step_request takes br out)
  then have "si_next s \<notin> set (br_TotalClients (si_broker s))" using assms(1) by (auto simp: simulator_inv_def)
  with step_request assms(1) show ?thesis by (fastforce simp: simulator_inv_def less_Suc_eq)
next
  case (step_refused takes br out)
  then have "si_next s \<notin> set (br_TotalClients (si_broker s))" using assms(1) by (auto simp: simulator_inv_def)
  with step_refused assms(1) show ?thesis by (fastforce simp: simulator_inv_def less_Suc_eq)
next
  case (step_closed n takes br out)
  then show ?thesis using assms(1) length_filter_le [of "\<lambda>x. x \<noteq> n" "si_streams s"]
    by (auto simp: simulator_inv_def simp del: length_filter_le)
qed (use assms(1) in \<open>auto simp: simulator_inv_def\<close>)

lemma simulator_reachable_inv: "simulator_reachable s \<Longrightarrow> simulator_inv s"
proof (induction rule: simulator_reachable.induct)
  case reach_start
  show ?case by (simp add: simulator_start_def simulator_inv_def NewSSEBroker_def)
next
  case (reach_step s s')
  then show ?case by (blast intro: simulator_inv_step)
qed

text \<open>A broker whose clients take what they are given does broadcast.\<close>

lemma Listen_broadcast:
  "distinct (br_TotalClients br) \<Longrightarrow>
     Listen (\<lambda>_. True) [Message_case e] br = (br, map (\<lambda>s. (s, e)) (br_TotalClients br))"
  by simp

subsection \<open>Property\<close>



end
