(* ===== verification/Spec2Isabelle.thy ===== *)
theory Spec2Isabelle
  imports ReaderProps RedfishWalk PumpRuns ConfigReads Starts EsPlugin Amqp Processes Simulator
begin

text \<open>
  A verification development for the iDRAC Telemetry Reference Tools, a pipeline of Go programs
  that collects metric reports and alerts from servers and hands them to databases.

  \<^bold>\<open>The program.\<close> The programs talk over a message bus (\<^verbatim>\<open>internal/messagebus\<close>) in envelopes of JSON
  (\<^verbatim>\<open>internal/wire\<close>), as requests and replies (\<^verbatim>\<open>internal/service\<close>). \<^verbatim>\<open>cmd/configui\<close> is the page on
  which systems are added; \<^verbatim>\<open>cmd/dbdiscauth\<close> keeps them in a database and broadcasts them
  (\<^verbatim>\<open>internal/auth\<close>), or \<^verbatim>\<open>cmd/simpledisc\<close> and \<^verbatim>\<open>cmd/simpleauth\<close> read them from a file. \<^verbatim>\<open>cmd/redfishread\<close>
  with \<^verbatim>\<open>pkg/redfishread\<close> opens the event streams of every system (\<^verbatim>\<open>internal/redfish\<close>,
  \<^verbatim>\<open>internal/sse\<close>), turns reports into groups of values and broadcasts them on the data bus
  (\<^verbatim>\<open>internal/databus\<close>) to the queues that subscribed; each \<^verbatim>\<open>cmd/*pump\<close> subscribes and writes the
  groups to its database, under settings that \<^verbatim>\<open>internal/config\<close> sets from the page.

  \<^bold>\<open>How it is modelled.\<close> A function with an error result is a function into \<open>outcome\<close>, which also has
  run-time panics and exits; code that changes a state takes and returns it (\<open>('s, 'a) go\<close>). A
  struct is a record, a map whose order shows is an association list, a slice that may be nil an
  option. Integers have their width where it shows: 16 bits in the counter of retries, 64 in
  times to live and in \<open>strconv\<close>. What a program receives is a list of messages or of turns;
  goroutines are interleaved where their order matters, by step relations (\<open>reader_step\<close>, \<open>dbauth_step\<close>,
  \<open>call_step\<close>, \<open>simulator_step\<close>) or as sequences of events (\<open>run_events\<close>, for the pumps that are
  configured while they run). The network, files, clocks, sources of random numbers and all
  third-party clients are arguments of the definitions that use them.

  \<^bold>\<open>Theories.\<close>
  \<^item> \<open>Prelude\<close>: outcomes, the monad of state and outcome, invariants of computations, maps.
  \<^item> \<open>GoStrings\<close>, \<open>Json\<close>, \<open>GoFloat\<close>, \<open>FloatText\<close>, \<open>GoTime\<close>: what is used of the standard library,
    with its round trips (JSON text, RFC 3339 times, numbers).
  \<^item> \<open>Wire\<close>: \<^verbatim>\<open>internal/wire\<close>. \<open>Bus\<close>: \<^verbatim>\<open>internal/messagebus\<close> and \<^verbatim>\<open>internal/mock\<close>, with the locales
    \<open>message_bus\<close> and \<open>partial_bus\<close>: what the clients of a bus rely on.
  \<^item> \<open>Brokers\<close>: \<^verbatim>\<open>internal/messagebus/kafka\<close> and \<^verbatim>\<open>stomp\<close>, both interpretations of these locales.
    \<open>Amqp\<close>: \<^verbatim>\<open>internal/messagebus/amqp\<close>, which is none, since its subscriptions do not return.
  \<^item> \<open>Service\<close>: \<^verbatim>\<open>internal/service\<close>, with calls in flight as a step relation. \<open>Auth\<close>, \<open>Databus\<close>,
    \<open>Config\<close>, \<open>Discovery\<close>: \<^verbatim>\<open>internal/auth\<close>, \<^verbatim>\<open>internal/databus\<close>, \<^verbatim>\<open>internal/config\<close>, and \<^verbatim>\<open>internal/disc\<close>
    with \<^verbatim>\<open>internal/state\<close>, \<^verbatim>\<open>cmd/simpledisc\<close> and \<^verbatim>\<open>cmd/simpleauth\<close>. Their lemmas are proved for every
    \<open>message_bus\<close>.
  \<^item> \<open>Sse\<close>, \<open>EventSource\<close>: \<^verbatim>\<open>internal/sse\<close>. \<open>Redfish\<close>, \<open>RedfishStreams\<close>, \<open>RedfishWalk\<close>:
    \<^verbatim>\<open>internal/redfish\<close>.
  \<^item> \<open>Reports\<close>, \<open>Readers\<close>, \<open>ReaderProps\<close>: \<^verbatim>\<open>pkg/redfishread\<close> and \<^verbatim>\<open>cmd/redfishread\<close>: the parsing of
    reports and alerts, the steps of the reader over its table of devices, its properties.
  \<^item> \<open>Pumps\<close>: what the pumps share. \<open>Kafkapump\<close>, \<open>Splunkpump\<close>, \<open>Gauges\<close> (\<^verbatim>\<open>prometheuspump\<close> and
    \<^verbatim>\<open>victoriapump\<close>), \<open>Otelpump\<close>, \<open>Databases\<close> (\<^verbatim>\<open>influxpump\<close>, \<^verbatim>\<open>timescalepump\<close>, \<^verbatim>\<open>elkpump\<close>,
    \<^verbatim>\<open>elkpump-basic\<close>): one pump each.
  \<^item> \<open>Programs\<close>, \<open>PumpRuns\<close>, \<open>Starts\<close>: the connection to the bus and the \<open>main\<close> functions. \<open>PumpRuns\<close> has
    the three pumps that wait for their settings, with the locale \<open>ordered_writer\<close> for what their
    destinations have in common; \<open>Starts\<close> has also \<^verbatim>\<open>cmd/idrac-telemetry-receiver\<close> and what the packages
    under \<^verbatim>\<open>pkg\<close> add.
  \<^item> \<open>DbAuth\<close>: \<^verbatim>\<open>cmd/dbdiscauth\<close>. \<open>ConfigUi\<close>: the handlers of \<^verbatim>\<open>cmd/configui\<close>. \<open>ConfigServer\<close>: its routes and
    requests, and the commands its forms send. \<open>ConfigReads\<close>: the settings it asks for and shows.
  \<^item> \<open>EsPlugin\<close>: \<^verbatim>\<open>cmd/idracsdkapps/elasticsearch\<close>. \<open>Processes\<close>: \<^verbatim>\<open>internal/ps\<close>. \<open>Simulator\<close>:
    \<^verbatim>\<open>utilities/source-simulator\<close>.
  \<^item> This theory: the properties that span the pipeline.

  \<^bold>\<open>What is shown.\<close> Formats: what is encoded is decoded (envelopes, events, broadcasts). Delivery:
  a send to Kafka is acknowledged once or reported, a broadcast reaches each receiver once and
  survives an outage of others, a reply reaches the call it answers. The Redfish client: its walk
  through the resources of a server ends and is complete. The reader: its invariant in every
  reachable state, what it publishes for reports and alerts, that it survives broken
  streams, and the one device that stops it. The pumps: what each writes for the groups it is
  sent, as functions of the values, and the values that are lost or end the program; as running
  programs, that they handle the groups in order under the settings of the time, whatever the interleaving. The
  page: that no request ends it, that it shows what was set, and that two forms sent at once can reach the wrong
  pump. The database
  program refines an abstract registry of services, and the Prometheus pump a table of latest values.
  From end to end: a system added on the page is the one the reader is told of
  (\<open>added_system_reaches_reader\<close>), a report becomes the Kafka pump's events
  (\<open>report_reaches_kafka\<close>), and a broker and a topic entered on the page make that pump publish
  (\<open>page_configures_kafka_pump\<close>).

  \<^bold>\<open>Bounds.\<close> \<open>json_parse\<close> has fuel of twice the length of the text and one more: each level of nesting
  takes at least one byte and two units, which the round trip of \<open>json_print\<close> shows to be enough. A
  stream of JSON values (\<open>json_stream\<close>) has fuel of one more than its bytes. Lines are read through
  a buffer of 4096 bytes, as the code does, and the theorem on long lines covers every length.
  \<open>ParseFloat\<close> caps exponents at 10000, far beyond the range of doubles; the shortest decimal of a
  float is sought with up to 17 digits, which always suffice. The VictoriaMetrics pump dials 20
  times, the basic ELK pump asks 10 times, as written. \<open>Walk\<close> has fuel for its depth of recursion, and one
  more than the number of documents is shown to be enough. Loops that need not end are
  \<open>partial_function (option)\<close>: \<open>windows_scan\<close>, \<open>amqp_receive_loop\<close>, \<open>connect_bus\<close>.

  \<^bold>\<open>Not modelled.\<close>
  \<^item> Third-party clients (kafka-go, go-stomp, the Prometheus, InfluxDB, Elasticsearch and PostgreSQL
    clients, the SQL driver, gin, viper, protobuf): arguments, with what is relied on stated as laws
    where a property needs it (\<open>gauge_laws\<close>, \<open>es_serves\<close>, \<open>indexer_puts\<close>, \<open>index_takes\<close>, \<open>recovers\<close>).
  \<^item> The HTTP servers that some pumps run beside their loops; logging; TLS beyond which
    files are read. The framework of the page is the parameter \<open>framework\<close>, with the law \<open>recovers\<close>.
  \<^item> Type aliases and re-exported constants of \<^verbatim>\<open>pkg\<close>, constructors of channels, and an unused struct of
    \<^verbatim>\<open>internal/redfish/metricreport\<close>.
  \<^item> \<open>GetData\<close> in the Elasticsearch program, which nothing calls and which prints a Go map.
\<close>

subsection \<open>From a device to Kafka\<close>

lemma report_spec_events [simp]: "dg_Events (report_spec clock d obj mss) = None"
  by (simp add: report_spec_def device_group_def zero_group_def)


text \<open>A report with one value, as a device with a subscriber gets it.\<close>

definition example_metric :: "(string \<times> json) list" where
  "example_metric = [(''MetricId'', JStr []), (''MetricProperty'', JStr ''/a/b#c''), (''MetricValue'', JStr ''false''),
     (''Timestamp'', JStr ''2024-01-01T00:00:00+0000'')]"

definition example_report :: "(string \<times> json) list" where
  "example_report = [(''@odata.type'', JStr ''#MetricReport.v1_4_0.MetricReport''), (''@odata.id'', JStr ''/r''),
     (''Id'', JStr ''PowerMetrics''), (''Name'', JStr ''Power''), (''Timestamp'', JStr ''t''),
     (''MetricValues'', JArr (map JObj [example_metric]))]"


subsection \<open>From the page to Kafka\<close>

lemma kafka_form_sets:
  assumes "kk_Broker tmp \<noteq> []" and "kk_Topic tmp \<noteq> []" and "kk_AlertTopic tmp = []" and "kk_CACert tmp = []"
  shows "\<forall>x\<in>set (kafka_form tmp). plain_set (kk_Topic tmp) x"
    "map_of (rev (kafka_form tmp)) ''kafkaBroker'' = Some (kk_Broker tmp)"
    "map_of (rev (kafka_form tmp)) ''kafkaTopic'' = Some (kk_Topic tmp)"
  using assms by (auto simp: kafka_form_def plain_set_def kafkapump_items_def string_items_def)



subsection \<open>Values without a time stamp\<close>

text \<open>C24: a value to which the reader itself gives the time, because the device gave none, is lost to
  half of the pumps: its time stamp is never one the InfluxDB and OpenTelemetry pumps read;
  the Kafka and Splunk pumps read it, to the second, when the reader runs in UTC, and in no
  other time zone.\<close>

theorem unstamped_reading:
  assumes "metric_data now d j p = Ok (Some v)" and "nonnil ''Timestamp'' (pl_Object p) = None"
    and "marshal_time now \<noteq> None"
  shows "influx_points label v = [] \<and> value_point v = None
    \<and> (t_off now = 0 \<longrightarrow> map_option ke_Time (kafka_metric_event v) = Some (Unix now)
        \<and> map_option se_Time (splunk_event c v) = Some (Unix now))
    \<and> (60 \<le> \<bar>t_off now\<bar> \<longrightarrow> kafka_metric_event v = None \<and> splunk_event c v = None)"
proof -
  have now: "0 \<le> (t_sec now + t_off now) div 86400 + epoch_day" "time_year now \<le> 9999" "\<bar>t_off now\<bar> < 86400"
    using assms(3) by (auto simp: marshal_time_def split: if_splits)
  have ts: "dv_Timestamp v = format_plain_zone now"
    using assms(1,2) by (auto simp: metric_data_def outcome_bind_Ok_iff split: option.splits prod.splits)
  have no: "parse_rfc3339 (dv_Timestamp v) = None" unfolding ts by (rule plain_zone_not_rfc3339 [OF now])
  then have "influx_points label v = []" "value_point v = None"
    by (simp_all add: influx_points_def value_point_def parseRFC3339ToNanos_def)
  moreover have "reading_time (dv_Timestamp v) = Some (now\<lparr>t_nsec := 0\<rparr>)" if "t_off now = 0"
    using no plain_zone_utc [OF now(1,2) that] by (simp add: reading_time_def ts)
  moreover have "reading_time (dv_Timestamp v) = None" if "60 \<le> \<bar>t_off now\<bar>"
    using no plain_zone_elsewhere [OF that now(3)] by (simp add: reading_time_def ts)
  ultimately show ?thesis by (simp add: kafka_metric_event_def splunk_event_def Unix_def)
qed

theorem unstamped_reading_witness:
  "\<exists>v. metric_data \<lparr>t_sec = 1704067200, t_nsec = 5, t_off = 0\<rparr> zero_device 0
        (object_payload [(''MetricId'', JStr ''Temp''), (''MetricValue'', JStr ''21'')]) = Ok (Some v)
    \<and> influx_points [] v = [] \<and> map_option ke_Time (kafka_metric_event v) = Some 1704067200"
proof -
  let ?now = "\<lparr>t_sec = 1704067200, t_nsec = 5, t_off = 0\<rparr>"
  let ?p = "object_payload [(''MetricId'', JStr ''Temp''), (''MetricValue'', JStr ''21'')]"
  have m: "marshal_time ?now \<noteq> None" by code_simp
  have n: "nonnil ''Timestamp'' (pl_Object ?p) = None" by (simp add: nonnil_def obj_get_def)
  obtain v where "metric_data ?now zero_device 0 ?p = Ok (Some v)"
    by (simp add: metric_data_def nonnil_def obj_get_def getValueIdContextAndLabel_def metric_id_def Let_def)
  with unstamped_reading [OF this n m] show ?thesis by (simp add: Unix_def)
qed

end
